theory Spec2Isabelle
  imports Complex_Main
begin

section \<open>Telemetry Recorder: memory snapshots (src/core/performance.ts)\<close>

text \<open>
  \<^verbatim>\<open>PerformanceMonitor.metrics.memorySnapshots\<close> is an array of
  \<^verbatim>\<open>{ timestamp, usage }\<close>, the usage being Node's \<^verbatim>\<open>process.memoryUsage()\<close>:
  byte counts, modelled as natural numbers. \<^verbatim>\<open>Date.now()\<close> is a parameter of the model.
\<close>

record memory_usage =
  rss :: nat
  heapTotal :: nat
  heapUsed :: nat
  external :: nat
  arrayBuffers :: nat

record snapshot =
  timestamp :: int
  usage :: memory_usage

definition MAX_SNAPSHOTS :: nat where
  "MAX_SNAPSHOTS = 100"

text \<open>
  \<^verbatim>\<open>captureMemorySnapshot\<close>: push the sample, then \<^verbatim>\<open>shift()\<close> the oldest one away
  when the array has grown past \<^verbatim>\<open>MAX_SNAPSHOTS\<close>.
\<close>

definition captureMemorySnapshot :: "int \<Rightarrow> memory_usage \<Rightarrow> snapshot list \<Rightarrow> snapshot list" where
  "captureMemorySnapshot now u memorySnapshots =
     (let pushed = memorySnapshots @ [\<lparr>timestamp = now, usage = u\<rparr>]
      in if length pushed > MAX_SNAPSHOTS then tl pushed else pushed)"

text \<open>\<^verbatim>\<open>Array.prototype.slice(-n)\<close>: the last \<open>n\<close> elements, all of them when there are fewer.\<close>

definition slice_from_end :: "nat \<Rightarrow> 'a list \<Rightarrow> 'a list" where
  "slice_from_end n xs = drop (length xs - n) xs"

datatype memory_trend = insufficient_data | increasing | decreasing | stable

text \<open>
  \<^verbatim>\<open>getMemoryTrend\<close>. The source computes \<^verbatim>\<open>((last - first) / first) * 100\<close> in
  double precision; the model computes it in the rationals. A JavaScript division by zero
  does not fail: a positive numerator gives \<^verbatim>\<open>Infinity\<close> (which is \<^verbatim>\<open>> 5\<close>) and
  \<^verbatim>\<open>0 / 0\<close> gives \<^verbatim>\<open>NaN\<close> (every comparison false), which the branch for
  \<open>first = 0\<close> writes out.
\<close>

definition getMemoryTrend :: "snapshot list \<Rightarrow> memory_trend" where
  "getMemoryTrend memorySnapshots =
     (if length memorySnapshots < 2 then insufficient_data
      else
        let recent = slice_from_end 5 memorySnapshots;
            first = heapUsed (usage (recent ! 0));
            final = heapUsed (usage (recent ! (length recent - 1)))
        in if first = 0 then (if final > 0 then increasing else stable)
           else
             let change = ((rat_of_nat final - rat_of_nat first) / rat_of_nat first) * 100
             in if change > 5 then increasing
                else if change < - 5 then decreasing
                else stable)"

text \<open>The spec's words: the most recent five samples, and the relative change between two readings.\<close>

definition most_recent :: "nat \<Rightarrow> 'a list \<Rightarrow> 'a list" where
  "most_recent n xs = rev (take n (rev xs))"

definition relative_change :: "nat \<Rightarrow> nat \<Rightarrow> rat" where
  "relative_change first final = (rat_of_nat final - rat_of_nat first) / rat_of_nat first"

text \<open>A run of the sampler: one \<^verbatim>\<open>captureMemorySnapshot\<close> per (time, usage) reading.\<close>

fun capture_all :: "(int \<times> memory_usage) list \<Rightarrow> snapshot list \<Rightarrow> snapshot list" where
  "capture_all [] memorySnapshots = memorySnapshots"
| "capture_all ((now, u) # rest) memorySnapshots =
     capture_all rest (captureMemorySnapshot now u memorySnapshots)"

definition as_snapshot :: "int \<times> memory_usage \<Rightarrow> snapshot" where
  "as_snapshot p = \<lparr>timestamp = fst p, usage = snd p\<rparr>"

text \<open>A snapshot that reads \<open>h\<close> bytes of used heap (the other readings zero), for examples.\<close>

definition sample :: "nat \<Rightarrow> snapshot" where
  "sample h = \<lparr>timestamp = 0,
     usage = \<lparr>rss = 0, heapTotal = 0, heapUsed = h, external = 0, arrayBuffers = 0\<rparr>\<rparr>"

section \<open>Error Classifier (core/error-handler.ts)\<close>

text \<open>
  The enums of the source. \<^verbatim>\<open>ErrorSeverity.CRITICAL\<close> carries a suffix, since
  \<^verbatim>\<open>ErrorType.CRITICAL\<close> has the same name.
\<close>

datatype ErrorType =
  CONFIGURATION | VALIDATION | RUNTIME | NETWORK | TIMEOUT | RESOURCE | PERMISSION | CRITICAL

datatype ErrorSeverity = LOW | MEDIUM | HIGH | CRITICAL_severity

fun ErrorType_string :: "ErrorType \<Rightarrow> string" where
  "ErrorType_string CONFIGURATION = ''CONFIGURATION''"
| "ErrorType_string VALIDATION = ''VALIDATION''"
| "ErrorType_string RUNTIME = ''RUNTIME''"
| "ErrorType_string NETWORK = ''NETWORK''"
| "ErrorType_string TIMEOUT = ''TIMEOUT''"
| "ErrorType_string RESOURCE = ''RESOURCE''"
| "ErrorType_string PERMISSION = ''PERMISSION''"
| "ErrorType_string CRITICAL = ''CRITICAL''"

fun ErrorType_toLowerCase :: "ErrorType \<Rightarrow> string" where
  "ErrorType_toLowerCase CONFIGURATION = ''configuration''"
| "ErrorType_toLowerCase VALIDATION = ''validation''"
| "ErrorType_toLowerCase RUNTIME = ''runtime''"
| "ErrorType_toLowerCase NETWORK = ''network''"
| "ErrorType_toLowerCase TIMEOUT = ''timeout''"
| "ErrorType_toLowerCase RESOURCE = ''resource''"
| "ErrorType_toLowerCase PERMISSION = ''permission''"
| "ErrorType_toLowerCase CRITICAL = ''critical''"

fun ErrorSeverity_string :: "ErrorSeverity \<Rightarrow> string" where
  "ErrorSeverity_string LOW = ''LOW''"
| "ErrorSeverity_string MEDIUM = ''MEDIUM''"
| "ErrorSeverity_string HIGH = ''HIGH''"
| "ErrorSeverity_string CRITICAL_severity = ''CRITICAL''"

text \<open>
  \<^verbatim>\<open>ErrorContext\<close> is an object of optional fields; the model keeps it as a map from the
  field name to its value, so that the spread \<^verbatim>\<open>{ ...a, ...b }\<close> is \<open>a ++ b\<close>. The
  \<^verbatim>\<open>stackTrace\<close> the constructor stores is not modelled.
\<close>

datatype context_value = Text string | Number int

type_synonym ErrorContext = "string \<rightharpoonup> context_value"

text \<open>
  \<^verbatim>\<open>ReAgentError\<close>. The fields carry the prefix \<open>e_\<close>: a record field is a global
  constant in HOL, and \<open>timestamp\<close>, \<open>message\<close> and \<open>name\<close> are fields of other objects too.
\<close>

record ReAgentError =
  e_message :: string
  e_type :: ErrorType
  e_severity :: ErrorSeverity
  e_context :: ErrorContext
  e_code :: "string option"
  e_retryable :: bool
  e_timestamp :: int

text \<open>
  What a \<^verbatim>\<open>catch\<close> receives: a plain \<^verbatim>\<open>Error\<close> with its \<^verbatim>\<open>name\<close> and
  \<^verbatim>\<open>message\<close>, or a \<^verbatim>\<open>ReAgentError\<close>. (A thrown value that is no \<^verbatim>\<open>Error\<close> is
  wrapped by the source as \<^verbatim>\<open>new Error(String(error))\<close> before it is looked at.)
\<close>

datatype js_error = Error string string | ReAgent ReAgentError

fun error_message :: "js_error \<Rightarrow> string" where
  "error_message (Error name message) = message"
| "error_message (ReAgent e) = e_message e"

text \<open>The constructor \<^verbatim>\<open>new ReAgentError(message, type, severity, context, code, retryable)\<close>,
  at the time \<open>now\<close> that \<^verbatim>\<open>Date.now()\<close> returns.\<close>

definition new_ReAgentError ::
  "int \<Rightarrow> string \<Rightarrow> ErrorType \<Rightarrow> ErrorSeverity \<Rightarrow> ErrorContext \<Rightarrow> string option \<Rightarrow> bool
   \<Rightarrow> ReAgentError" where
  "new_ReAgentError now message ty severity context code retryable =
     \<lparr>e_message = message, e_type = ty, e_severity = severity,
      e_context = context ++ [''timestamp'' \<mapsto> Number now],
      e_code = code, e_retryable = retryable, e_timestamp = now\<rparr>"

text \<open>\<^verbatim>\<open>ErrorHandler.createError\<close>; the defaults of the source are RUNTIME, MEDIUM, no code, not retryable.\<close>

definition createError ::
  "int \<Rightarrow> string \<Rightarrow> ErrorType \<Rightarrow> ErrorSeverity \<Rightarrow> ErrorContext \<Rightarrow> ReAgentError" where
  "createError now message ty severity context =
     new_ReAgentError now message ty severity context None False"

text \<open>
  \<^verbatim>\<open>ReAgentError.toString\<close>: the parts that are not empty, joined by one space.
\<close>

fun join_space :: "string list \<Rightarrow> string" where
  "join_space [] = []"
| "join_space [p] = p"
| "join_space (p # q # ps) = p @ '' '' @ join_space (q # ps)"

definition context_text :: "ErrorContext \<Rightarrow> string \<Rightarrow> string" where
  "context_text context field = (case context field of Some (Text s) \<Rightarrow> s | _ \<Rightarrow> [])"

definition toString :: "ReAgentError \<Rightarrow> string" where
  "toString e =
     (let parts =
        [''['' @ ErrorType_string (e_type e) @ '':'' @ ErrorSeverity_string (e_severity e) @ '']'',
         (case e_code e of Some c \<Rightarrow> (if c = [] then [] else ''['' @ c @ '']'') | None \<Rightarrow> []),
         e_message e,
         (if context_text (e_context e) ''component'' = [] then []
          else ''(Component: '' @ context_text (e_context e) ''component'' @ '')''),
         (if context_text (e_context e) ''operation'' = [] then []
          else ''(Operation: '' @ context_text (e_context e) ''operation'' @ '')'')]
      in join_space (filter (\<lambda>p. p \<noteq> []) parts))"

subsection \<open>The process-wide services the handler writes to\<close>

text \<open>
  The handler, the logger and the telemetry recorder are singletons of the process. The model
  passes their mutable state along in one record: the two maps of \<^verbatim>\<open>ErrorHandler\<close>,
  \<^verbatim>\<open>perfMonitor.metrics.counters\<close> and \<^verbatim>\<open>perfMonitor.metrics.errors\<close> (count and
  time of the last occurrence), and the lines handed to the logger.
\<close>

datatype LogLevel = Debug | Info | Warn | Err

record services =
  errorCounts :: "string \<rightharpoonup> nat"
  lastErrors :: "string \<rightharpoonup> int"
  counters :: "string \<rightharpoonup> nat"
  errors :: "string \<rightharpoonup> nat \<times> int"
  logged :: "(LogLevel \<times> string) list"

definition maxSimilarErrors :: nat where
  "maxSimilarErrors = 10"

definition similarErrorWindow :: int where
  "similarErrorWindow = 60000"

text \<open>\<^verbatim>\<open>perfMonitor.incrementCounter(name)\<close> and \<^verbatim>\<open>perfMonitor.recordError(type)\<close>.\<close>

definition incrementCounter :: "string \<Rightarrow> services \<Rightarrow> services" where
  "incrementCounter name s =
     (let current = (case counters s name of Some c \<Rightarrow> c | None \<Rightarrow> 0)
      in s\<lparr>counters := (counters s)(name \<mapsto> current + 1)\<rparr>)"

definition recordError :: "int \<Rightarrow> string \<Rightarrow> services \<Rightarrow> services" where
  "recordError now ty s =
     (let count = (case errors s ty of Some (c, t) \<Rightarrow> c | None \<Rightarrow> 0)
      in s\<lparr>errors := (errors s)(ty \<mapsto> (count + 1, now))\<rparr>)"

text \<open>\<^verbatim>\<open>logError\<close>: the logger's level follows the severity.\<close>

fun severity_level :: "ErrorSeverity \<Rightarrow> LogLevel" where
  "severity_level CRITICAL_severity = Err"
| "severity_level HIGH = Err"
| "severity_level MEDIUM = Warn"
| "severity_level LOW = Debug"

definition logError :: "ReAgentError \<Rightarrow> services \<Rightarrow> services" where
  "logError e s = s\<lparr>logged := logged s @ [(severity_level (e_severity e), toString e)]\<rparr>"

text \<open>
  \<^verbatim>\<open>shouldSuppressDuplicateError\<close>. The key is the string
  \<^verbatim>\<open>`${error.type}:${error.message}`\<close>; a key that was never stored reads as 0
  (\<^verbatim>\<open>get(errorKey) || 0\<close>). The function answers \<open>True\<close> before it has written anything.
\<close>

definition errorKey :: "ReAgentError \<Rightarrow> string" where
  "errorKey e = ErrorType_string (e_type e) @ '':'' @ e_message e"

definition shouldSuppressDuplicateError :: "int \<Rightarrow> ReAgentError \<Rightarrow> services \<Rightarrow> bool \<times> services" where
  "shouldSuppressDuplicateError now e s =
     (let lastTime = (case lastErrors s (errorKey e) of Some t \<Rightarrow> t | None \<Rightarrow> 0);
          count = (case errorCounts s (errorKey e) of Some c \<Rightarrow> c | None \<Rightarrow> 0)
      in if now - lastTime < similarErrorWindow \<and> count \<ge> maxSimilarErrors then (True, s)
         else
           let s1 = s\<lparr>lastErrors := (lastErrors s)(errorKey e \<mapsto> now),
                      errorCounts := (errorCounts s)(errorKey e \<mapsto> count + 1)\<rparr>;
               s2 = (if now - lastTime > similarErrorWindow
                     then s1\<lparr>errorCounts := (errorCounts s1)(errorKey e \<mapsto> 1)\<rparr> else s1)
           in (False, s2))"

text \<open>
  \<^verbatim>\<open>handleError\<close>. The first half builds the typed error (\<open>classify\<close>): a
  \<^verbatim>\<open>ReAgentError\<close> keeps its fields and has the context merged in, anything else becomes
  RUNTIME / MEDIUM, not retryable. The second half returns at once for a suppressed duplicate,
  and otherwise logs the error and bumps the telemetry.
\<close>

fun classify :: "int \<Rightarrow> js_error \<Rightarrow> ErrorContext \<Rightarrow> ReAgentError" where
  "classify now (ReAgent error) context =
     new_ReAgentError now (e_message error) (e_type error) (e_severity error)
       (e_context error ++ context) (e_code error) (e_retryable error)"
| "classify now (Error name message) context =
     new_ReAgentError now message RUNTIME MEDIUM
       (context ++ [''originalError'' \<mapsto> Text name]) None False"

definition handleError :: "int \<Rightarrow> js_error \<Rightarrow> ErrorContext \<Rightarrow> services \<Rightarrow> ReAgentError \<times> services" where
  "handleError now error context s =
     (let reAgentError = classify now error context;
          (suppress, s1) = shouldSuppressDuplicateError now reAgentError s
      in if suppress then (reAgentError, s1)
         else
           let s2 = logError reAgentError s1;
               s3 = recordError now
                      (ErrorType_string (e_type reAgentError) @ ''.'' @
                       ErrorSeverity_string (e_severity reAgentError)) s2;
               s4 = incrementCounter ''errors.total'' s3;
               s5 = incrementCounter (''errors.'' @ ErrorType_toLowerCase (e_type reAgentError)) s4
           in (reAgentError, s5))"


definition no_services :: services where
  "no_services = \<lparr>errorCounts = Map.empty, lastErrors = Map.empty, counters = Map.empty,
                  errors = Map.empty, logged = []\<rparr>"


subsection \<open>The retry helper\<close>

text \<open>
  \<^verbatim>\<open>ErrorHandler.retry(fn, context, maxRetries, delayMs, backoffMultiplier)\<close>. The operation
  is stateful: \<open>fn i\<close> is the outcome of its invocation number \<open>i\<close> (counted from 0), thrown
  (\<open>Inl\<close>) or returned (\<open>Inr\<close>); \<open>clock i\<close> is the time at which that failure is handled. Next to
  its outcome the model returns what the loop did: how many times it invoked \<open>fn\<close> and the delays
  it slept. Delays are exact rationals. After the loop the source throws
  \<^verbatim>\<open>handleError(lastError!, context)\<close>; with no error recorded that reads
  \<^verbatim>\<open>null.message\<close>, a TypeError.
\<close>

definition attempt_context :: "ErrorContext \<Rightarrow> nat \<Rightarrow> int \<Rightarrow> ErrorContext" where
  \<comment> \<open>\<^verbatim>\<open>{ ...context, attempt: attempt + 1, maxRetries }\<close>\<close>
  "attempt_context context attempt maxRetries =
     context ++ [''attempt'' \<mapsto> Number (int attempt + 1), ''maxRetries'' \<mapsto> Number maxRetries]"

record 'a retry_run =
  outcome :: "js_error + 'a"
  invocations :: nat
  slept :: "rat list"
  after :: services

definition null_message_TypeError :: js_error where
  "null_message_TypeError =
     Error ''TypeError'' ''Cannot read properties of null (reading 'message')''"

function retry_loop ::
  "(nat \<Rightarrow> js_error + 'a) \<Rightarrow> (nat \<Rightarrow> int) \<Rightarrow> ErrorContext \<Rightarrow> int \<Rightarrow> rat
   \<Rightarrow> nat \<Rightarrow> rat \<Rightarrow> js_error option \<Rightarrow> nat \<Rightarrow> rat list \<Rightarrow> services \<Rightarrow> 'a retry_run" where
  "retry_loop fn clock context maxRetries backoffMultiplier attempt currentDelay lastError calls sleeps s =
     (if int attempt < maxRetries then
        (case fn calls of
           Inr v \<Rightarrow> \<lparr>outcome = Inr v, invocations = calls + 1, slept = sleeps, after = s\<rparr>
         | Inl error \<Rightarrow>
             let (reAgentError, s1) =
                   handleError (clock calls) error (attempt_context context attempt maxRetries) s
             in if int attempt = maxRetries - 1 \<or> \<not> e_retryable reAgentError
                then \<lparr>outcome = Inl (ReAgent reAgentError), invocations = calls + 1,
                      slept = sleeps, after = s1\<rparr>
                else
                  retry_loop fn clock context maxRetries backoffMultiplier (attempt + 1)
                    (currentDelay * backoffMultiplier) (Some error) (calls + 1)
                    (sleeps @ [currentDelay])
                    (s1\<lparr>logged := logged s1 @ [(Warn, ''retrying the operation'')]\<rparr>))
      else
        (case lastError of
           None \<Rightarrow> \<lparr>outcome = Inl null_message_TypeError, invocations = calls,
                     slept = sleeps, after = s\<rparr>
         | Some error \<Rightarrow>
             let (reAgentError, s1) = handleError (clock calls) error context s
             in \<lparr>outcome = Inl (ReAgent reAgentError), invocations = calls,
                 slept = sleeps, after = s1\<rparr>))"
  by pat_completeness auto
termination
  by (relation "measure (\<lambda>(fn, clock, context, maxRetries, backoffMultiplier, attempt, rest).
        nat (maxRetries - int attempt))") auto

definition retry ::
  "(nat \<Rightarrow> js_error + 'a) \<Rightarrow> (nat \<Rightarrow> int) \<Rightarrow> ErrorContext \<Rightarrow> int \<Rightarrow> rat \<Rightarrow> rat \<Rightarrow> services
   \<Rightarrow> 'a retry_run" where
  "retry fn clock context maxRetries delayMs backoffMultiplier s =
     retry_loop fn clock context maxRetries backoffMultiplier 0 delayMs None 0 [] s"

subsection \<open>Notions used to state the properties of the handler\<close>




fun error_kind :: "js_error \<Rightarrow> ErrorType" where
  "error_kind (ReAgent error) = e_type error"
| "error_kind (Error name message) = RUNTIME"

definition pair_key :: "ErrorType \<Rightarrow> string \<Rightarrow> string" where
  "pair_key kind message = ErrorType_string kind @ '':'' @ message"

definition same_pair :: "ErrorType \<Rightarrow> string \<Rightarrow> (int \<times> js_error \<times> ErrorContext) list \<Rightarrow> bool" where
  "same_pair kind message calls =
     list_all (\<lambda>(now, error, context). error_kind error = kind \<and> error_message error = message) calls"

text \<open>A burst of eleven identical plain errors, one per second, in a process that has seen none.\<close>

definition boom :: js_error where
  "boom = Error ''Error'' ''boom''"




text \<open>
  Whether the handler classifies a thrown value as retryable: a \<^verbatim>\<open>ReAgentError\<close> keeps its
  flag, a plain error is never retryable. \<open>nth_delay\<close> is the geometric schedule the spec
  describes, \<open>always_throws\<close> an operation that fails with the same error on every invocation.
\<close>

fun classified_retryable :: "js_error \<Rightarrow> bool" where
  "classified_retryable (ReAgent e) = e_retryable e"
| "classified_retryable (Error name message) = False"

definition nth_delay :: "rat \<Rightarrow> rat \<Rightarrow> nat \<Rightarrow> rat" where
  "nth_delay delayMs backoffMultiplier k = delayMs * backoffMultiplier ^ k"

definition always_throws :: "js_error \<Rightarrow> nat \<Rightarrow> js_error + 'a" where
  "always_throws error i = Inl error"

definition flaky :: js_error where
  "flaky = ReAgent (new_ReAgentError 0 ''connection reset'' NETWORK MEDIUM Map.empty None True)"

section \<open>Tool calls, tools and the trace of an agent (types/, agent-builder.ts)\<close>

text \<open>
  A \<^verbatim>\<open>ToolCall\<close> is \<^verbatim>\<open>{ id?, name, args }\<close>; the argument object is left as a type
  parameter. A record field is a global constant, so the fields carry the prefix \<open>tc_\<close>
  (\<open>id\<close> and \<open>name\<close> alone would hide HOL's \<open>id\<close> and clash with the fields of a tool).
\<close>

record 'a ToolCall =
  tc_id :: "string option"
  tc_name :: string
  tc_args :: 'a

record ToolResult =
  tr_content :: string
  toolCallId :: string
  success :: bool
  tr_error :: "string option"

text \<open>\<^verbatim>\<open>InterceptorOutput = string | ToolResult\<close>, and what \<^verbatim>\<open>String(x)\<close> makes of it.\<close>

datatype InterceptorOutput = Str string | Res ToolResult

fun String :: "InterceptorOutput \<Rightarrow> string" where
  "String (Str s) = s"
| "String (Res r) = ''[object Object]''"

text \<open>
  \<^verbatim>\<open>InterceptorResult\<close> is the union of \<^verbatim>\<open>{ shortCircuit: true, result }\<close> and
  \<^verbatim>\<open>{ shortCircuit: false, modifiedInput }\<close>.
\<close>

datatype 'a InterceptorResult = ShortCircuitResult InterceptorOutput | NormalResult "'a ToolCall"

record ToolMessage =
  content :: string
  tool_call_id :: string

datatype 'a BaseMessage =
  HumanMessage string
| SystemMessage string
| AIMessage string "'a ToolCall list"
| ToolMsg ToolMessage

record 'a AgentState =
  messages :: "'a BaseMessage list"

text \<open>
  A tool: its name and \<^verbatim>\<open>invoke(args)\<close>, which returns or throws. The name is optional in
  the model because \<^verbatim>\<open>addTool\<close> asks whether it is there.
\<close>

record 'a StructuredTool =
  tool_name :: "string option"
  invoke :: "'a \<Rightarrow> js_error + InterceptorOutput"

type_synonym 'a toolMap = "string \<rightharpoonup> 'a StructuredTool"

subsection \<open>What an agent does to its collaborators\<close>

text \<open>
  The agent layer is modelled by its results and by the trace of calls it makes: to hooks
  (with the arguments passed), to tools, to the logger, to the telemetry counters and to the
  error handler. The four hook stages around a tool call are \<open>stage\<close>. Of the logger's lines
  the model keeps the warnings and errors and the two debug lines of a skipped breakpoint; the
  texts of the source are Chinese, so a line is recorded by its call site and its arguments.
\<close>

datatype stage = GlobalBefore | SpecificBefore | SpecificAfter | GlobalAfter

datatype core_point = BeforeModelInvoke | AfterAgentComplete

datatype log_text =
  InvalidToolCalls nat "string list"
| TooManyToolErrors nat nat
| ToolFailed string string
| InterceptorFailed stage js_error
| CoreInterceptorFailed core_point js_error
| BreakpointStageFailed stage js_error
| BreakpointLimitReached nat string
| BreakpointAlreadyQueued string
| BreakpointFailed string string
| ToolOverwritten string

datatype 'a event =
  Intercept stage "'a ToolCall" "InterceptorOutput option"
| CoreIntercept core_point
| Break stage "'a ToolCall" "InterceptorOutput option"
| Invoke string 'a
| Log LogLevel log_text
| Count string
| Classified js_error ErrorContext

text \<open>
  An awaited computation: its outcome, thrown (\<open>Inl\<close>) or returned (\<open>Inr\<close>), and its trace.
  \<open>and_then\<close> is sequencing by \<^verbatim>\<open>await\<close>, where a rejection skips the rest;
  \<open>try_catch\<close> is \<^verbatim>\<open>try { ... } catch (error) { ... }\<close>; \<open>called\<close> is the call of a
  hook or tool, which leaves its event whatever the outcome.
\<close>

type_synonym ('r, 'a) task = "(js_error + 'r) \<times> 'a event list"

definition and_then :: "('r, 'a) task \<Rightarrow> ('r \<Rightarrow> ('q, 'a) task) \<Rightarrow> ('q, 'a) task" where
  "and_then first rest =
     (case fst first of
        Inl error \<Rightarrow> (Inl error, snd first)
      | Inr v \<Rightarrow> (fst (rest v), snd first @ snd (rest v)))"

definition try_catch :: "('r, 'a) task \<Rightarrow> (js_error \<Rightarrow> ('r, 'a) task) \<Rightarrow> ('r, 'a) task" where
  "try_catch body handler =
     (case fst body of
        Inl error \<Rightarrow> (fst (handler error), snd body @ snd (handler error))
      | Inr v \<Rightarrow> body)"

definition called :: "'a event \<Rightarrow> js_error + 'r \<Rightarrow> ('r, 'a) task" where
  "called ev result = (result, [ev])"

text \<open>
  \<^verbatim>\<open>toolCall.id || perfUtils.generateId(prefix)\<close>: an absent or empty id is falsy. The id
  generator (a counter and a clock reading) is a parameter \<open>generateId\<close> of the model;
  \<open>string_of_nat\<close> renders an array index inside a template string.
\<close>

definition id_or :: "string option \<Rightarrow> string \<Rightarrow> string" where
  "id_or i generated = (case i of None \<Rightarrow> generated | Some s \<Rightarrow> if s = [] then generated else s)"

fun string_of_nat :: "nat \<Rightarrow> string" where
  "string_of_nat n =
     (if n < 10 then [''0123456789'' ! n]
      else string_of_nat (n div 10) @ [''0123456789'' ! (n mod 10)])"

definition startsWith :: "string \<Rightarrow> string \<Rightarrow> bool" where
  "startsWith s p = (take (length p) s = p)"

subsection \<open>The tool registry: \<^verbatim>\<open>addTool\<close>\<close>

text \<open>
  \<^verbatim>\<open>ReAgentBuilder.addTool(tool)\<close>. \<^verbatim>\<open>!tool\<close> holds for null and undefined (\<open>None\<close>),
  \<^verbatim>\<open>!tool.name\<close> for a missing and for an empty name. The model returns the outcome, the
  registry afterwards and the trace. The message of the thrown error is Chinese in the source
  (it says that a tool must not be empty and must have a name) and is glossed here.
\<close>

definition addTool_context :: "'a StructuredTool option \<Rightarrow> ErrorContext" where
  "addTool_context tool =
     [''component'' \<mapsto> Text ''ReAgentBuilder'', ''operation'' \<mapsto> Text ''addTool'']
     ++ (case tool of
           Some t \<Rightarrow> (case tool_name t of Some n \<Rightarrow> [''toolName'' \<mapsto> Text n] | None \<Rightarrow> Map.empty)
         | None \<Rightarrow> Map.empty)"

definition addTool ::
  "int \<Rightarrow> 'a StructuredTool option \<Rightarrow> 'a toolMap
   \<Rightarrow> (js_error + unit) \<times> 'a toolMap \<times> 'a event list" where
  "addTool now tool toolMap =
     (let thrown = (Inl (ReAgent (createError now ''a tool must not be empty and must have a name''
                      VALIDATION HIGH (addTool_context tool))), toolMap, [])
      in case tool of
           None \<Rightarrow> thrown
         | Some t \<Rightarrow>
             (case tool_name t of
                None \<Rightarrow> thrown
              | Some n \<Rightarrow>
                  if n = [] then thrown
                  else (Inr (), toolMap(n \<mapsto> t),
                        (if toolMap n \<noteq> None then [Log Warn (ToolOverwritten n)] else [])
                        @ [Count ''tools.added''])))"

text \<open>The spec's words for the two kinds of argument.\<close>

definition lacks_name :: "'a StructuredTool option \<Rightarrow> bool" where
  "lacks_name tool = (case tool of None \<Rightarrow> True | Some t \<Rightarrow> tool_name t = None \<or> tool_name t = Some [])"

definition echo_tool :: "string \<Rightarrow> string StructuredTool" where
  "echo_tool n = \<lparr>tool_name = Some n, invoke = (\<lambda>args. Inr (Str (n @ '':'' @ args)))\<rparr>"

section \<open>Breakpoint Pipeline (agent/breakpoint-manager.ts)\<close>

text \<open>
  A JavaScript \<^verbatim>\<open>Set\<close> of keys (and the key set of a \<^verbatim>\<open>Map\<close>) is a list without
  repetition, in insertion order; its \<^verbatim>\<open>size\<close> is the length.
\<close>

definition Set_add :: "'k \<Rightarrow> 'k list \<Rightarrow> 'k list" where
  "Set_add k ks = (if k \<in> set ks then ks else ks @ [k])"

definition Set_delete :: "'k \<Rightarrow> 'k list \<Rightarrow> 'k list" where
  "Set_delete k ks = removeAll k ks"

text \<open>
  The mutable part of a \<^verbatim>\<open>BreakpointManager\<close>: the keys of \<^verbatim>\<open>executionQueue\<close> and the
  set \<^verbatim>\<open>concurrentBreakpoints\<close>. The limit \<^verbatim>\<open>maxConcurrentBreakpoints\<close> is a number of
  tasks, a natural number in the model, and a parameter of every operation.
\<close>

record BreakpointManager =
  executionQueue :: "string list"
  concurrentBreakpoints :: "string list"

definition new_BreakpointManager :: BreakpointManager where
  "new_BreakpointManager = \<lparr>executionQueue = [], concurrentBreakpoints = []\<rparr>"

text \<open>
  What a breakpoint hook does within the 2000 ms the manager waits for it: it resolves, it
  rejects, or it is still pending when the timer rejects the race (the hook itself goes on
  unobserved). A hook call is passed around as the event that records it and this outcome.
\<close>

datatype hook_outcome = Resolves | Rejects js_error | Pending

definition timeout_error :: "string \<Rightarrow> js_error" where
  "timeout_error key = Error ''Error'' (''breakpoint timed out: '' @ key)"

text \<open>
  \<^verbatim>\<open>executeBreakpoint\<close>, from its call to the end of its \<^verbatim>\<open>finally\<close>: the key joins
  \<^verbatim>\<open>concurrentBreakpoints\<close>, the hook is called, a failure or a timeout is caught and logged
  as a warning, and the key leaves the set.
\<close>

definition executeBreakpoint ::
  "string \<Rightarrow> 'a event \<times> hook_outcome \<Rightarrow> BreakpointManager \<Rightarrow> (unit, 'a) task \<times> BreakpointManager" where
  "executeBreakpoint key breakpointFn m =
     (let m1 = m\<lparr>concurrentBreakpoints := Set_add key (concurrentBreakpoints m)\<rparr>;
          race = called (fst breakpointFn)
                   (case snd breakpointFn of
                      Resolves \<Rightarrow> Inr ()
                    | Rejects error \<Rightarrow> Inl error
                    | Pending \<Rightarrow> Inl (timeout_error key));
          caught = try_catch race
                     (\<lambda>error. (Inr (), [Log Warn (BreakpointFailed key (error_message error))]))
      in (caught, m1\<lparr>concurrentBreakpoints := Set_delete key (concurrentBreakpoints m1)\<rparr>))"

text \<open>
  \<^verbatim>\<open>enqueueBreakpoint\<close>, run to its end with no other task in between. At the limit, or with
  the key already queued, it returns at once. Otherwise the key is in the queue while
  \<^verbatim>\<open>executeBreakpoint\<close> runs and is deleted in the \<^verbatim>\<open>finally\<close>.
\<close>

definition enqueueBreakpoint ::
  "nat \<Rightarrow> string \<Rightarrow> 'a event \<times> hook_outcome \<Rightarrow> BreakpointManager
   \<Rightarrow> (unit, 'a) task \<times> BreakpointManager" where
  "enqueueBreakpoint maxConcurrentBreakpoints key breakpointFn m =
     (if length (concurrentBreakpoints m) \<ge> maxConcurrentBreakpoints
      then ((Inr (), [Log Debug (BreakpointLimitReached maxConcurrentBreakpoints key)]), m)
      else if key \<in> set (executionQueue m)
      then ((Inr (), [Log Debug (BreakpointAlreadyQueued key)]), m)
      else
        let (result, m1) = executeBreakpoint key breakpointFn m;
            m2 = m1\<lparr>executionQueue := Set_add key (executionQueue m1)\<rparr>
        in (result, m2\<lparr>executionQueue := Set_delete key (executionQueue m2)\<rparr>))"

text \<open>
  Tasks interleave at every \<^verbatim>\<open>await\<close>. Between two awaits a task runs alone, so the manager
  changes in three kinds of atomic step: the synchronous start of \<^verbatim>\<open>enqueueBreakpoint\<close> (the
  two checks, then the key enters the set and the queue, the hook having been called), the
  \<^verbatim>\<open>finally\<close> of \<^verbatim>\<open>executeBreakpoint\<close> once the race has settled, and the
  \<^verbatim>\<open>finally\<close> of \<^verbatim>\<open>enqueueBreakpoint\<close>. A schedule is any sequence of such steps.
\<close>

datatype bp_action = Enqueue string | Settle string | Dequeue string

fun bp_step :: "nat \<Rightarrow> BreakpointManager \<Rightarrow> bp_action \<Rightarrow> BreakpointManager" where
  "bp_step maxConcurrentBreakpoints m (Enqueue key) =
     (if length (concurrentBreakpoints m) \<ge> maxConcurrentBreakpoints then m
      else if key \<in> set (executionQueue m) then m
      else m\<lparr>concurrentBreakpoints := Set_add key (concurrentBreakpoints m),
             executionQueue := Set_add key (executionQueue m)\<rparr>)"
| "bp_step maxConcurrentBreakpoints m (Settle key) =
     m\<lparr>concurrentBreakpoints := Set_delete key (concurrentBreakpoints m)\<rparr>"
| "bp_step maxConcurrentBreakpoints m (Dequeue key) =
     m\<lparr>executionQueue := Set_delete key (executionQueue m)\<rparr>"

definition getActiveBreakpointCount :: "BreakpointManager \<Rightarrow> nat" where
  "getActiveBreakpointCount m = length (concurrentBreakpoints m)"

subsection \<open>The breakpoints around a tool call\<close>

text \<open>
  The part of \<^verbatim>\<open>BreakpointConfig\<close> that concerns tool calls. \<^verbatim>\<open>toolSpecific\<close> is a
  \<^verbatim>\<open>Map\<close> from tool names, kept as the list of its entries; the flags the constructor
  computes (\<^verbatim>\<open>hasGlobalBefore\<close> and so on) are read off the configuration.
\<close>

record 'a tool_breakpoints =
  bp_beforeToolCall :: "('a ToolCall \<Rightarrow> 'a AgentState \<Rightarrow> hook_outcome) option"
  bp_afterToolCall :: "(InterceptorOutput \<Rightarrow> 'a ToolCall \<Rightarrow> 'a AgentState \<Rightarrow> hook_outcome) option"

record 'a BreakpointConfig =
  bp_enabled :: bool
  bp_global_beforeToolCall :: "('a ToolCall \<Rightarrow> 'a AgentState \<Rightarrow> hook_outcome) option"
  bp_global_afterToolCall :: "(InterceptorOutput \<Rightarrow> 'a ToolCall \<Rightarrow> 'a AgentState \<Rightarrow> hook_outcome) option"
  bp_toolSpecific :: "(string \<times> 'a tool_breakpoints) list"

definition lock_key :: "string \<Rightarrow> (string \<Rightarrow> string) \<Rightarrow> string \<Rightarrow> 'a ToolCall \<Rightarrow> string" where
  \<comment> \<open>\<^verbatim>\<open>`${prefix}-${toolName}-${toolCall.id || perfUtils.generateId('tool')}`\<close>\<close>
  "lock_key prefix generateId toolName toolCall =
     prefix @ ''-'' @ toolName @ ''-'' @ id_or (tc_id toolCall) (generateId ''tool'')"

definition skipped :: "BreakpointManager \<Rightarrow> (unit, 'a) task \<times> BreakpointManager" where
  "skipped m = ((Inr (), []), m)"

definition breakBeforeToolCall ::
  "nat \<Rightarrow> (string \<Rightarrow> string) \<Rightarrow> 'a BreakpointConfig \<Rightarrow> BreakpointManager
   \<Rightarrow> 'a ToolCall \<Rightarrow> 'a AgentState \<Rightarrow> (unit, 'a) task \<times> BreakpointManager" where
  "breakBeforeToolCall maxConcurrentBreakpoints generateId config m toolCall state =
     (if \<not> bp_enabled config then skipped m
      else case bp_global_beforeToolCall config of
             None \<Rightarrow> skipped m
           | Some hook \<Rightarrow>
               enqueueBreakpoint maxConcurrentBreakpoints
                 (lock_key ''global-before-tool'' generateId (tc_name toolCall) toolCall)
                 (Break GlobalBefore toolCall None, hook toolCall state) m)"

definition breakAfterToolCall ::
  "nat \<Rightarrow> (string \<Rightarrow> string) \<Rightarrow> 'a BreakpointConfig \<Rightarrow> BreakpointManager
   \<Rightarrow> InterceptorOutput \<Rightarrow> 'a ToolCall \<Rightarrow> 'a AgentState \<Rightarrow> (unit, 'a) task \<times> BreakpointManager" where
  "breakAfterToolCall maxConcurrentBreakpoints generateId config m result toolCall state =
     (if \<not> bp_enabled config then skipped m
      else case bp_global_afterToolCall config of
             None \<Rightarrow> skipped m
           | Some hook \<Rightarrow>
               enqueueBreakpoint maxConcurrentBreakpoints
                 (lock_key ''global-after-tool'' generateId (tc_name toolCall) toolCall)
                 (Break GlobalAfter toolCall (Some result), hook result toolCall state) m)"

definition name_or_unknown :: "'a ToolCall \<Rightarrow> string" where
  \<comment> \<open>\<^verbatim>\<open>String(toolCall.name || 'unknown')\<close>\<close>
  "name_or_unknown toolCall = (if tc_name toolCall = [] then ''unknown'' else tc_name toolCall)"

definition breakBeforeSpecificToolCall ::
  "nat \<Rightarrow> (string \<Rightarrow> string) \<Rightarrow> 'a BreakpointConfig \<Rightarrow> BreakpointManager
   \<Rightarrow> 'a ToolCall \<Rightarrow> 'a AgentState \<Rightarrow> (unit, 'a) task \<times> BreakpointManager" where
  "breakBeforeSpecificToolCall maxConcurrentBreakpoints generateId config m toolCall state =
     (if \<not> bp_enabled config \<or> bp_toolSpecific config = [] then skipped m
      else case map_of (bp_toolSpecific config) (name_or_unknown toolCall) of
             None \<Rightarrow> skipped m
           | Some toolBreakpoint \<Rightarrow>
               (case bp_beforeToolCall toolBreakpoint of
                  None \<Rightarrow> skipped m
                | Some hook \<Rightarrow>
                    enqueueBreakpoint maxConcurrentBreakpoints
                      (lock_key ''specific-before-tool'' generateId (name_or_unknown toolCall) toolCall)
                      (Break SpecificBefore toolCall None, hook toolCall state) m))"

definition breakAfterSpecificToolCall ::
  "nat \<Rightarrow> (string \<Rightarrow> string) \<Rightarrow> 'a BreakpointConfig \<Rightarrow> BreakpointManager
   \<Rightarrow> InterceptorOutput \<Rightarrow> 'a ToolCall \<Rightarrow> 'a AgentState \<Rightarrow> (unit, 'a) task \<times> BreakpointManager" where
  "breakAfterSpecificToolCall maxConcurrentBreakpoints generateId config m result toolCall state =
     (if \<not> bp_enabled config \<or> bp_toolSpecific config = [] then skipped m
      else case map_of (bp_toolSpecific config) (name_or_unknown toolCall) of
             None \<Rightarrow> skipped m
           | Some toolBreakpoint \<Rightarrow>
               (case bp_afterToolCall toolBreakpoint of
                  None \<Rightarrow> skipped m
                | Some hook \<Rightarrow>
                    enqueueBreakpoint maxConcurrentBreakpoints
                      (lock_key ''specific-after-tool'' generateId (name_or_unknown toolCall) toolCall)
                      (Break SpecificAfter toolCall (Some result), hook result toolCall state) m))"

text \<open>A breakpoint hook call that hangs, and a manager whose two slots are taken, for examples.\<close>

definition hanging_hook :: "string event \<times> hook_outcome" where
  "hanging_hook =
     (Break GlobalBefore \<lparr>tc_id = Some ''c3'', tc_name = ''calculator'', tc_args = ''2+2''\<rparr> None,
      Pending)"

definition two_running :: BreakpointManager where
  "two_running = \<lparr>executionQueue = [''k1'', ''k2''], concurrentBreakpoints = [''k1'', ''k2'']\<rparr>"

section \<open>Interceptor Pipeline (agent/interceptor-manager.ts)\<close>

text \<open>
  \<^verbatim>\<open>InterceptorConfig\<close>. An interceptor hook returns a value or throws. The fields of the
  nested objects \<^verbatim>\<open>core\<close> and \<^verbatim>\<open>global\<close> are flattened, \<^verbatim>\<open>toolSpecific\<close> is the list
  of the entries of the \<^verbatim>\<open>Map\<close>, and the flags the constructor computes are read off the
  configuration.
\<close>

record 'a tool_interceptors =
  ic_beforeToolCall :: "('a ToolCall \<Rightarrow> 'a AgentState \<Rightarrow> js_error + 'a InterceptorResult) option"
  ic_afterToolCall ::
    "(InterceptorOutput \<Rightarrow> 'a ToolCall \<Rightarrow> 'a AgentState \<Rightarrow> js_error + InterceptorOutput) option"

record 'a InterceptorConfig =
  ic_enabled :: bool
  core_beforeModelInvoke ::
    "('a BaseMessage list \<Rightarrow> 'a AgentState \<Rightarrow> js_error + 'a BaseMessage list) option"
  core_afterAgentComplete :: "('a AgentState \<Rightarrow> js_error + 'a AgentState) option"
  global_beforeToolCall :: "('a ToolCall \<Rightarrow> 'a AgentState \<Rightarrow> js_error + 'a InterceptorResult) option"
  global_afterToolCall ::
    "(InterceptorOutput \<Rightarrow> 'a ToolCall \<Rightarrow> 'a AgentState \<Rightarrow> js_error + InterceptorOutput) option"
  ic_toolSpecific :: "(string \<times> 'a tool_interceptors) list"

text \<open>
  \<^verbatim>\<open>acquireLock\<close> waits for an earlier task with the same key and for a free slot (for at
  most 5000 ms, after which it goes on regardless) and then runs the task through
  \<^verbatim>\<open>executeWithLock\<close>, which re-throws what the task throws. The waiting changes when the
  task runs, not what it returns; the model keeps the outcome and the trace.
\<close>

definition executeWithLock :: "('r, 'a) task \<Rightarrow> ('r, 'a) task" where
  "executeWithLock task = try_catch task (\<lambda>error. (Inl error, []))"

definition acquireLock :: "string \<Rightarrow> ('r, 'a) task \<Rightarrow> ('r, 'a) task" where
  "acquireLock key task = executeWithLock task"

text \<open>
  \<^verbatim>\<open>errorHandler.wrapAsync(fn, context)\<close>: a failure of \<open>fn\<close> goes through
  \<^verbatim>\<open>handleError\<close> (the event \<open>Classified\<close>), and the typed error it returns is thrown.
\<close>

definition wrapAsync :: "int \<Rightarrow> ('r, 'a) task \<Rightarrow> ErrorContext \<Rightarrow> ('r, 'a) task" where
  "wrapAsync now fn context =
     try_catch fn
       (\<lambda>error. (Inl (ReAgent (classify now error context)), [Classified error context]))"

definition interceptBeforeModelInvoke ::
  "int \<Rightarrow> (string \<Rightarrow> string) \<Rightarrow> 'a InterceptorConfig \<Rightarrow> 'a BaseMessage list \<Rightarrow> 'a AgentState
   \<Rightarrow> ('a BaseMessage list, 'a) task" where
  "interceptBeforeModelInvoke now generateId config msgs state =
     (if \<not> ic_enabled config then (Inr msgs, [])
      else case core_beforeModelInvoke config of
             None \<Rightarrow> (Inr msgs, [])
           | Some hook \<Rightarrow>
               acquireLock (generateId ''core-before-model'')
                 (try_catch
                    (wrapAsync now (called (CoreIntercept BeforeModelInvoke) (hook msgs state))
                       [''component'' \<mapsto> Text ''InterceptorManager'',
                        ''operation'' \<mapsto> Text ''beforeModelInvoke''])
                    (\<lambda>error. (Inr msgs, [Log Err (CoreInterceptorFailed BeforeModelInvoke error)]))))"

definition interceptAfterAgentComplete ::
  "(string \<Rightarrow> string) \<Rightarrow> 'a InterceptorConfig \<Rightarrow> 'a AgentState \<Rightarrow> ('a AgentState, 'a) task" where
  "interceptAfterAgentComplete generateId config finalState =
     (if \<not> ic_enabled config then (Inr finalState, [])
      else case core_afterAgentComplete config of
             None \<Rightarrow> (Inr finalState, [])
           | Some hook \<Rightarrow>
               acquireLock (generateId ''core-after-complete'')
                 (try_catch (called (CoreIntercept AfterAgentComplete) (hook finalState))
                    (\<lambda>error. (Inr finalState,
                                [Log Err (CoreInterceptorFailed AfterAgentComplete error)]))))"

definition interceptBeforeToolCall ::
  "(string \<Rightarrow> string) \<Rightarrow> 'a InterceptorConfig \<Rightarrow> 'a ToolCall \<Rightarrow> 'a AgentState
   \<Rightarrow> ('a InterceptorResult, 'a) task" where
  "interceptBeforeToolCall generateId config toolCall state =
     (if \<not> ic_enabled config then (Inr (NormalResult toolCall), [])
      else case global_beforeToolCall config of
             None \<Rightarrow> (Inr (NormalResult toolCall), [])
           | Some hook \<Rightarrow>
               acquireLock (lock_key ''global-before-tool'' generateId (tc_name toolCall) toolCall)
                 (try_catch (called (Intercept GlobalBefore toolCall None) (hook toolCall state))
                    (\<lambda>error. (Inr (NormalResult toolCall),
                                [Log Err (InterceptorFailed GlobalBefore error)]))))"

definition interceptAfterToolCall ::
  "(string \<Rightarrow> string) \<Rightarrow> 'a InterceptorConfig \<Rightarrow> InterceptorOutput \<Rightarrow> 'a ToolCall \<Rightarrow> 'a AgentState
   \<Rightarrow> (InterceptorOutput, 'a) task" where
  "interceptAfterToolCall generateId config result toolCall state =
     (if \<not> ic_enabled config then (Inr result, [])
      else case global_afterToolCall config of
             None \<Rightarrow> (Inr result, [])
           | Some hook \<Rightarrow>
               acquireLock (lock_key ''global-after-tool'' generateId (tc_name toolCall) toolCall)
                 (try_catch
                    (called (Intercept GlobalAfter toolCall (Some result)) (hook result toolCall state))
                    (\<lambda>error. (Inr result, [Log Err (InterceptorFailed GlobalAfter error)]))))"

definition interceptSpecificToolCall ::
  "(string \<Rightarrow> string) \<Rightarrow> 'a InterceptorConfig \<Rightarrow> 'a ToolCall \<Rightarrow> 'a AgentState
   \<Rightarrow> ('a InterceptorResult, 'a) task" where
  "interceptSpecificToolCall generateId config toolCall state =
     (if \<not> ic_enabled config \<or> ic_toolSpecific config = [] then (Inr (NormalResult toolCall), [])
      else case map_of (ic_toolSpecific config) (tc_name toolCall) of
             None \<Rightarrow> (Inr (NormalResult toolCall), [])
           | Some toolInterceptor \<Rightarrow>
               (case ic_beforeToolCall toolInterceptor of
                  None \<Rightarrow> (Inr (NormalResult toolCall), [])
                | Some hook \<Rightarrow>
                    acquireLock
                      (lock_key ''specific-before-tool'' generateId (tc_name toolCall) toolCall)
                      (try_catch
                         (called (Intercept SpecificBefore toolCall None) (hook toolCall state))
                         (\<lambda>error. (Inr (NormalResult toolCall),
                                     [Log Err (InterceptorFailed SpecificBefore error)])))))"

definition interceptSpecificToolResult ::
  "(string \<Rightarrow> string) \<Rightarrow> 'a InterceptorConfig \<Rightarrow> InterceptorOutput \<Rightarrow> 'a ToolCall \<Rightarrow> 'a AgentState
   \<Rightarrow> (InterceptorOutput, 'a) task" where
  "interceptSpecificToolResult generateId config result toolCall state =
     (if \<not> ic_enabled config \<or> ic_toolSpecific config = [] then (Inr result, [])
      else case map_of (ic_toolSpecific config) (tc_name toolCall) of
             None \<Rightarrow> (Inr result, [])
           | Some toolInterceptor \<Rightarrow>
               (case ic_afterToolCall toolInterceptor of
                  None \<Rightarrow> (Inr result, [])
                | Some hook \<Rightarrow>
                    acquireLock
                      (lock_key ''specific-after-tool'' generateId (tc_name toolCall) toolCall)
                      (try_catch
                         (called (Intercept SpecificAfter toolCall (Some result))
                            (hook result toolCall state))
                         (\<lambda>error. (Inr result,
                                     [Log Err (InterceptorFailed SpecificAfter error)])))))"

subsection \<open>A concrete call and a configuration whose hooks throw\<close>

definition calculator_call :: "string ToolCall" where
  "calculator_call = \<lparr>tc_id = Some ''c1'', tc_name = ''calculator'', tc_args = ''2 + 2''\<rparr>"

definition asking_state :: "string AgentState" where
  "asking_state =
     \<lparr>messages = [HumanMessage ''Calculate 2 + 2'', AIMessage [] [calculator_call]]\<rparr>"

definition throwing_interceptors :: "string InterceptorConfig" where
  "throwing_interceptors =
     \<lparr>ic_enabled = True,
      core_beforeModelInvoke = Some (\<lambda>msgs state. Inl boom),
      core_afterAgentComplete = Some (\<lambda>state. Inl boom),
      global_beforeToolCall = Some (\<lambda>toolCall state. Inl boom),
      global_afterToolCall = Some (\<lambda>result toolCall state. Inl boom),
      ic_toolSpecific = []\<rparr>"

definition no_ids :: "string \<Rightarrow> string" where
  "no_ids prefix = prefix @ ''-1-0''"

section \<open>Tool Execution Engine (\<^verbatim>\<open>ReAgentBuilder.executeTools\<close>)\<close>

text \<open>
  What \<^verbatim>\<open>executeTools\<close> reads of its agent: the registry, the two hook configurations, the
  limit of the breakpoint manager and the id generator. The timers and counters the engine
  feeds to the telemetry recorder are not part of the model.
\<close>

record 'a agent =
  agent_toolMap :: "'a toolMap"
  agent_interceptors :: "'a InterceptorConfig"
  agent_breakpoints :: "'a BreakpointConfig"
  agent_maxConcurrentBreakpoints :: nat
  agent_generateId :: "string \<Rightarrow> string"

text \<open>
  The tasks of a batch interleave, so the state in which a task finds the shared breakpoint
  manager at one of its four breakpoint stages depends on the other tasks. The model takes it
  as a parameter \<open>env\<close>, and what is proved holds for every \<open>env\<close>. A breakpoint call is
  wrapped in its own \<^verbatim>\<open>try/catch\<close>, which logs a warning.
\<close>

definition guarded :: "stage \<Rightarrow> (unit, 'a) task \<times> BreakpointManager \<Rightarrow> (unit, 'a) task" where
  "guarded st breakpoint =
     try_catch (fst breakpoint) (\<lambda>error. (Inr (), [Log Warn (BreakpointStageFailed st error)]))"

text \<open>
  The body of the \<^verbatim>\<open>try\<close> of one task, in three parts. First the stages before the tool:
  global interceptor, global breakpoint, tool-specific interceptor (on the modified input, and
  only when the global result is no short circuit), tool-specific breakpoint. The hooks of
  this section are functions of the values they are given, so what is passed on as
  \<^verbatim>\<open>toolCall\<close> is the value the model issued: this is the pipeline for hooks and tools
  that assign to no call object. The pipeline for hooks that may assign in place is the subject
  of the section on the store of call objects, where this one is shown to be its restriction to
  hooks that work by value.
\<close>

definition before_stages ::
  "'a agent \<Rightarrow> (stage \<Rightarrow> BreakpointManager) \<Rightarrow> 'a ToolCall \<Rightarrow> 'a AgentState
   \<Rightarrow> ('a InterceptorResult, 'a) task" where
  "before_stages A env toolCall state =
     and_then (interceptBeforeToolCall (agent_generateId A) (agent_interceptors A) toolCall state)
       (\<lambda>globalInterceptResult.
     and_then (guarded GlobalBefore
                 (breakBeforeToolCall (agent_maxConcurrentBreakpoints A) (agent_generateId A)
                    (agent_breakpoints A) (env GlobalBefore) toolCall state))
       (\<lambda>_.
     and_then (case globalInterceptResult of
                 ShortCircuitResult r \<Rightarrow> (Inr globalInterceptResult, [])
               | NormalResult modifiedInput \<Rightarrow>
                   interceptSpecificToolCall (agent_generateId A) (agent_interceptors A)
                     modifiedInput state)
       (\<lambda>finalInterceptResult.
     and_then (guarded SpecificBefore
                 (breakBeforeSpecificToolCall (agent_maxConcurrentBreakpoints A) (agent_generateId A)
                    (agent_breakpoints A) (env SpecificBefore) toolCall state))
       (\<lambda>_. (Inr finalInterceptResult, [])))))"

text \<open>
  Then the result: the short circuit's own, or that of the registered tool, looked up under the
  name of the original call and invoked with the arguments of the modified one. A name that the
  registry has lost in the meantime makes \<^verbatim>\<open>tool.invoke\<close> a TypeError.
\<close>

definition undefined_invoke_TypeError :: js_error where
  "undefined_invoke_TypeError =
     Error ''TypeError'' ''Cannot read properties of undefined (reading 'invoke')''"

definition resolve_result ::
  "'a agent \<Rightarrow> 'a ToolCall \<Rightarrow> 'a InterceptorResult \<Rightarrow> (InterceptorOutput, 'a) task" where
  "resolve_result A toolCall finalInterceptResult =
     (case finalInterceptResult of
        ShortCircuitResult result \<Rightarrow> (Inr result, [])
      | NormalResult modifiedToolCall \<Rightarrow>
          (case agent_toolMap A (tc_name toolCall) of
             None \<Rightarrow> (Inl undefined_invoke_TypeError, [])
           | Some tool \<Rightarrow>
               called (Invoke (tc_name toolCall) (tc_args modifiedToolCall))
                 (invoke tool (tc_args modifiedToolCall))))"

definition resolved_result ::
  "'a agent \<Rightarrow> (stage \<Rightarrow> BreakpointManager) \<Rightarrow> 'a ToolCall \<Rightarrow> 'a AgentState
   \<Rightarrow> (InterceptorOutput, 'a) task" where
  "resolved_result A env toolCall state =
     and_then (before_stages A env toolCall state) (resolve_result A toolCall)"

text \<open>Last the stages after the tool, all of them given the original call.\<close>

definition after_stages ::
  "'a agent \<Rightarrow> (stage \<Rightarrow> BreakpointManager) \<Rightarrow> 'a ToolCall \<Rightarrow> 'a AgentState
   \<Rightarrow> InterceptorOutput \<Rightarrow> (InterceptorOutput, 'a) task" where
  "after_stages A env toolCall state result =
     and_then (interceptSpecificToolResult (agent_generateId A) (agent_interceptors A)
                 result toolCall state)
       (\<lambda>specificProcessedResult.
     and_then (guarded SpecificAfter
                 (breakAfterSpecificToolCall (agent_maxConcurrentBreakpoints A) (agent_generateId A)
                    (agent_breakpoints A) (env SpecificAfter) specificProcessedResult toolCall state))
       (\<lambda>_.
     and_then (interceptAfterToolCall (agent_generateId A) (agent_interceptors A)
                 specificProcessedResult toolCall state)
       (\<lambda>finalResult.
     and_then (guarded GlobalAfter
                 (breakAfterToolCall (agent_maxConcurrentBreakpoints A) (agent_generateId A)
                    (agent_breakpoints A) (env GlobalAfter) finalResult toolCall state))
       (\<lambda>_. (Inr finalResult, [])))))"

definition task_body ::
  "'a agent \<Rightarrow> (stage \<Rightarrow> BreakpointManager) \<Rightarrow> 'a ToolCall \<Rightarrow> 'a AgentState
   \<Rightarrow> (InterceptorOutput, 'a) task" where
  "task_body A env toolCall state =
     and_then (resolved_result A env toolCall state) (after_stages A env toolCall state)"

text \<open>
  One task of \<^verbatim>\<open>toolExecutionTasks\<close>: the body, and the \<^verbatim>\<open>catch\<close> that turns what the
  body throws into an error message. For the thrown values of the model, an \<^verbatim>\<open>Error\<close> or a
  \<^verbatim>\<open>ReAgentError\<close>, the \<^verbatim>\<open>catch\<close> runs to its end and the task fulfils. In the source a
  task rejects only if the \<^verbatim>\<open>catch\<close> itself throws, after the body has thrown; the branch
  of \<^verbatim>\<open>executeTools\<close> for a rejected task, which counts the call as failed whatever its
  message, is not part of the model.
\<close>

definition toolExecutionTask ::
  "'a agent \<Rightarrow> (stage \<Rightarrow> BreakpointManager) \<Rightarrow> 'a AgentState \<Rightarrow> nat \<Rightarrow> 'a ToolCall
   \<Rightarrow> ToolMessage \<times> 'a event list" where
  "toolExecutionTask A env state index toolCall =
     (let executionId = id_or (tc_id toolCall) (agent_generateId A (''exec-'' @ string_of_nat index));
          body = task_body A env toolCall state
      in case fst body of
           Inr finalResult \<Rightarrow>
             (\<lparr>content = String finalResult, tool_call_id = executionId\<rparr>, snd body)
         | Inl error \<Rightarrow>
             let errorMessage =
                   ''Error executing tool '' @ tc_name toolCall @ '': '' @ error_message error
             in (\<lparr>content = errorMessage, tool_call_id = executionId\<rparr>,
                 snd body @ [Log Err (ToolFailed executionId errorMessage)]))"

text \<open>
  \<^verbatim>\<open>executeTools(state)\<close>. Reading \<^verbatim>\<open>tool_calls\<close> of the last message of an empty state is
  a TypeError; a last message that is no AI message has no tool calls. The result is the list of
  tool messages, the trace of each task next to its call (across tasks the order of events is
  not determined), and the engine's own log lines.
\<close>

record 'a tools_run =
  tool_messages :: "ToolMessage list"
  task_traces :: "('a ToolCall \<times> 'a event list) list"
  engine_trace :: "'a event list"

definition undefined_tool_calls_TypeError :: js_error where
  "undefined_tool_calls_TypeError =
     Error ''TypeError'' ''Cannot read properties of undefined (reading 'tool_calls')''"

fun tool_calls_of :: "'a BaseMessage \<Rightarrow> 'a ToolCall list" where
  "tool_calls_of (AIMessage text toolCalls) = toolCalls"
| "tool_calls_of other = []"

definition unknown_tool_message :: "'a agent \<Rightarrow> nat \<times> 'a ToolCall \<Rightarrow> ToolMessage" where
  "unknown_tool_message A indexed =
     \<lparr>content = ''Unknown tool: '' @ tc_name (snd indexed),
      tool_call_id = id_or (tc_id (snd indexed))
                       (agent_generateId A (''invalid-'' @ string_of_nat (fst indexed)))\<rparr>"

definition executeTools ::
  "'a agent \<Rightarrow> (nat \<Rightarrow> stage \<Rightarrow> BreakpointManager) \<Rightarrow> 'a AgentState \<Rightarrow> js_error + 'a tools_run" where
  "executeTools A env state =
     (if messages state = [] then Inl undefined_tool_calls_TypeError
      else
        let toolCalls = tool_calls_of (last (messages state))
        in if toolCalls = []
           then Inr \<lparr>tool_messages = [], task_traces = [], engine_trace = []\<rparr>
           else
             let validToolCalls = filter (\<lambda>toolCall. agent_toolMap A (tc_name toolCall) \<noteq> None) toolCalls;
                 invalidToolCalls = filter (\<lambda>toolCall. agent_toolMap A (tc_name toolCall) = None) toolCalls;
                 invalidWarning =
                   (if length invalidToolCalls > 0
                    then [Log Warn (InvalidToolCalls (length invalidToolCalls)
                                      (map tc_name invalidToolCalls))]
                    else []);
                 allToolMessages = map (unknown_tool_message A) (enumerate 0 invalidToolCalls)
             in if length validToolCalls = 0
                then Inr \<lparr>tool_messages = allToolMessages, task_traces = [],
                          engine_trace = invalidWarning\<rparr>
                else
                  let executionResults =
                        map (\<lambda>(index, toolCall). toolExecutionTask A (env index) state index toolCall)
                          (enumerate 0 validToolCalls);
                      toolMessages = allToolMessages @ map fst executionResults;
                      errorMessages =
                        filter (\<lambda>msg. startsWith (content msg) ''Unknown tool:'') allToolMessages
                        @ filter (\<lambda>msg. startsWith (content msg) ''Error executing tool'')
                            (map fst executionResults);
                      totalTools = length toolCalls;
                      systemicWarning =
                        (if length errorMessages > totalTools div 2
                         then [Log Warn (TooManyToolErrors (length errorMessages) totalTools)]
                         else [])
                  in Inr \<lparr>tool_messages = toolMessages,
                          task_traces = zip validToolCalls (map snd executionResults),
                          engine_trace = invalidWarning @ systemicWarning\<rparr>)"

subsection \<open>Concrete agents\<close>

text \<open>
  An agent with one tool, \<open>calculator\<close>, whose global interceptor rewrites the arguments of
  every call, whose interceptor for \<open>calculator\<close> appends to them, and whose four breakpoint hooks
  all resolve; an agent whose global interceptor short-circuits every call; an agent whose
  interceptor for \<open>calculator\<close> short-circuits; and an idle breakpoint manager at every stage.
\<close>

definition watching :: "string BreakpointConfig" where
  "watching =
     \<lparr>bp_enabled = True,
      bp_global_beforeToolCall = Some (\<lambda>toolCall state. Resolves),
      bp_global_afterToolCall = Some (\<lambda>result toolCall state. Resolves),
      bp_toolSpecific =
        [(''calculator'',
          \<lparr>bp_beforeToolCall = Some (\<lambda>toolCall state. Resolves),
           bp_afterToolCall = Some (\<lambda>result toolCall state. Resolves)\<rparr>)]\<rparr>"

definition appending :: "string tool_interceptors" where
  "appending =
     \<lparr>ic_beforeToolCall =
        Some (\<lambda>toolCall state. Inr (NormalResult (toolCall\<lparr>tc_args := tc_args toolCall @ '' + 1''\<rparr>))),
      ic_afterToolCall = None\<rparr>"


definition short_circuit_agent :: "string agent" where
  "short_circuit_agent =
     \<lparr>agent_toolMap = [''calculator'' \<mapsto> echo_tool ''calculator''],
      agent_interceptors =
        \<lparr>ic_enabled = True, core_beforeModelInvoke = None, core_afterAgentComplete = None,
         global_beforeToolCall = Some (\<lambda>toolCall state. Inr (ShortCircuitResult (Str ''cached''))),
         global_afterToolCall = None,
         ic_toolSpecific = [(''calculator'', appending)]\<rparr>,
      agent_breakpoints = watching,
      agent_maxConcurrentBreakpoints = 5,
      agent_generateId = no_ids\<rparr>"


definition idle :: "stage \<Rightarrow> BreakpointManager" where
  "idle st = new_BreakpointManager"



subsection \<open>Notions used to state the properties of a batch\<close>

text \<open>
  The spec's count of error results in a batch: the calls whose tool is unknown, and the known
  calls whose task failed, that is, whose body threw. \<open>index\<close> is the position of a call among
  the known calls, as the source's \<^verbatim>\<open>map(async (toolCall, index) => ...)\<close> has it. A task
  \<open>reads_as_failure\<close> when its body returned normally a result whose text begins like the
  engine's own error message.
\<close>

definition unknown_calls :: "'a agent \<Rightarrow> 'a ToolCall list \<Rightarrow> 'a ToolCall list" where
  "unknown_calls A toolCalls = filter (\<lambda>toolCall. agent_toolMap A (tc_name toolCall) = None) toolCalls"

definition known_calls :: "'a agent \<Rightarrow> 'a ToolCall list \<Rightarrow> 'a ToolCall list" where
  "known_calls A toolCalls = filter (\<lambda>toolCall. agent_toolMap A (tc_name toolCall) \<noteq> None) toolCalls"

definition task_failed ::
  "'a agent \<Rightarrow> (nat \<Rightarrow> stage \<Rightarrow> BreakpointManager) \<Rightarrow> 'a AgentState \<Rightarrow> nat \<times> 'a ToolCall \<Rightarrow> bool" where
  "task_failed A env state indexed =
     isl (fst (task_body A (env (fst indexed)) (snd indexed) state))"

definition reads_as_failure ::
  "'a agent \<Rightarrow> (nat \<Rightarrow> stage \<Rightarrow> BreakpointManager) \<Rightarrow> 'a AgentState \<Rightarrow> nat \<times> 'a ToolCall \<Rightarrow> bool" where
  "reads_as_failure A env state indexed =
     (case fst (task_body A (env (fst indexed)) (snd indexed) state) of
        Inl error \<Rightarrow> False
      | Inr finalResult \<Rightarrow> startsWith (String finalResult) ''Error executing tool'')"

definition error_results ::
  "'a agent \<Rightarrow> (nat \<Rightarrow> stage \<Rightarrow> BreakpointManager) \<Rightarrow> 'a AgentState \<Rightarrow> 'a ToolCall list \<Rightarrow> nat" where
  "error_results A env state toolCalls =
     length (unknown_calls A toolCalls)
     + length (filter (task_failed A env state) (enumerate 0 (known_calls A toolCalls)))"

text \<open>
  The pieces of the result of a batch that has a known call: the messages and the traces of the
  tasks, the warning about unknown tools, and the number of messages the engine counts as errors
  (\<^verbatim>\<open>errorMessages.length\<close>, found by the beginning of their text).
\<close>

definition task_messages ::
  "'a agent \<Rightarrow> (nat \<Rightarrow> stage \<Rightarrow> BreakpointManager) \<Rightarrow> 'a AgentState \<Rightarrow> 'a ToolCall list
   \<Rightarrow> ToolMessage list" where
  "task_messages A env state toolCalls =
     map (\<lambda>indexed. fst (toolExecutionTask A (env (fst indexed)) state (fst indexed) (snd indexed)))
       (enumerate 0 (known_calls A toolCalls))"

definition unknown_messages :: "'a agent \<Rightarrow> 'a ToolCall list \<Rightarrow> ToolMessage list" where
  "unknown_messages A toolCalls =
     map (unknown_tool_message A) (enumerate 0 (unknown_calls A toolCalls))"

definition invalid_warning :: "'a agent \<Rightarrow> 'a ToolCall list \<Rightarrow> 'a event list" where
  "invalid_warning A toolCalls =
     (if unknown_calls A toolCalls = [] then []
      else [Log Warn (InvalidToolCalls (length (unknown_calls A toolCalls))
              (map tc_name (unknown_calls A toolCalls)))])"

definition counted_errors ::
  "'a agent \<Rightarrow> (nat \<Rightarrow> stage \<Rightarrow> BreakpointManager) \<Rightarrow> 'a AgentState \<Rightarrow> 'a ToolCall list \<Rightarrow> nat" where
  "counted_errors A env state toolCalls =
     length (filter (\<lambda>msg. startsWith (content msg) ''Unknown tool:'') (unknown_messages A toolCalls))
     + length (filter (\<lambda>msg. startsWith (content msg) ''Error executing tool'')
         (task_messages A env state toolCalls))"

fun is_systemic_warning :: "'a event \<Rightarrow> bool" where
  "is_systemic_warning (Log Warn (TooManyToolErrors k n)) = True"
| "is_systemic_warning other = False"

text \<open>
  Batches: a call to a tool nobody registered, and that call next to the \<open>calculator\<close> call.
  Agents without hooks: one whose \<open>calculator\<close> answers, one whose \<open>calculator\<close> throws, and one
  whose \<open>calculator\<close> returns a text that begins like the engine's error message.
\<close>

definition ghost_call :: "string ToolCall" where
  "ghost_call = \<lparr>tc_id = Some ''g1'', tc_name = ''ghost'', tc_args = ''boo''\<rparr>"

definition ghost_state :: "string AgentState" where
  "ghost_state = \<lparr>messages = [HumanMessage ''Call the ghost'', AIMessage [] [ghost_call]]\<rparr>"

definition mixed_state :: "string AgentState" where
  "mixed_state =
     \<lparr>messages = [HumanMessage ''Call both'', AIMessage [] [ghost_call, calculator_call]]\<rparr>"

definition plain_agent :: "string agent" where
  "plain_agent =
     \<lparr>agent_toolMap = [''calculator'' \<mapsto> echo_tool ''calculator''],
      agent_interceptors =
        \<lparr>ic_enabled = False, core_beforeModelInvoke = None, core_afterAgentComplete = None,
         global_beforeToolCall = None, global_afterToolCall = None, ic_toolSpecific = []\<rparr>,
      agent_breakpoints =
        \<lparr>bp_enabled = False, bp_global_beforeToolCall = None, bp_global_afterToolCall = None,
         bp_toolSpecific = []\<rparr>,
      agent_maxConcurrentBreakpoints = 5,
      agent_generateId = no_ids\<rparr>"

definition failing_agent :: "string agent" where
  "failing_agent =
     plain_agent\<lparr>agent_toolMap :=
       [''calculator'' \<mapsto> \<lparr>tool_name = Some ''calculator'', invoke = (\<lambda>args. Inl boom)\<rparr>]\<rparr>"

definition mimicking_agent :: "string agent" where
  "mimicking_agent =
     plain_agent\<lparr>agent_toolMap :=
       [''calculator'' \<mapsto>
          \<lparr>tool_name = Some ''calculator'',
           invoke = (\<lambda>args. Inr (Str ''Error executing tool is what the manual says''))\<rparr>]\<rparr>"

definition all_idle :: "nat \<Rightarrow> stage \<Rightarrow> BreakpointManager" where
  "all_idle index = idle"

section \<open>The pipeline of one tool call over a store of call objects\<close>

text \<open>
  In the source a \<^verbatim>\<open>ToolCall\<close> is an object and is passed by reference. The one object
  \<^verbatim>\<open>toolCall\<close> that the model issued goes to the global interceptor before the call, to all
  four breakpoints, to both interceptors after the call and to \<^verbatim>\<open>toolMap.get(toolCall.name)\<close>;
  \<^verbatim>\<open>modifiedInput\<close> is a reference as well, to that object or to another one. Nothing is
  frozen or copied, so a hook or a tool may assign to the fields of any object it can reach, and
  whoever is handed the object later reads what was assigned.

  The hooks of the sections above are functions of the values they are given: they are the hooks
  that assign to nothing. Here the call objects live in a store, from addresses to contents, a
  reference is an address, and a hook or a tool is any function that, run on a store, gives its
  outcome and the store it leaves (what it has assigned by the time the caller goes on). The
  manager functions and the body of a task are those of the source again, now reading the
  contents of an object at the moment they use it.
\<close>

type_synonym 'a store = "nat \<Rightarrow> 'a ToolCall"

text \<open>
  \<^verbatim>\<open>InterceptorResult\<close> with \<^verbatim>\<open>modifiedInput\<close> as a reference.
\<close>

datatype ref_InterceptorResult = ShortCircuitRef InterceptorOutput | NormalRef nat

record 'a ref_tool_interceptors =
  ref_ic_beforeToolCall ::
    "(nat \<Rightarrow> 'a AgentState \<Rightarrow> 'a store \<Rightarrow> (js_error + ref_InterceptorResult) \<times> 'a store) option"
  ref_ic_afterToolCall ::
    "(InterceptorOutput \<Rightarrow> nat \<Rightarrow> 'a AgentState \<Rightarrow> 'a store
      \<Rightarrow> (js_error + InterceptorOutput) \<times> 'a store) option"

record 'a ref_InterceptorConfig =
  ref_ic_enabled :: bool
  ref_global_beforeToolCall ::
    "(nat \<Rightarrow> 'a AgentState \<Rightarrow> 'a store \<Rightarrow> (js_error + ref_InterceptorResult) \<times> 'a store) option"
  ref_global_afterToolCall ::
    "(InterceptorOutput \<Rightarrow> nat \<Rightarrow> 'a AgentState \<Rightarrow> 'a store
      \<Rightarrow> (js_error + InterceptorOutput) \<times> 'a store) option"
  ref_ic_toolSpecific :: "(string \<times> 'a ref_tool_interceptors) list"

record 'a ref_tool_breakpoints =
  ref_bp_beforeToolCall :: "(nat \<Rightarrow> 'a AgentState \<Rightarrow> 'a store \<Rightarrow> hook_outcome \<times> 'a store) option"
  ref_bp_afterToolCall ::
    "(InterceptorOutput \<Rightarrow> nat \<Rightarrow> 'a AgentState \<Rightarrow> 'a store \<Rightarrow> hook_outcome \<times> 'a store) option"

record 'a ref_BreakpointConfig =
  ref_bp_enabled :: bool
  ref_bp_global_beforeToolCall ::
    "(nat \<Rightarrow> 'a AgentState \<Rightarrow> 'a store \<Rightarrow> hook_outcome \<times> 'a store) option"
  ref_bp_global_afterToolCall ::
    "(InterceptorOutput \<Rightarrow> nat \<Rightarrow> 'a AgentState \<Rightarrow> 'a store \<Rightarrow> hook_outcome \<times> 'a store) option"
  ref_bp_toolSpecific :: "(string \<times> 'a ref_tool_breakpoints) list"

text \<open>
  \<^verbatim>\<open>tool.invoke(modifiedToolCall.args)\<close>: the tool is given the arguments and may assign as
  well (the argument object may be shared with the call the model issued).
\<close>

record 'a ref_tool =
  ref_invoke :: "'a \<Rightarrow> 'a store \<Rightarrow> (js_error + InterceptorOutput) \<times> 'a store"

record 'a ref_agent =
  ref_toolMap :: "string \<rightharpoonup> 'a ref_tool"
  ref_interceptors :: "'a ref_InterceptorConfig"
  ref_breakpoints :: "'a ref_BreakpointConfig"
  ref_maxConcurrentBreakpoints :: nat
  ref_generateId :: "string \<Rightarrow> string"

subsection \<open>The interceptor manager\<close>

text \<open>
  The four functions of \<^verbatim>\<open>InterceptorManager\<close> around a tool call, as in the section on the
  interceptor pipeline. The lock key is built from the name and id the object has when the
  function is entered, the hook is run on the store as it is, and the \<^verbatim>\<open>catch\<close> returns
  the reference it was given.
\<close>

definition ref_interceptBeforeToolCall ::
  "(string \<Rightarrow> string) \<Rightarrow> 'a ref_InterceptorConfig \<Rightarrow> nat \<Rightarrow> 'a AgentState \<Rightarrow> 'a store
   \<Rightarrow> (ref_InterceptorResult, 'a) task \<times> 'a store" where
  "ref_interceptBeforeToolCall generateId config toolCall state h =
     (if \<not> ref_ic_enabled config then ((Inr (NormalRef toolCall), []), h)
      else case ref_global_beforeToolCall config of
             None \<Rightarrow> ((Inr (NormalRef toolCall), []), h)
           | Some hook \<Rightarrow>
               (acquireLock
                  (lock_key ''global-before-tool'' generateId (tc_name (h toolCall)) (h toolCall))
                  (try_catch
                     (called (Intercept GlobalBefore (h toolCall) None) (fst (hook toolCall state h)))
                     (\<lambda>error. (Inr (NormalRef toolCall),
                                 [Log Err (InterceptorFailed GlobalBefore error)]))),
                snd (hook toolCall state h)))"

definition ref_interceptAfterToolCall ::
  "(string \<Rightarrow> string) \<Rightarrow> 'a ref_InterceptorConfig \<Rightarrow> InterceptorOutput \<Rightarrow> nat \<Rightarrow> 'a AgentState
   \<Rightarrow> 'a store \<Rightarrow> (InterceptorOutput, 'a) task \<times> 'a store" where
  "ref_interceptAfterToolCall generateId config result toolCall state h =
     (if \<not> ref_ic_enabled config then ((Inr result, []), h)
      else case ref_global_afterToolCall config of
             None \<Rightarrow> ((Inr result, []), h)
           | Some hook \<Rightarrow>
               (acquireLock
                  (lock_key ''global-after-tool'' generateId (tc_name (h toolCall)) (h toolCall))
                  (try_catch
                     (called (Intercept GlobalAfter (h toolCall) (Some result))
                        (fst (hook result toolCall state h)))
                     (\<lambda>error. (Inr result, [Log Err (InterceptorFailed GlobalAfter error)]))),
                snd (hook result toolCall state h)))"

definition ref_interceptSpecificToolCall ::
  "(string \<Rightarrow> string) \<Rightarrow> 'a ref_InterceptorConfig \<Rightarrow> nat \<Rightarrow> 'a AgentState \<Rightarrow> 'a store
   \<Rightarrow> (ref_InterceptorResult, 'a) task \<times> 'a store" where
  "ref_interceptSpecificToolCall generateId config toolCall state h =
     (if \<not> ref_ic_enabled config \<or> ref_ic_toolSpecific config = []
      then ((Inr (NormalRef toolCall), []), h)
      else case map_of (ref_ic_toolSpecific config) (tc_name (h toolCall)) of
             None \<Rightarrow> ((Inr (NormalRef toolCall), []), h)
           | Some toolInterceptor \<Rightarrow>
               (case ref_ic_beforeToolCall toolInterceptor of
                  None \<Rightarrow> ((Inr (NormalRef toolCall), []), h)
                | Some hook \<Rightarrow>
                    (acquireLock
                       (lock_key ''specific-before-tool'' generateId (tc_name (h toolCall))
                          (h toolCall))
                       (try_catch
                          (called (Intercept SpecificBefore (h toolCall) None)
                             (fst (hook toolCall state h)))
                          (\<lambda>error. (Inr (NormalRef toolCall),
                                      [Log Err (InterceptorFailed SpecificBefore error)]))),
                     snd (hook toolCall state h))))"

definition ref_interceptSpecificToolResult ::
  "(string \<Rightarrow> string) \<Rightarrow> 'a ref_InterceptorConfig \<Rightarrow> InterceptorOutput \<Rightarrow> nat \<Rightarrow> 'a AgentState
   \<Rightarrow> 'a store \<Rightarrow> (InterceptorOutput, 'a) task \<times> 'a store" where
  "ref_interceptSpecificToolResult generateId config result toolCall state h =
     (if \<not> ref_ic_enabled config \<or> ref_ic_toolSpecific config = [] then ((Inr result, []), h)
      else case map_of (ref_ic_toolSpecific config) (tc_name (h toolCall)) of
             None \<Rightarrow> ((Inr result, []), h)
           | Some toolInterceptor \<Rightarrow>
               (case ref_ic_afterToolCall toolInterceptor of
                  None \<Rightarrow> ((Inr result, []), h)
                | Some hook \<Rightarrow>
                    (acquireLock
                       (lock_key ''specific-after-tool'' generateId (tc_name (h toolCall))
                          (h toolCall))
                       (try_catch
                          (called (Intercept SpecificAfter (h toolCall) (Some result))
                             (fst (hook result toolCall state h)))
                          (\<lambda>error. (Inr result,
                                      [Log Err (InterceptorFailed SpecificAfter error)]))),
                     snd (hook result toolCall state h))))"

subsection \<open>The breakpoint manager\<close>

text \<open>
  \<^verbatim>\<open>enqueueBreakpoint\<close> calls the hook only when it admits the key: below the limit and with
  the key not queued. A hook that is not called assigns nothing.
\<close>

definition admits :: "nat \<Rightarrow> string \<Rightarrow> BreakpointManager \<Rightarrow> bool" where
  "admits maxConcurrentBreakpoints key m =
     (\<not> length (concurrentBreakpoints m) \<ge> maxConcurrentBreakpoints
      \<and> key \<notin> set (executionQueue m))"

definition ref_enqueueBreakpoint ::
  "nat \<Rightarrow> string \<Rightarrow> 'a event \<Rightarrow> hook_outcome \<times> 'a store \<Rightarrow> BreakpointManager \<Rightarrow> 'a store
   \<Rightarrow> ((unit, 'a) task \<times> BreakpointManager) \<times> 'a store" where
  "ref_enqueueBreakpoint maxConcurrentBreakpoints key ev hook_run m h =
     (enqueueBreakpoint maxConcurrentBreakpoints key (ev, fst hook_run) m,
      if admits maxConcurrentBreakpoints key m then snd hook_run else h)"

definition ref_breakBeforeToolCall ::
  "nat \<Rightarrow> (string \<Rightarrow> string) \<Rightarrow> 'a ref_BreakpointConfig \<Rightarrow> BreakpointManager
   \<Rightarrow> nat \<Rightarrow> 'a AgentState \<Rightarrow> 'a store \<Rightarrow> ((unit, 'a) task \<times> BreakpointManager) \<times> 'a store" where
  "ref_breakBeforeToolCall maxConcurrentBreakpoints generateId config m toolCall state h =
     (if \<not> ref_bp_enabled config then (skipped m, h)
      else case ref_bp_global_beforeToolCall config of
             None \<Rightarrow> (skipped m, h)
           | Some hook \<Rightarrow>
               ref_enqueueBreakpoint maxConcurrentBreakpoints
                 (lock_key ''global-before-tool'' generateId (tc_name (h toolCall)) (h toolCall))
                 (Break GlobalBefore (h toolCall) None) (hook toolCall state h) m h)"

definition ref_breakAfterToolCall ::
  "nat \<Rightarrow> (string \<Rightarrow> string) \<Rightarrow> 'a ref_BreakpointConfig \<Rightarrow> BreakpointManager
   \<Rightarrow> InterceptorOutput \<Rightarrow> nat \<Rightarrow> 'a AgentState \<Rightarrow> 'a store
   \<Rightarrow> ((unit, 'a) task \<times> BreakpointManager) \<times> 'a store" where
  "ref_breakAfterToolCall maxConcurrentBreakpoints generateId config m result toolCall state h =
     (if \<not> ref_bp_enabled config then (skipped m, h)
      else case ref_bp_global_afterToolCall config of
             None \<Rightarrow> (skipped m, h)
           | Some hook \<Rightarrow>
               ref_enqueueBreakpoint maxConcurrentBreakpoints
                 (lock_key ''global-after-tool'' generateId (tc_name (h toolCall)) (h toolCall))
                 (Break GlobalAfter (h toolCall) (Some result)) (hook result toolCall state h) m h)"

definition ref_breakBeforeSpecificToolCall ::
  "nat \<Rightarrow> (string \<Rightarrow> string) \<Rightarrow> 'a ref_BreakpointConfig \<Rightarrow> BreakpointManager
   \<Rightarrow> nat \<Rightarrow> 'a AgentState \<Rightarrow> 'a store \<Rightarrow> ((unit, 'a) task \<times> BreakpointManager) \<times> 'a store" where
  "ref_breakBeforeSpecificToolCall maxConcurrentBreakpoints generateId config m toolCall state h =
     (if \<not> ref_bp_enabled config \<or> ref_bp_toolSpecific config = [] then (skipped m, h)
      else case map_of (ref_bp_toolSpecific config) (name_or_unknown (h toolCall)) of
             None \<Rightarrow> (skipped m, h)
           | Some toolBreakpoint \<Rightarrow>
               (case ref_bp_beforeToolCall toolBreakpoint of
                  None \<Rightarrow> (skipped m, h)
                | Some hook \<Rightarrow>
                    ref_enqueueBreakpoint maxConcurrentBreakpoints
                      (lock_key ''specific-before-tool'' generateId (name_or_unknown (h toolCall))
                         (h toolCall))
                      (Break SpecificBefore (h toolCall) None) (hook toolCall state h) m h))"

definition ref_breakAfterSpecificToolCall ::
  "nat \<Rightarrow> (string \<Rightarrow> string) \<Rightarrow> 'a ref_BreakpointConfig \<Rightarrow> BreakpointManager
   \<Rightarrow> InterceptorOutput \<Rightarrow> nat \<Rightarrow> 'a AgentState \<Rightarrow> 'a store
   \<Rightarrow> ((unit, 'a) task \<times> BreakpointManager) \<times> 'a store" where
  "ref_breakAfterSpecificToolCall maxConcurrentBreakpoints generateId config m result toolCall state h =
     (if \<not> ref_bp_enabled config \<or> ref_bp_toolSpecific config = [] then (skipped m, h)
      else case map_of (ref_bp_toolSpecific config) (name_or_unknown (h toolCall)) of
             None \<Rightarrow> (skipped m, h)
           | Some toolBreakpoint \<Rightarrow>
               (case ref_bp_afterToolCall toolBreakpoint of
                  None \<Rightarrow> (skipped m, h)
                | Some hook \<Rightarrow>
                    ref_enqueueBreakpoint maxConcurrentBreakpoints
                      (lock_key ''specific-after-tool'' generateId (name_or_unknown (h toolCall))
                         (h toolCall))
                      (Break SpecificAfter (h toolCall) (Some result))
                      (hook result toolCall state h) m h))"

subsection \<open>The body of a task\<close>

text \<open>
  A stage of the body runs on the store and leaves its outcome, its trace and the store. In the
  trace every event of a manager call is paired with the reference the engine passed to that
  call, and the event of the tool with the reference whose arguments it was given: the trace
  tells both which object a hook was handed and what the object held at that moment.
  \<open>then_do\<close> is sequencing by \<^verbatim>\<open>await\<close>, \<open>ref_guarded\<close> the \<^verbatim>\<open>try/catch\<close> around a
  breakpoint call.
\<close>

type_synonym ('r, 'a) staged = "'a store \<Rightarrow> ((js_error + 'r) \<times> (nat \<times> 'a event) list) \<times> 'a store"

definition outcome_of :: "('r, 'a) staged \<Rightarrow> 'a store \<Rightarrow> js_error + 'r" where
  "outcome_of stage h = fst (fst (stage h))"

definition events_of :: "('r, 'a) staged \<Rightarrow> 'a store \<Rightarrow> (nat \<times> 'a event) list" where
  "events_of stage h = snd (fst (stage h))"

definition store_after :: "('r, 'a) staged \<Rightarrow> 'a store \<Rightarrow> 'a store" where
  "store_after stage h = snd (stage h)"

definition passing :: "nat \<Rightarrow> ('a store \<Rightarrow> ('r, 'a) task \<times> 'a store) \<Rightarrow> ('r, 'a) staged" where
  "passing reference call h =
     ((fst (fst (call h)), map (Pair reference) (snd (fst (call h)))), snd (call h))"

definition returning :: "'r \<Rightarrow> ('r, 'a) staged" where
  "returning v h = ((Inr v, []), h)"

definition then_do :: "('r, 'a) staged \<Rightarrow> ('r \<Rightarrow> ('q, 'a) staged) \<Rightarrow> ('q, 'a) staged" where
  "then_do first rest h =
     (case outcome_of first h of
        Inl error \<Rightarrow> ((Inl error, events_of first h), store_after first h)
      | Inr v \<Rightarrow>
          ((outcome_of (rest v) (store_after first h),
            events_of first h @ events_of (rest v) (store_after first h)),
           store_after (rest v) (store_after first h)))"

definition ref_guarded ::
  "stage \<Rightarrow> ('a store \<Rightarrow> ((unit, 'a) task \<times> BreakpointManager) \<times> 'a store)
   \<Rightarrow> 'a store \<Rightarrow> (unit, 'a) task \<times> 'a store" where
  "ref_guarded st breakpoint h = (guarded st (fst (breakpoint h)), snd (breakpoint h))"

text \<open>
  The stages before the tool. The global interceptor and both breakpoints are passed
  \<^verbatim>\<open>toolCall\<close>, the tool-specific interceptor \<^verbatim>\<open>globalInterceptResult.modifiedInput\<close>.
\<close>

definition ref_before_stages ::
  "'a ref_agent \<Rightarrow> (stage \<Rightarrow> BreakpointManager) \<Rightarrow> nat \<Rightarrow> 'a AgentState
   \<Rightarrow> (ref_InterceptorResult, 'a) staged" where
  "ref_before_stages A env toolCall state =
     then_do (passing toolCall
                (ref_interceptBeforeToolCall (ref_generateId A) (ref_interceptors A) toolCall state))
       (\<lambda>globalInterceptResult.
     then_do (passing toolCall
                (ref_guarded GlobalBefore
                   (ref_breakBeforeToolCall (ref_maxConcurrentBreakpoints A) (ref_generateId A)
                      (ref_breakpoints A) (env GlobalBefore) toolCall state)))
       (\<lambda>_.
     then_do (case globalInterceptResult of
                ShortCircuitRef result \<Rightarrow> returning globalInterceptResult
              | NormalRef modifiedInput \<Rightarrow>
                  passing modifiedInput
                    (ref_interceptSpecificToolCall (ref_generateId A) (ref_interceptors A)
                       modifiedInput state))
       (\<lambda>finalInterceptResult.
     then_do (passing toolCall
                (ref_guarded SpecificBefore
                   (ref_breakBeforeSpecificToolCall (ref_maxConcurrentBreakpoints A)
                      (ref_generateId A) (ref_breakpoints A) (env SpecificBefore) toolCall state)))
       (\<lambda>_. returning finalInterceptResult))))"

text \<open>
  The result: the short circuit's own, or that of the tool registered under the name that
  \<^verbatim>\<open>toolCall\<close> has by now, invoked with the arguments that
  \<^verbatim>\<open>finalInterceptResult.modifiedInput\<close> has by now.
\<close>

definition ref_resolve_result ::
  "'a ref_agent \<Rightarrow> nat \<Rightarrow> ref_InterceptorResult \<Rightarrow> (InterceptorOutput, 'a) staged" where
  "ref_resolve_result A toolCall finalInterceptResult h =
     (case finalInterceptResult of
        ShortCircuitRef result \<Rightarrow> returning result h
      | NormalRef modifiedToolCall \<Rightarrow>
          (case ref_toolMap A (tc_name (h toolCall)) of
             None \<Rightarrow> ((Inl undefined_invoke_TypeError, []), h)
           | Some tool \<Rightarrow>
               ((fst (ref_invoke tool (tc_args (h modifiedToolCall)) h),
                 [(modifiedToolCall,
                   Invoke (tc_name (h toolCall)) (tc_args (h modifiedToolCall)))]),
                snd (ref_invoke tool (tc_args (h modifiedToolCall)) h))))"

definition ref_resolved_result ::
  "'a ref_agent \<Rightarrow> (stage \<Rightarrow> BreakpointManager) \<Rightarrow> nat \<Rightarrow> 'a AgentState
   \<Rightarrow> (InterceptorOutput, 'a) staged" where
  "ref_resolved_result A env toolCall state =
     then_do (ref_before_stages A env toolCall state) (ref_resolve_result A toolCall)"

text \<open>The stages after the tool, all of them passed \<^verbatim>\<open>toolCall\<close>.\<close>

definition ref_after_stages ::
  "'a ref_agent \<Rightarrow> (stage \<Rightarrow> BreakpointManager) \<Rightarrow> nat \<Rightarrow> 'a AgentState
   \<Rightarrow> InterceptorOutput \<Rightarrow> (InterceptorOutput, 'a) staged" where
  "ref_after_stages A env toolCall state result =
     then_do (passing toolCall
                (ref_interceptSpecificToolResult (ref_generateId A) (ref_interceptors A)
                   result toolCall state))
       (\<lambda>specificProcessedResult.
     then_do (passing toolCall
                (ref_guarded SpecificAfter
                   (ref_breakAfterSpecificToolCall (ref_maxConcurrentBreakpoints A)
                      (ref_generateId A) (ref_breakpoints A) (env SpecificAfter)
                      specificProcessedResult toolCall state)))
       (\<lambda>_.
     then_do (passing toolCall
                (ref_interceptAfterToolCall (ref_generateId A) (ref_interceptors A)
                   specificProcessedResult toolCall state))
       (\<lambda>finalResult.
     then_do (passing toolCall
                (ref_guarded GlobalAfter
                   (ref_breakAfterToolCall (ref_maxConcurrentBreakpoints A) (ref_generateId A)
                      (ref_breakpoints A) (env GlobalAfter) finalResult toolCall state)))
       (\<lambda>_. returning finalResult))))"

definition ref_task_body ::
  "'a ref_agent \<Rightarrow> (stage \<Rightarrow> BreakpointManager) \<Rightarrow> nat \<Rightarrow> 'a AgentState
   \<Rightarrow> (InterceptorOutput, 'a) staged" where
  "ref_task_body A env toolCall state =
     then_do (ref_resolved_result A env toolCall state) (ref_after_stages A env toolCall state)"

subsection \<open>Hooks that assign nothing to an object, and breakpoints that are due\<close>









subsection \<open>Two agents over the store\<close>






subsection \<open>What a stage does to an object and to the trace\<close>


definition returns :: "('r, 'a) staged \<Rightarrow> bool" where
  "returns stage = (\<forall>h. \<exists>v. outcome_of stage h = Inr v)"



subsection \<open>Hooks that work by value\<close>

text \<open>
  The hooks and tools of the sections before this one, as hooks and tools over the store: such
  a hook reads the object it is passed, assigns to no object, and an interceptor before the call
  that returns a modified input returns a new object (at the address after its argument's).
  \<open>value_of\<close> reads an interceptor result over the store as one by value.
\<close>

fun value_of :: "'a store \<Rightarrow> ref_InterceptorResult \<Rightarrow> 'a InterceptorResult" where
  "value_of h (ShortCircuitRef result) = ShortCircuitResult result"
| "value_of h (NormalRef modifiedInput) = NormalResult (h modifiedInput)"

definition by_value_before ::
  "('a ToolCall \<Rightarrow> 'a AgentState \<Rightarrow> js_error + 'a InterceptorResult)
   \<Rightarrow> nat \<Rightarrow> 'a AgentState \<Rightarrow> 'a store \<Rightarrow> (js_error + ref_InterceptorResult) \<times> 'a store" where
  "by_value_before hook toolCall state h =
     (case hook (h toolCall) state of
        Inl error \<Rightarrow> (Inl error, h)
      | Inr (ShortCircuitResult result) \<Rightarrow> (Inr (ShortCircuitRef result), h)
      | Inr (NormalResult modifiedInput) \<Rightarrow>
          (Inr (NormalRef (Suc toolCall)), h(Suc toolCall := modifiedInput)))"

definition by_value_after ::
  "(InterceptorOutput \<Rightarrow> 'a ToolCall \<Rightarrow> 'a AgentState \<Rightarrow> 'x)
   \<Rightarrow> InterceptorOutput \<Rightarrow> nat \<Rightarrow> 'a AgentState \<Rightarrow> 'a store \<Rightarrow> 'x \<times> 'a store" where
  "by_value_after hook result toolCall state h = (hook result (h toolCall) state, h)"

definition by_value_observer ::
  "('a ToolCall \<Rightarrow> 'a AgentState \<Rightarrow> 'x) \<Rightarrow> nat \<Rightarrow> 'a AgentState \<Rightarrow> 'a store \<Rightarrow> 'x \<times> 'a store" where
  "by_value_observer hook toolCall state h = (hook (h toolCall) state, h)"

definition by_value_tool_interceptors :: "'a tool_interceptors \<Rightarrow> 'a ref_tool_interceptors" where
  "by_value_tool_interceptors toolInterceptor =
     \<lparr>ref_ic_beforeToolCall = map_option by_value_before (ic_beforeToolCall toolInterceptor),
      ref_ic_afterToolCall = map_option by_value_after (ic_afterToolCall toolInterceptor)\<rparr>"

definition by_value_interceptors :: "'a InterceptorConfig \<Rightarrow> 'a ref_InterceptorConfig" where
  "by_value_interceptors config =
     \<lparr>ref_ic_enabled = ic_enabled config,
      ref_global_beforeToolCall = map_option by_value_before (global_beforeToolCall config),
      ref_global_afterToolCall = map_option by_value_after (global_afterToolCall config),
      ref_ic_toolSpecific =
        map (\<lambda>entry. (fst entry, by_value_tool_interceptors (snd entry))) (ic_toolSpecific config)\<rparr>"

definition by_value_tool_breakpoints :: "'a tool_breakpoints \<Rightarrow> 'a ref_tool_breakpoints" where
  "by_value_tool_breakpoints toolBreakpoint =
     \<lparr>ref_bp_beforeToolCall = map_option by_value_observer (bp_beforeToolCall toolBreakpoint),
      ref_bp_afterToolCall = map_option by_value_after (bp_afterToolCall toolBreakpoint)\<rparr>"

definition by_value_breakpoints :: "'a BreakpointConfig \<Rightarrow> 'a ref_BreakpointConfig" where
  "by_value_breakpoints config =
     \<lparr>ref_bp_enabled = bp_enabled config,
      ref_bp_global_beforeToolCall = map_option by_value_observer (bp_global_beforeToolCall config),
      ref_bp_global_afterToolCall = map_option by_value_after (bp_global_afterToolCall config),
      ref_bp_toolSpecific =
        map (\<lambda>entry. (fst entry, by_value_tool_breakpoints (snd entry))) (bp_toolSpecific config)\<rparr>"

definition by_value_tool :: "'a StructuredTool \<Rightarrow> 'a ref_tool" where
  "by_value_tool tool = \<lparr>ref_invoke = (\<lambda>args h. (invoke tool args, h))\<rparr>"

definition by_value :: "'a agent \<Rightarrow> 'a ref_agent" where
  "by_value A =
     \<lparr>ref_toolMap = (\<lambda>name. map_option by_value_tool (agent_toolMap A name)),
      ref_interceptors = by_value_interceptors (agent_interceptors A),
      ref_breakpoints = by_value_breakpoints (agent_breakpoints A),
      ref_maxConcurrentBreakpoints = agent_maxConcurrentBreakpoints A,
      ref_generateId = agent_generateId A\<rparr>"

section \<open>Properties of the memory snapshots\<close>


lemma percent_above: "((r::rat) * 100 > 5) = (r > 5 / 100)"
  by auto

lemma percent_below: "((r::rat) * 100 < - 5) = (r < - (5 / 100))"
  by auto

lemma slice_from_end_most_recent: "slice_from_end n xs = most_recent n xs"
  by (simp add: slice_from_end_def most_recent_def take_rev)

lemma capture_length:
  "length memorySnapshots \<le> MAX_SNAPSHOTS \<Longrightarrow>
   length (captureMemorySnapshot now u memorySnapshots) \<le> MAX_SNAPSHOTS"
  by (auto simp: captureMemorySnapshot_def Let_def)

lemma capture_slice:
  "length memorySnapshots \<le> MAX_SNAPSHOTS \<Longrightarrow>
   captureMemorySnapshot now u memorySnapshots =
     slice_from_end MAX_SNAPSHOTS (memorySnapshots @ [\<lparr>timestamp = now, usage = u\<rparr>])"
proof (cases "length memorySnapshots = MAX_SNAPSHOTS")
  case True
  then have "Suc (length memorySnapshots) - MAX_SNAPSHOTS = 1"
    by simp
  moreover have "memorySnapshots \<noteq> []"
    using True by (auto simp: MAX_SNAPSHOTS_def)
  ultimately show ?thesis
    using True
    by (simp add: captureMemorySnapshot_def Let_def slice_from_end_def drop_Suc MAX_SNAPSHOTS_def)
next
  case False
  assume "length memorySnapshots \<le> MAX_SNAPSHOTS"
  with False have "length memorySnapshots < MAX_SNAPSHOTS"
    by simp
  then show ?thesis
    by (simp add: captureMemorySnapshot_def Let_def slice_from_end_def)
qed

lemma slice_slice_snoc:
  "slice_from_end n (slice_from_end n xs @ [x]) = slice_from_end n (xs @ [x])"
proof (cases "n \<le> length xs")
  case True
  then have "Suc (length xs - (length xs - n)) - n = 1" "Suc (length xs) - n = Suc (length xs - n)"
    by simp_all
  then show ?thesis
    using True by (cases n) (simp_all add: slice_from_end_def drop_Suc drop_tl [symmetric])
next
  case False
  then show ?thesis
    by (simp add: slice_from_end_def)
qed

lemma capture_all_slice:
  "memorySnapshots = slice_from_end MAX_SNAPSHOTS history \<Longrightarrow>
   capture_all readings memorySnapshots =
     slice_from_end MAX_SNAPSHOTS (history @ map as_snapshot readings)"
proof (induction readings arbitrary: memorySnapshots history)
  case Nil
  then show ?case by simp
next
  case (Cons r readings)
  obtain now u where r: "r = (now, u)" by (cases r)
  have len: "length memorySnapshots \<le> MAX_SNAPSHOTS"
    using Cons.prems by (simp add: slice_from_end_def)
  have step: "captureMemorySnapshot now u memorySnapshots =
      slice_from_end MAX_SNAPSHOTS (history @ [as_snapshot r])"
    using capture_slice [OF len] Cons.prems
    by (simp add: slice_slice_snoc r as_snapshot_def)
  show ?case
    using Cons.IH [OF step] by (simp add: r)
qed

text \<open>
  C8. Trend classification and the ring buffer. Fewer than two stored samples give
  \<open>insufficient_data\<close>. With two or more, the first and the last of the most recent five
  samples are compared (the first reading being a positive byte count): a relative change above
  +5% is \<open>increasing\<close>, below -5% is \<open>decreasing\<close>, anything else \<open>stable\<close>. A buffer filled by
  the sampler from empty holds exactly the last \<open>MAX_SNAPSHOTS\<close> readings in their order, so it
  never holds more than its capacity and the oldest sample is the one evicted.
\<close>

theorem C8_memory_trend_and_ring_buffer:
  "(length snaps < 2 \<longrightarrow> getMemoryTrend snaps = insufficient_data)
   \<and> (2 \<le> length snaps \<and> 0 < heapUsed (usage (hd (most_recent 5 snaps))) \<longrightarrow>
        getMemoryTrend snaps =
          (let first = heapUsed (usage (hd (most_recent 5 snaps)));
               final = heapUsed (usage (last (most_recent 5 snaps)))
           in if relative_change first final > 5 / 100 then increasing
              else if relative_change first final < - (5 / 100) then decreasing
              else stable))
   \<and> capture_all readings [] = most_recent MAX_SNAPSHOTS (map as_snapshot readings)
   \<and> length (capture_all readings []) \<le> MAX_SNAPSHOTS
   \<and> (length buf = MAX_SNAPSHOTS \<longrightarrow>
        captureMemorySnapshot now u buf = tl buf @ [\<lparr>timestamp = now, usage = u\<rparr>])"
proof (intro conjI impI)
  assume "length snaps < 2"
  then show "getMemoryTrend snaps = insufficient_data"
    by (simp add: getMemoryTrend_def)
next
  assume a: "2 \<le> length snaps \<and> 0 < heapUsed (usage (hd (most_recent 5 snaps)))"
  define recent where "recent = most_recent 5 snaps"
  have ne: "recent \<noteq> []"
    using a by (auto simp: recent_def most_recent_def)
  have h: "recent ! 0 = hd recent" "recent ! (length recent - 1) = last recent"
    using ne by (simp_all add: hd_conv_nth last_conv_nth)
  have pos: "0 < heapUsed (usage (hd recent))"
    using a by (simp add: recent_def)
  have "getMemoryTrend snaps =
      (let first = heapUsed (usage (hd recent)); final = heapUsed (usage (last recent))
       in if relative_change first final * 100 > 5 then increasing
          else if relative_change first final * 100 < - 5 then decreasing else stable)"
    using a pos h
    by (simp add: getMemoryTrend_def slice_from_end_most_recent recent_def [symmetric]
        Let_def relative_change_def)
  then show "getMemoryTrend snaps =
      (let first = heapUsed (usage (hd (most_recent 5 snaps)));
           final = heapUsed (usage (last (most_recent 5 snaps)))
       in if relative_change first final > 5 / 100 then increasing
          else if relative_change first final < - (5 / 100) then decreasing
          else stable)"
    by (simp add: recent_def Let_def percent_above percent_below)
next
  have "[] = slice_from_end MAX_SNAPSHOTS ([] :: snapshot list)"
    by (simp add: slice_from_end_def)
  from capture_all_slice [OF this]
  show eq: "capture_all readings [] = most_recent MAX_SNAPSHOTS (map as_snapshot readings)"
    by (simp add: slice_from_end_most_recent)
  show "length (capture_all readings []) \<le> MAX_SNAPSHOTS"
    by (simp add: eq most_recent_def)
next
  assume "length buf = MAX_SNAPSHOTS"
  then show "captureMemorySnapshot now u buf = tl buf @ [\<lparr>timestamp = now, usage = u\<rparr>]"
    by (cases buf) (auto simp: captureMemorySnapshot_def Let_def MAX_SNAPSHOTS_def)
qed

text \<open>
  Concrete buffers for each case: one sample; a rise of 10%; a change of -5%, which is not below
  -5%; seven samples, of which only the last five count; and a full buffer that takes one more.
\<close>

theorem C8_memory_trend_and_ring_buffer_witness:
  "getMemoryTrend [sample 100] = insufficient_data
   \<and> 2 \<le> length [sample 100, sample 110]
   \<and> 0 < heapUsed (usage (hd (most_recent 5 [sample 100, sample 110])))
   \<and> getMemoryTrend [sample 100, sample 110] = increasing
   \<and> getMemoryTrend [sample 100, sample 90, sample 95] = stable
   \<and> getMemoryTrend [sample 1, sample 100, sample 200, sample 3, sample 4, sample 5, sample 90]
       = decreasing
   \<and> captureMemorySnapshot 7 (usage (sample 2)) (replicate MAX_SNAPSHOTS (sample 1))
       = replicate 99 (sample 1) @ [\<lparr>timestamp = 7, usage = usage (sample 2)\<rparr>]"
proof -
  note main = C8_memory_trend_and_ring_buffer
  have one: "getMemoryTrend [sample 100] = insufficient_data"
    using main [where snaps = "[sample 100]"] by simp
  have two: "getMemoryTrend [sample 100, sample 110] = increasing"
    using main [where snaps = "[sample 100, sample 110]"]
    by (simp add: most_recent_def relative_change_def sample_def)
  have three: "getMemoryTrend [sample 100, sample 90, sample 95] = stable"
    using main [where snaps = "[sample 100, sample 90, sample 95]"]
    by (simp add: most_recent_def relative_change_def sample_def)
  have seven: "getMemoryTrend
      [sample 1, sample 100, sample 200, sample 3, sample 4, sample 5, sample 90] = decreasing"
    using main [where snaps =
        "[sample 1, sample 100, sample 200, sample 3, sample 4, sample 5, sample 90]"]
    by (simp add: most_recent_def relative_change_def sample_def)
  have evict: "captureMemorySnapshot 7 (usage (sample 2)) (replicate MAX_SNAPSHOTS (sample 1))
       = replicate 99 (sample 1) @ [\<lparr>timestamp = 7, usage = usage (sample 2)\<rparr>]"
    using main [where buf = "replicate MAX_SNAPSHOTS (sample 1)" and now = 7
        and u = "usage (sample 2)"]
    by (simp add: MAX_SNAPSHOTS_def)
  show ?thesis
    using one two three seven evict by (simp add: most_recent_def sample_def)
qed

section \<open>Properties of the Error Classifier\<close>


lemma ErrorType_string_colon: "CHR '':'' \<notin> set (ErrorType_string kind)"
  by (cases kind) simp_all

lemma colon_split:
  "CHR '':'' \<notin> set xs \<Longrightarrow> CHR '':'' \<notin> set ys \<Longrightarrow>
   xs @ CHR '':'' # v = ys @ CHR '':'' # w \<Longrightarrow> xs = ys \<and> v = w"
proof (induction xs arbitrary: ys)
  case Nil
  then show ?case by (cases ys) auto
next
  case (Cons x xs)
  then show ?case by (cases ys) auto
qed

lemma ErrorType_string_inject: "ErrorType_string kind = ErrorType_string kind' \<Longrightarrow> kind = kind'"
  by (cases kind; cases kind') simp_all

lemma pair_key_inject:
  "pair_key kind message = pair_key kind' message' \<longleftrightarrow> kind = kind' \<and> message = message'"
  unfolding pair_key_def
  using colon_split [OF ErrorType_string_colon ErrorType_string_colon, of kind message kind' message']
    ErrorType_string_inject [of kind kind']
  by auto


lemma handleError_result: "fst (handleError now error context s) = classify now error context"
  by (simp add: handleError_def Let_def split: prod.splits)








lemma same_pair_append:
  "same_pair kind message (xs @ ys) \<longleftrightarrow> same_pair kind message xs \<and> same_pair kind message ys"
  by (simp add: same_pair_def)









subsection \<open>The retry helper\<close>


lemma handleError_pair:
  "handleError now error context s = (e, s') \<Longrightarrow> e = classify now error context"
  using handleError_result [of now error "context" s] by simp

lemma classify_retryable: "e_retryable (classify now error context) = classified_retryable error"
  by (cases error) (simp_all add: new_ReAgentError_def)

lemma delays_shift:
  "c # map (nth_delay (c * b) b) [0..<n] = map (nth_delay c b) [0..<Suc n]"
proof -
  have "[0..<Suc n] = 0 # map Suc [0..<n]"
    by (simp add: upt_conv_Cons map_Suc_upt del: upt_Suc)
  then show ?thesis
    by (simp add: nth_delay_def mult.assoc del: upt_Suc)
qed

declare retry_loop.simps [simp del]

lemma retry_loop_runs:
  fixes fn :: "nat \<Rightarrow> js_error + 'a"
  shows "\<exists>n. slept (retry_loop fn clock context maxRetries b a c le a S s)
        = S @ map (nth_delay c b) [0..<n]
    \<and> (\<forall>j. a \<le> j \<and> j < a + n \<longrightarrow>
          (\<exists>e. fn j = Inl e \<and> classified_retryable e) \<and> int j < maxRetries - 1)
    \<and> (if int a < maxRetries
        then invocations (retry_loop fn clock context maxRetries b a c le a S s) = a + n + 1
          \<and> (\<forall>v. fn (a + n) = Inr v \<longrightarrow>
                outcome (retry_loop fn clock context maxRetries b a c le a S s) = Inr v)
          \<and> (\<forall>e. fn (a + n) = Inl e \<longrightarrow>
                outcome (retry_loop fn clock context maxRetries b a c le a S s)
                  = Inl (ReAgent (classify (clock (a + n)) e
                      (attempt_context context (a + n) maxRetries)))
                \<and> (int (a + n) = maxRetries - 1 \<or> \<not> classified_retryable e))
        else n = 0
          \<and> invocations (retry_loop fn clock context maxRetries b a c le a S s) = a
          \<and> outcome (retry_loop fn clock context maxRetries b a c le a S s)
              = (case le of None \<Rightarrow> Inl null_message_TypeError
                 | Some e \<Rightarrow> Inl (ReAgent (classify (clock a) e context))))"
proof (induction "nat (maxRetries - int a)" arbitrary: a c le S s)
  case 0
  then have over: "\<not> int a < maxRetries" by simp
  show ?case
    apply (rule exI [of _ 0])
    using over
    by (subst (1 2 3) retry_loop.simps)
       (auto simp: Let_def split: option.splits prod.splits dest: handleError_pair)
next
  case (Suc m)
  then have lt: "int a < maxRetries" by simp
  show ?case
  proof (cases "fn a")
    case (Inr v)
    show ?thesis
      apply (rule exI [of _ 0])
      using lt Inr by (subst (1 2 3) retry_loop.simps) auto
  next
    case (Inl error)
    let ?ctx = "attempt_context context a maxRetries"
    obtain s1 where h: "handleError (clock a) error ?ctx s = (classify (clock a) error ?ctx, s1)"
      using handleError_result [of "clock a" error ?ctx s]
      by (cases "handleError (clock a) error ?ctx s") simp
    show ?thesis
    proof (cases "int a = maxRetries - 1 \<or> \<not> classified_retryable error")
      case True
      show ?thesis
        apply (rule exI [of _ 0])
        using lt Inl h True
        by (subst (1 2 3) retry_loop.simps) (auto simp: classify_retryable)
    next
      case False
      let ?s = "s1\<lparr>logged := logged s1 @ [(Warn, ''retrying the operation'')]\<rparr>"
      have unfold: "retry_loop fn clock context maxRetries b a c le a S s
          = retry_loop fn clock context maxRetries b (a + 1) (c * b) (Some error) (a + 1) (S @ [c]) ?s"
        using lt Inl h False by (subst retry_loop.simps) (simp add: classify_retryable)
      have m: "m = nat (maxRetries - int (a + 1))"
        using Suc.hyps(2) by simp
      have lt': "int (a + 1) < maxRetries"
        using lt False by simp
      from Suc.hyps(1) [OF m, of "c * b" "Some error" "S @ [c]" ?s]
      obtain n where n: "slept (retry_loop fn clock context maxRetries b (a + 1) (c * b) (Some error) (a + 1) (S @ [c]) ?s)
            = (S @ [c]) @ map (nth_delay (c * b) b) [0..<n]"
        "\<forall>j. a + 1 \<le> j \<and> j < a + 1 + n \<longrightarrow>
            (\<exists>e. fn j = Inl e \<and> classified_retryable e) \<and> int j < maxRetries - 1"
        "invocations (retry_loop fn clock context maxRetries b (a + 1) (c * b) (Some error) (a + 1) (S @ [c]) ?s) = a + 1 + n + 1"
        "\<forall>v. fn (a + 1 + n) = Inr v \<longrightarrow>
            outcome (retry_loop fn clock context maxRetries b (a + 1) (c * b) (Some error) (a + 1) (S @ [c]) ?s) = Inr v"
        "\<forall>e. fn (a + 1 + n) = Inl e \<longrightarrow>
            outcome (retry_loop fn clock context maxRetries b (a + 1) (c * b) (Some error) (a + 1) (S @ [c]) ?s)
              = Inl (ReAgent (classify (clock (a + 1 + n)) e
                  (attempt_context context (a + 1 + n) maxRetries)))
            \<and> (int (a + 1 + n) = maxRetries - 1 \<or> \<not> classified_retryable e)"
        using lt' by auto
      have here: "(\<exists>e. fn a = Inl e \<and> classified_retryable e) \<and> int a < maxRetries - 1"
        using Inl False lt by auto
      have range: "\<forall>j. a \<le> j \<and> j < a + Suc n \<longrightarrow>
            (\<exists>e. fn j = Inl e \<and> classified_retryable e) \<and> int j < maxRetries - 1"
      proof (intro allI impI)
        fix j assume j: "a \<le> j \<and> j < a + Suc n"
        show "(\<exists>e. fn j = Inl e \<and> classified_retryable e) \<and> int j < maxRetries - 1"
        proof (cases "j = a")
          case True
          then show ?thesis using here by simp
        next
          case False
          then have "a + 1 \<le> j \<and> j < a + 1 + n" using j by simp
          then show ?thesis using n(2) by blast
        qed
      qed
      have sl: "slept (retry_loop fn clock context maxRetries b a c le a S s)
          = S @ map (nth_delay c b) [0..<Suc n]"
        unfolding unfold n(1) using delays_shift [of c b n] by simp
      have idx: "a + 1 + n = a + Suc n" "a + 1 + n + 1 = a + Suc n + 1"
        by simp_all
      note rest = n(3,4,5) [folded unfold, unfolded idx]
      show ?thesis
        apply (rule exI [of _ "Suc n"])
        using sl range lt rest by (simp only: if_True simp_thms)
    qed
  qed
qed


lemma retry_runs:
  fixes fn :: "nat \<Rightarrow> js_error + 'a"
  assumes "0 < maxRetries"
  obtains n where "slept (retry fn clock context maxRetries d b s) = map (nth_delay d b) [0..<n]"
    and "\<forall>j < n. (\<exists>e. fn j = Inl e \<and> classified_retryable e) \<and> int j < maxRetries - 1"
    and "invocations (retry fn clock context maxRetries d b s) = n + 1"
    and "\<And>v. fn n = Inr v \<Longrightarrow> outcome (retry fn clock context maxRetries d b s) = Inr v"
    and "\<And>e. fn n = Inl e \<Longrightarrow>
          outcome (retry fn clock context maxRetries d b s)
            = Inl (ReAgent (classify (clock n) e (attempt_context context n maxRetries)))
          \<and> (int n = maxRetries - 1 \<or> \<not> classified_retryable e)"
  using retry_loop_runs [of fn clock "context" maxRetries b 0 d None "[]" s] assms
  by (auto simp: retry_def)

text \<open>
  C5. An operation that throws a retryable error on every invocation, retried with
  \<^verbatim>\<open>maxRetries = 3\<close>, is invoked exactly three times, after which the helper throws the
  classified error of the third failure; it slept \<open>delayMs\<close> and \<open>delayMs * b\<close> in between. For
  any operation and any \<^verbatim>\<open>maxRetries\<close>: a failure that is not classified as retryable
  (after retryable ones only) is thrown at once, with no further invocation; with a positive
  \<^verbatim>\<open>maxRetries\<close> there is one invocation more than there were sleeps; every sleep follows a
  failure classified as retryable; and the \<open>k\<close>-th sleep lasts \<open>delayMs * b ^ k\<close>, each
  one the previous one times the backoff multiplier.
\<close>

theorem C5_retry_helper:
  fixes fn :: "nat \<Rightarrow> js_error + 'a"
  shows "((\<forall>i. \<exists>e. fn i = Inl e \<and> classified_retryable e) \<longrightarrow>
        invocations (retry fn clock context 3 delayMs b s) = 3
        \<and> (\<exists>e. fn 2 = Inl e
              \<and> outcome (retry fn clock context 3 delayMs b s)
                  = Inl (ReAgent (classify (clock 2) e (attempt_context context 2 3))))
        \<and> slept (retry fn clock context 3 delayMs b s) = [delayMs, delayMs * b])
    \<and> (\<forall>i e. int i < maxRetries
          \<and> (\<forall>j < i. \<exists>e'. fn j = Inl e' \<and> classified_retryable e')
          \<and> fn i = Inl e \<and> \<not> classified_retryable e \<longrightarrow>
        invocations (retry fn clock context maxRetries delayMs b s) = i + 1
        \<and> outcome (retry fn clock context maxRetries delayMs b s)
            = Inl (ReAgent (classify (clock i) e (attempt_context context i maxRetries))))
    \<and> (0 < maxRetries \<longrightarrow>
        invocations (retry fn clock context maxRetries delayMs b s)
          = length (slept (retry fn clock context maxRetries delayMs b s)) + 1)
    \<and> (\<forall>j < length (slept (retry fn clock context maxRetries delayMs b s)).
          \<exists>e. fn j = Inl e \<and> classified_retryable e)
    \<and> (\<forall>k < length (slept (retry fn clock context maxRetries delayMs b s)).
          slept (retry fn clock context maxRetries delayMs b s) ! k = delayMs * b ^ k)
    \<and> (\<forall>k. Suc k < length (slept (retry fn clock context maxRetries delayMs b s)) \<longrightarrow>
          slept (retry fn clock context maxRetries delayMs b s) ! Suc k
            = slept (retry fn clock context maxRetries delayMs b s) ! k * b)"
proof (intro conjI impI allI)
  assume always: "\<forall>i. \<exists>e. fn i = Inl e \<and> classified_retryable e"
  obtain n where n: "slept (retry fn clock context 3 delayMs b s) = map (nth_delay delayMs b) [0..<n]"
    "invocations (retry fn clock context 3 delayMs b s) = n + 1"
    "\<forall>j < n. (\<exists>e. fn j = Inl e \<and> classified_retryable e) \<and> int j < 3 - 1"
    "\<And>e. fn n = Inl e \<Longrightarrow>
          outcome (retry fn clock context 3 delayMs b s)
            = Inl (ReAgent (classify (clock n) e (attempt_context context n 3)))
          \<and> (int n = 3 - 1 \<or> \<not> classified_retryable e)"
    using retry_runs [of 3 fn clock "context" delayMs b s] by (metis zero_less_numeral)
  from always obtain e where e: "fn n = Inl e" "classified_retryable e"
    by blast
  with n(4) have two: "n = 2"
    by auto
  show "invocations (retry fn clock context 3 delayMs b s) = 3"
    using n(2) two by simp
  show "\<exists>e. fn 2 = Inl e
      \<and> outcome (retry fn clock context 3 delayMs b s)
          = Inl (ReAgent (classify (clock 2) e (attempt_context context 2 3)))"
    using n(4) [OF e(1)] e(1) two by auto
  have "[0..<2] = [0, Suc 0]"
    by (simp add: upt_rec)
  then show "slept (retry fn clock context 3 delayMs b s) = [delayMs, delayMs * b]"
    using n(1) two by (simp add: nth_delay_def)
next
  fix i e
  assume a: "int i < maxRetries
          \<and> (\<forall>j < i. \<exists>e'. fn j = Inl e' \<and> classified_retryable e')
          \<and> fn i = Inl e \<and> \<not> classified_retryable e"
  then have pos: "0 < maxRetries" by simp
  obtain n where n: "\<forall>j < n. (\<exists>e. fn j = Inl e \<and> classified_retryable e) \<and> int j < maxRetries - 1"
    "invocations (retry fn clock context maxRetries delayMs b s) = n + 1"
    "\<And>e. fn n = Inl e \<Longrightarrow>
          outcome (retry fn clock context maxRetries delayMs b s)
            = Inl (ReAgent (classify (clock n) e (attempt_context context n maxRetries)))
          \<and> (int n = maxRetries - 1 \<or> \<not> classified_retryable e)"
    using retry_runs [OF pos, of fn clock "context" delayMs b s] by metis
  have "\<not> n < i"
  proof
    assume lt: "n < i"
    with a obtain e' where e': "fn n = Inl e'" "classified_retryable e'" by blast
    with n(3) have "int n = maxRetries - 1" by blast
    with lt a show False by simp
  qed
  moreover have "\<not> i < n"
    using n(1) a by auto
  ultimately have eq: "n = i" by simp
  show "invocations (retry fn clock context maxRetries delayMs b s) = i + 1"
    using n(2) eq by simp
  show "outcome (retry fn clock context maxRetries delayMs b s)
      = Inl (ReAgent (classify (clock i) e (attempt_context context i maxRetries)))"
    using n(3) [of e] a eq by simp
next
  assume pos: "0 < maxRetries"
  show "invocations (retry fn clock context maxRetries delayMs b s)
      = length (slept (retry fn clock context maxRetries delayMs b s)) + 1"
    using retry_runs [OF pos, of fn clock "context" delayMs b s] by (metis length_map length_upt diff_zero)
next
  fix j assume "j < length (slept (retry fn clock context maxRetries delayMs b s))"
  then show "\<exists>e. fn j = Inl e \<and> classified_retryable e"
    using retry_loop_runs [of fn clock "context" maxRetries b 0 delayMs None "[]" s]
    by (auto simp: retry_def)
next
  fix k assume "k < length (slept (retry fn clock context maxRetries delayMs b s))"
  then show "slept (retry fn clock context maxRetries delayMs b s) ! k = delayMs * b ^ k"
    using retry_loop_runs [of fn clock "context" maxRetries b 0 delayMs None "[]" s]
    by (auto simp: retry_def nth_delay_def)
next
  fix k assume "Suc k < length (slept (retry fn clock context maxRetries delayMs b s))"
  then show "slept (retry fn clock context maxRetries delayMs b s) ! Suc k
            = slept (retry fn clock context maxRetries delayMs b s) ! k * b"
    using retry_loop_runs [of fn clock "context" maxRetries b 0 delayMs None "[]" s]
    by (auto simp: retry_def nth_delay_def)
qed


text \<open>
  Two operations, retried three times with delays from 1000 ms doubling: one that always throws
  the retryable \<open>flaky\<close> error, one that always throws the plain error \<open>boom\<close>.
\<close>

theorem C5_retry_helper_witness:
  "(\<forall>i. \<exists>e. (always_throws flaky :: nat \<Rightarrow> js_error + unit) i = Inl e \<and> classified_retryable e)
   \<and> invocations (retry (always_throws flaky :: nat \<Rightarrow> js_error + unit)
         (\<lambda>i. 0) Map.empty 3 1000 2 no_services) = 3
   \<and> slept (retry (always_throws flaky :: nat \<Rightarrow> js_error + unit)
         (\<lambda>i. 0) Map.empty 3 1000 2 no_services) = [1000, 2000]
   \<and> \<not> classified_retryable boom
   \<and> invocations (retry (always_throws boom :: nat \<Rightarrow> js_error + unit)
         (\<lambda>i. 0) Map.empty 3 1000 2 no_services) = 1
   \<and> slept (retry (always_throws boom :: nat \<Rightarrow> js_error + unit)
         (\<lambda>i. 0) Map.empty 3 1000 2 no_services) = []"
proof -
  let ?flaky = "always_throws flaky :: nat \<Rightarrow> js_error + unit"
  let ?boom = "always_throws boom :: nat \<Rightarrow> js_error + unit"
  have always: "\<forall>i. \<exists>e. ?flaky i = Inl e \<and> classified_retryable e"
    by (simp add: always_throws_def flaky_def new_ReAgentError_def)
  have three: "invocations (retry ?flaky (\<lambda>i. 0) Map.empty 3 1000 2 no_services) = 3
      \<and> slept (retry ?flaky (\<lambda>i. 0) Map.empty 3 1000 2 no_services) = [1000, 2000]"
    using C5_retry_helper [of ?flaky "\<lambda>i. 0" Map.empty 1000 2 no_services] always
    by simp
  have once: "int 0 < 3 \<and> (\<forall>j < 0. \<exists>e'. ?boom j = Inl e' \<and> classified_retryable e')
      \<and> ?boom 0 = Inl boom \<and> \<not> classified_retryable boom"
    by (simp add: always_throws_def boom_def)
  have one: "invocations (retry ?boom (\<lambda>i. 0) Map.empty 3 1000 2 no_services) = 0 + 1"
    using C5_retry_helper [of ?boom "\<lambda>i. 0" Map.empty 1000 2 no_services 3] once
    by blast
  have "0 < (3::int) \<longrightarrow> invocations (retry ?boom (\<lambda>i. 0) Map.empty 3 1000 2 no_services)
      = length (slept (retry ?boom (\<lambda>i. 0) Map.empty 3 1000 2 no_services)) + 1"
    using C5_retry_helper [of ?boom "\<lambda>i. 0" Map.empty 1000 2 no_services 3]
    by blast
  with one have none: "slept (retry ?boom (\<lambda>i. 0) Map.empty 3 1000 2 no_services) = []"
    by simp
  show ?thesis
    using always three once one none by simp
qed

section \<open>Properties of the tool registry\<close>

text \<open>
  C10. \<^verbatim>\<open>addTool\<close> with a null or undefined argument, or with a tool whose name is missing
  or empty, throws an error of kind VALIDATION and leaves the registry as it was. With a tool
  that has a (non-empty) name it returns normally and the registry afterwards maps that name to
  the tool and every other name as before; when the name was already registered the old tool is
  replaced and the only sign of it is one warning in the log.
\<close>

theorem C10_addTool:
  "(lacks_name tool \<longrightarrow>
      (\<exists>e. fst (addTool now tool toolMap) = Inl (ReAgent e) \<and> e_type e = VALIDATION)
      \<and> fst (snd (addTool now tool toolMap)) = toolMap)
   \<and> (tool = Some t \<and> tool_name t = Some n \<and> n \<noteq> [] \<longrightarrow>
      fst (addTool now tool toolMap) = Inr ()
      \<and> fst (snd (addTool now tool toolMap)) n = Some t
      \<and> (\<forall>m. m \<noteq> n \<longrightarrow> fst (snd (addTool now tool toolMap)) m = toolMap m)
      \<and> snd (snd (addTool now tool toolMap))
          = (if toolMap n \<noteq> None then [Log Warn (ToolOverwritten n)] else [])
            @ [Count ''tools.added''])"
  by (auto simp: addTool_def lacks_name_def createError_def new_ReAgentError_def Let_def
      split: option.splits)

text \<open>
  A registry that holds \<open>calculator\<close>: a tool with an empty name is refused and changes nothing,
  a new \<open>calculator\<close> replaces the old one with a warning.
\<close>

theorem C10_addTool_witness:
  "lacks_name (None :: string StructuredTool option)
   \<and> lacks_name (Some (echo_tool ''''))
   \<and> fst (snd (addTool 0 (Some (echo_tool '''')) [''calculator'' \<mapsto> echo_tool ''old'']))
        ''calculator'' = Some (echo_tool ''old'')
   \<and> fst (snd (addTool 0 (Some (echo_tool ''calculator'')) [''calculator'' \<mapsto> echo_tool ''old'']))
        ''calculator'' = Some (echo_tool ''calculator'')
   \<and> snd (snd (addTool 0 (Some (echo_tool ''calculator'')) [''calculator'' \<mapsto> echo_tool ''old'']))
        = [Log Warn (ToolOverwritten ''calculator''), Count ''tools.added'']"
proof -
  have none: "lacks_name (None :: string StructuredTool option)"
    and empty: "lacks_name (Some (echo_tool ''''))"
    by (simp_all add: lacks_name_def echo_tool_def)
  have named: "Some (echo_tool ''calculator'') = Some (echo_tool ''calculator'')
      \<and> tool_name (echo_tool ''calculator'') = Some ''calculator'' \<and> ''calculator'' \<noteq> []"
    by (simp add: echo_tool_def)
  from C10_addTool [of "Some (echo_tool '''')" 0 "[''calculator'' \<mapsto> echo_tool ''old'']"] empty
  have kept: "fst (snd (addTool 0 (Some (echo_tool '''')) [''calculator'' \<mapsto> echo_tool ''old'']))
      = [''calculator'' \<mapsto> echo_tool ''old'']"
    by blast
  from C10_addTool [of "Some (echo_tool ''calculator'')" 0 "[''calculator'' \<mapsto> echo_tool ''old'']"
      "echo_tool ''calculator''" "''calculator''"] named
  have "fst (snd (addTool 0 (Some (echo_tool ''calculator'')) [''calculator'' \<mapsto> echo_tool ''old'']))
        ''calculator'' = Some (echo_tool ''calculator'')"
    and "snd (snd (addTool 0 (Some (echo_tool ''calculator'')) [''calculator'' \<mapsto> echo_tool ''old'']))
        = (if [''calculator'' \<mapsto> echo_tool ''old''] ''calculator'' \<noteq> None
           then [Log Warn (ToolOverwritten ''calculator'')] else []) @ [Count ''tools.added'']"
    by blast+
  then show ?thesis
    using none empty kept by simp
qed

section \<open>Properties of the Breakpoint Pipeline\<close>

lemma length_Set_add: "length (Set_add k ks) \<le> Suc (length ks)"
  by (simp add: Set_add_def)

lemma length_Set_delete: "length (Set_delete k ks) \<le> length ks"
  by (simp add: Set_delete_def removeAll_filter_not_eq)

lemma bp_step_within_limit:
  "getActiveBreakpointCount m \<le> maxC \<Longrightarrow> getActiveBreakpointCount (bp_step maxC m action) \<le> maxC"
proof (cases action)
  case (Enqueue key)
  assume "getActiveBreakpointCount m \<le> maxC"
  then show ?thesis
    using length_Set_add [of key "concurrentBreakpoints m"]
    by (auto simp: Enqueue getActiveBreakpointCount_def)
next
  case (Settle key)
  assume "getActiveBreakpointCount m \<le> maxC"
  then show ?thesis
    using length_Set_delete [of key "concurrentBreakpoints m"]
    by (simp add: Settle getActiveBreakpointCount_def)
next
  case (Dequeue key)
  assume "getActiveBreakpointCount m \<le> maxC"
  then show ?thesis
    by (simp add: Dequeue getActiveBreakpointCount_def)
qed

lemma schedule_within_limit:
  "getActiveBreakpointCount m \<le> maxC \<Longrightarrow>
   getActiveBreakpointCount (foldl (bp_step maxC) m schedule) \<le> maxC"
  by (induction schedule arbitrary: m) (simp_all add: bp_step_within_limit)

lemma enqueueBreakpoint_steps:
  "length (concurrentBreakpoints m) < maxC \<Longrightarrow> key \<notin> set (executionQueue m) \<Longrightarrow>
   snd (enqueueBreakpoint maxC key breakpointFn m)
     = foldl (bp_step maxC) m [Enqueue key, Settle key, Dequeue key]"
  by (simp add: enqueueBreakpoint_def executeBreakpoint_def Let_def)

lemma enqueueBreakpoint_never_throws:
  "\<exists>trace. fst (enqueueBreakpoint maxC key breakpointFn m) = (Inr (), trace)"
  by (cases "snd breakpointFn")
     (auto simp: enqueueBreakpoint_def executeBreakpoint_def Let_def try_catch_def called_def)

text \<open>
  C4. When the number of active breakpoint tasks has reached the limit, \<^verbatim>\<open>enqueueBreakpoint\<close>
  returns normally with nothing but a debug line in its trace: the hook is not called, and the
  manager is left exactly as it was (nothing queued), so that whatever runs later runs as if the
  call had not been made. Consequently, starting from a new manager, no schedule of the atomic
  steps of the pipeline brings the active count above the limit.
\<close>

theorem C4_breakpoint_limit:
  "(maxC \<le> getActiveBreakpointCount m \<longrightarrow>
      enqueueBreakpoint maxC key breakpointFn m
        = ((Inr (), [Log Debug (BreakpointLimitReached maxC key)]), m)
      \<and> bp_step maxC m (Enqueue key) = m
      \<and> foldl (bp_step maxC) (bp_step maxC m (Enqueue key)) later = foldl (bp_step maxC) m later)
   \<and> getActiveBreakpointCount (foldl (bp_step maxC) new_BreakpointManager schedule) \<le> maxC
   \<and> (getActiveBreakpointCount m \<le> maxC \<longrightarrow>
      getActiveBreakpointCount (snd (enqueueBreakpoint maxC key breakpointFn m)) \<le> maxC)"
proof (intro conjI impI)
  assume limit: "maxC \<le> getActiveBreakpointCount m"
  then show "enqueueBreakpoint maxC key breakpointFn m
      = ((Inr (), [Log Debug (BreakpointLimitReached maxC key)]), m)"
    by (simp add: enqueueBreakpoint_def getActiveBreakpointCount_def)
  from limit show same: "bp_step maxC m (Enqueue key) = m"
    by (simp add: getActiveBreakpointCount_def)
  show "foldl (bp_step maxC) (bp_step maxC m (Enqueue key)) later = foldl (bp_step maxC) m later"
    by (simp only: same)
next
  show "getActiveBreakpointCount (foldl (bp_step maxC) new_BreakpointManager schedule) \<le> maxC"
    by (rule schedule_within_limit) (simp add: getActiveBreakpointCount_def new_BreakpointManager_def)
next
  assume within: "getActiveBreakpointCount m \<le> maxC"
  show "getActiveBreakpointCount (snd (enqueueBreakpoint maxC key breakpointFn m)) \<le> maxC"
  proof (cases "length (concurrentBreakpoints m) < maxC \<and> key \<notin> set (executionQueue m)")
    case True
    then have "snd (enqueueBreakpoint maxC key breakpointFn m)
        = foldl (bp_step maxC) m [Enqueue key, Settle key, Dequeue key]"
      by (intro enqueueBreakpoint_steps) simp_all
    then show ?thesis
      by (simp only: schedule_within_limit [OF within])
  next
    case False
    then show ?thesis
      using within by (auto simp: enqueueBreakpoint_def)
  qed
qed

text \<open>
  A manager with limit 2 whose two slots are taken: a third invocation, of a hook that would hang,
  is skipped and the count stays at 2. The same state is reached by three calls in a row.
\<close>

theorem C4_breakpoint_limit_witness:
  "2 \<le> getActiveBreakpointCount two_running
   \<and> enqueueBreakpoint 2 ''k3'' hanging_hook two_running
       = ((Inr (), [Log Debug (BreakpointLimitReached 2 ''k3'')]), two_running)
   \<and> getActiveBreakpointCount (snd (enqueueBreakpoint 2 ''k3'' hanging_hook two_running)) = 2
   \<and> getActiveBreakpointCount
       (foldl (bp_step 2) new_BreakpointManager [Enqueue ''k1'', Enqueue ''k2'', Enqueue ''k3'']) = 2"
proof -
  have limit: "2 \<le> getActiveBreakpointCount two_running"
    by (simp add: getActiveBreakpointCount_def two_running_def)
  from C4_breakpoint_limit [of 2 two_running "''k3''" hanging_hook] limit
  have skip: "enqueueBreakpoint 2 ''k3'' hanging_hook two_running
       = ((Inr (), [Log Debug (BreakpointLimitReached 2 ''k3'')]), two_running)"
    by blast
  have "foldl (bp_step 2) new_BreakpointManager [Enqueue ''k1'', Enqueue ''k2'', Enqueue ''k3'']
      = two_running"
    by (simp add: new_BreakpointManager_def two_running_def Set_add_def)
  then show ?thesis
    using limit skip by (simp add: getActiveBreakpointCount_def two_running_def)
qed

section \<open>Properties of the Interceptor Pipeline\<close>

lemma interceptors_fail_open:
  "ic_enabled config \<Longrightarrow> global_afterToolCall config = Some hook \<Longrightarrow>
   hook result toolCall state = Inl error \<Longrightarrow>
   interceptAfterToolCall generateId config result toolCall state
     = (Inr result, [Intercept GlobalAfter toolCall (Some result),
                     Log Err (InterceptorFailed GlobalAfter error)])"
  "ic_enabled config \<Longrightarrow> global_beforeToolCall config = Some hook' \<Longrightarrow>
   hook' toolCall state = Inl error \<Longrightarrow>
   interceptBeforeToolCall generateId config toolCall state
     = (Inr (NormalResult toolCall), [Intercept GlobalBefore toolCall None,
                     Log Err (InterceptorFailed GlobalBefore error)])"
  "ic_enabled config \<Longrightarrow> core_afterAgentComplete config = Some hook'' \<Longrightarrow>
   hook'' state = Inl error \<Longrightarrow>
   interceptAfterAgentComplete generateId config state
     = (Inr state, [CoreIntercept AfterAgentComplete,
                     Log Err (CoreInterceptorFailed AfterAgentComplete error)])"
  by (simp_all add: interceptAfterToolCall_def interceptBeforeToolCall_def
      interceptAfterAgentComplete_def acquireLock_def executeWithLock_def try_catch_def called_def)

lemma specific_interceptors_fail_open:
  "ic_enabled config \<Longrightarrow> map_of (ic_toolSpecific config) (tc_name toolCall) = Some ti \<Longrightarrow>
   ic_beforeToolCall ti = Some hook \<Longrightarrow> hook toolCall state = Inl error \<Longrightarrow>
   interceptSpecificToolCall generateId config toolCall state
     = (Inr (NormalResult toolCall), [Intercept SpecificBefore toolCall None,
                     Log Err (InterceptorFailed SpecificBefore error)])"
  "ic_enabled config \<Longrightarrow> map_of (ic_toolSpecific config) (tc_name toolCall) = Some ti \<Longrightarrow>
   ic_afterToolCall ti = Some hook' \<Longrightarrow> hook' result toolCall state = Inl error \<Longrightarrow>
   interceptSpecificToolResult generateId config result toolCall state
     = (Inr result, [Intercept SpecificAfter toolCall (Some result),
                     Log Err (InterceptorFailed SpecificAfter error)])"
  by (auto simp: interceptSpecificToolCall_def interceptSpecificToolResult_def
      acquireLock_def executeWithLock_def try_catch_def called_def)

lemma core_before_fails_open_classified:
  "ic_enabled config \<Longrightarrow> core_beforeModelInvoke config = Some hook \<Longrightarrow>
   hook msgs state = Inl error \<Longrightarrow>
   interceptBeforeModelInvoke now generateId config msgs state
     = (Inr msgs,
        [CoreIntercept BeforeModelInvoke,
         Classified error [''component'' \<mapsto> Text ''InterceptorManager'',
                           ''operation'' \<mapsto> Text ''beforeModelInvoke''],
         Log Err (CoreInterceptorFailed BeforeModelInvoke
           (ReAgent (classify now error [''component'' \<mapsto> Text ''InterceptorManager'',
                                        ''operation'' \<mapsto> Text ''beforeModelInvoke''])))])"
  by (simp add: interceptBeforeModelInvoke_def acquireLock_def executeWithLock_def wrapAsync_def
      try_catch_def called_def)

lemma interceptors_never_throw:
  "\<exists>v trace. interceptBeforeToolCall generateId config toolCall state = (Inr v, trace)"
  "\<exists>v trace. interceptSpecificToolCall generateId config toolCall state = (Inr v, trace)"
  "\<exists>v trace. interceptSpecificToolResult generateId config result toolCall state = (Inr v, trace)"
  "\<exists>v trace. interceptAfterToolCall generateId config result toolCall state = (Inr v, trace)"
  by (auto simp: interceptBeforeToolCall_def interceptSpecificToolCall_def
      interceptSpecificToolResult_def interceptAfterToolCall_def
      acquireLock_def executeWithLock_def try_catch_def called_def
      split: option.splits sum.splits)

text \<open>
  C3 at the hook point after a tool call, with a hook that throws \<open>boom\<close>: the caller gets the
  result it passed in and no exception, but the failure only reaches the logger. No call to the
  error handler is in the trace, whereas the hook point before the model call, given the same
  failing hook, does hand the failure to the handler.
\<close>

theorem C3_tool_hook_failure_bypasses_classifier:
  "interceptAfterToolCall no_ids throwing_interceptors (Str ''4'') calculator_call asking_state
     = (Inr (Str ''4''),
        [Intercept GlobalAfter calculator_call (Some (Str ''4'')),
         Log Err (InterceptorFailed GlobalAfter boom)])
   \<and> Classified boom [''component'' \<mapsto> Text ''InterceptorManager'',
                       ''operation'' \<mapsto> Text ''beforeModelInvoke'']
       \<in> set (snd (interceptBeforeModelInvoke 0 no_ids throwing_interceptors
                      (messages asking_state) asking_state))"
  by (simp add: interceptAfterToolCall_def interceptBeforeModelInvoke_def throwing_interceptors_def
      acquireLock_def executeWithLock_def wrapAsync_def try_catch_def called_def)

section \<open>Properties of the Tool Execution Engine\<close>

subsection \<open>The trace of one task\<close>

lemma and_then_Inr: "fst a = Inr v \<Longrightarrow> and_then a f = (fst (f v), snd a @ snd (f v))"
  by (simp add: and_then_def)

lemma and_then_Inl: "fst a = Inl e \<Longrightarrow> and_then a f = (Inl e, snd a)"
  by (simp add: and_then_def)


lemma enqueue_returns: "fst (fst (enqueueBreakpoint maxC key (hookev, out) m)) = Inr ()"
  by (cases out)
     (auto simp: enqueueBreakpoint_def executeBreakpoint_def Let_def try_catch_def called_def)


lemma guarded_enqueue:
  "guarded st (enqueueBreakpoint maxC key (hookev, out) m)
     = fst (enqueueBreakpoint maxC key (hookev, out) m)"
  using enqueue_returns [of maxC key hookev out m]
  by (simp add: guarded_def try_catch_def)

lemma guarded_skipped: "guarded st (skipped m) = (Inr (), [])"
  by (simp add: guarded_def skipped_def try_catch_def)

lemma break_returns:
  "fst (guarded st (breakBeforeToolCall maxC gen bp m toolCall state)) = Inr ()"
  "fst (guarded st (breakBeforeSpecificToolCall maxC gen bp m toolCall state)) = Inr ()"
  "fst (guarded st (breakAfterSpecificToolCall maxC gen bp m result toolCall state)) = Inr ()"
  "fst (guarded st (breakAfterToolCall maxC gen bp m result toolCall state)) = Inr ()"
  by (auto simp: breakBeforeToolCall_def breakBeforeSpecificToolCall_def
      breakAfterSpecificToolCall_def breakAfterToolCall_def
      guarded_enqueue guarded_skipped enqueue_returns split: option.splits)





lemma intercept_returns:
  "\<exists>r. fst (interceptBeforeToolCall gen ic toolCall state) = Inr r"
  "\<exists>r. fst (interceptSpecificToolCall gen ic toolCall state) = Inr r"
  "\<exists>r. fst (interceptSpecificToolResult gen ic result toolCall state) = Inr r"
  "\<exists>r. fst (interceptAfterToolCall gen ic result toolCall state) = Inr r"
  by (auto simp: interceptBeforeToolCall_def interceptSpecificToolCall_def
      interceptSpecificToolResult_def interceptAfterToolCall_def
      acquireLock_def executeWithLock_def try_catch_def called_def
      split: option.splits sum.splits)





lemma before_stages_short:
  assumes "fst (interceptBeforeToolCall (agent_generateId A) (agent_interceptors A) toolCall state)
      = Inr (ShortCircuitResult r)"
  shows "before_stages A env toolCall state
    = (Inr (ShortCircuitResult r),
       snd (interceptBeforeToolCall (agent_generateId A) (agent_interceptors A) toolCall state)
       @ snd (guarded GlobalBefore
               (breakBeforeToolCall (agent_maxConcurrentBreakpoints A) (agent_generateId A)
                  (agent_breakpoints A) (env GlobalBefore) toolCall state))
       @ snd (guarded SpecificBefore
               (breakBeforeSpecificToolCall (agent_maxConcurrentBreakpoints A) (agent_generateId A)
                  (agent_breakpoints A) (env SpecificBefore) toolCall state)))"
  using assms by (simp add: before_stages_def and_then_def break_returns)

lemma before_stages_normal:
  assumes "fst (interceptBeforeToolCall (agent_generateId A) (agent_interceptors A) toolCall state)
      = Inr (NormalResult modified)"
  shows "before_stages A env toolCall state
    = (fst (interceptSpecificToolCall (agent_generateId A) (agent_interceptors A) modified state),
       snd (interceptBeforeToolCall (agent_generateId A) (agent_interceptors A) toolCall state)
       @ snd (guarded GlobalBefore
               (breakBeforeToolCall (agent_maxConcurrentBreakpoints A) (agent_generateId A)
                  (agent_breakpoints A) (env GlobalBefore) toolCall state))
       @ snd (interceptSpecificToolCall (agent_generateId A) (agent_interceptors A) modified state)
       @ snd (guarded SpecificBefore
               (breakBeforeSpecificToolCall (agent_maxConcurrentBreakpoints A) (agent_generateId A)
                  (agent_breakpoints A) (env SpecificBefore) toolCall state)))"
proof -
  obtain final where
    "fst (interceptSpecificToolCall (agent_generateId A) (agent_interceptors A) modified state)
      = Inr final"
    using intercept_returns(2) by blast
  then show ?thesis
    using assms by (simp add: before_stages_def and_then_def break_returns)
qed





subsection \<open>The pipeline of one tool call\<close>


lemma short_circuit_trace:
  "task_body short_circuit_agent idle calculator_call asking_state
     = (Inr (Str ''cached''),
        [Intercept GlobalBefore calculator_call None,
         Break GlobalBefore calculator_call None,
         Break SpecificBefore calculator_call None,
         Break SpecificAfter calculator_call (Some (Str ''cached'')),
         Break GlobalAfter calculator_call (Some (Str ''cached''))])"
  by (simp add: task_body_def resolved_result_def before_stages_def resolve_result_def
      after_stages_def and_then_def try_catch_def called_def guarded_def
      interceptBeforeToolCall_def interceptSpecificToolCall_def interceptSpecificToolResult_def
      interceptAfterToolCall_def acquireLock_def executeWithLock_def
      breakBeforeToolCall_def breakBeforeSpecificToolCall_def breakAfterSpecificToolCall_def
      breakAfterToolCall_def enqueueBreakpoint_def executeBreakpoint_def skipped_def
      name_or_unknown_def lock_key_def id_or_def Set_add_def Set_delete_def
      short_circuit_agent_def watching_def appending_def idle_def new_BreakpointManager_def
      calculator_call_def echo_tool_def Let_def)





subsection \<open>A batch of tool calls\<close>

lemma unknown_known_length:
  "length (unknown_calls A toolCalls) + length (known_calls A toolCalls) = length toolCalls"
  using sum_length_filter_compl [of "\<lambda>toolCall. agent_toolMap A (tc_name toolCall) = None" toolCalls]
  by (simp add: unknown_calls_def known_calls_def)

lemma executeTools_none_known:
  assumes "messages state \<noteq> []" and "tool_calls_of (last (messages state)) = toolCalls"
    and "known_calls A toolCalls = []"
  shows "executeTools A env state
    = Inr \<lparr>tool_messages = unknown_messages A toolCalls, task_traces = [],
           engine_trace = invalid_warning A toolCalls\<rparr>"
proof (cases "toolCalls = []")
  case True
  then show ?thesis
    using assms by (simp add: executeTools_def unknown_calls_def unknown_messages_def
        invalid_warning_def)
next
  case False
  have "unknown_calls A toolCalls \<noteq> []"
    using unknown_known_length [of A toolCalls] assms(3) False by auto
  then show ?thesis
    using assms False
    by (simp add: executeTools_def Let_def unknown_calls_def known_calls_def unknown_messages_def
        invalid_warning_def)
qed

lemma executeTools_some_known:
  assumes "messages state \<noteq> []" and "tool_calls_of (last (messages state)) = toolCalls"
    and "known_calls A toolCalls \<noteq> []"
  shows "executeTools A env state
    = Inr \<lparr>tool_messages = unknown_messages A toolCalls @ task_messages A env state toolCalls,
           task_traces =
             zip (known_calls A toolCalls)
               (map (\<lambda>indexed. snd (toolExecutionTask A (env (fst indexed)) state
                                       (fst indexed) (snd indexed)))
                  (enumerate 0 (known_calls A toolCalls))),
           engine_trace =
             invalid_warning A toolCalls
             @ (if length toolCalls div 2 < counted_errors A env state toolCalls
                then [Log Warn (TooManyToolErrors (counted_errors A env state toolCalls)
                        (length toolCalls))]
                else [])\<rparr>"
proof -
  have ne: "toolCalls \<noteq> []"
    using assms(3) by (auto simp: known_calls_def)
  show ?thesis
    using assms ne
    by (simp add: executeTools_def Let_def unknown_calls_def known_calls_def
        unknown_messages_def task_messages_def invalid_warning_def counted_errors_def
        case_prod_beta comp_def)
qed

lemma length_unknown_messages [simp]:
  "length (unknown_messages A toolCalls) = length (unknown_calls A toolCalls)"
  by (simp add: unknown_messages_def)

lemma length_task_messages [simp]:
  "length (task_messages A env state toolCalls) = length (known_calls A toolCalls)"
  by (simp add: task_messages_def)

lemma invalid_warning_logs:
  "ev \<in> set (invalid_warning A toolCalls) \<Longrightarrow> \<exists>level text. ev = Log level text"
  by (auto simp: invalid_warning_def split: if_splits)

lemma startsWith_Nil: "startsWith s []"
  by (simp add: startsWith_def)

lemma startsWith_Cons: "startsWith (c # s) (d # p) = (c = d \<and> startsWith s p)"
  by (simp add: startsWith_def)

lemma unknown_content_counted:
  "startsWith (content (unknown_tool_message A indexed)) ''Unknown tool:''"
  by (simp add: unknown_tool_message_def startsWith_Cons startsWith_Nil)

lemma unknown_messages_counted:
  "length (filter (\<lambda>msg. startsWith (content msg) ''Unknown tool:'') (unknown_messages A toolCalls))
     = length (unknown_calls A toolCalls)"
proof -
  have "filter (\<lambda>msg. startsWith (content msg) ''Unknown tool:'') (map (unknown_tool_message A) xs)
      = map (unknown_tool_message A) xs" for xs
    by (induction xs) (simp_all add: unknown_content_counted)
  then show ?thesis
    by (simp add: unknown_messages_def)
qed

lemma task_message_failed:
  "fst (task_body A env toolCall state) = Inl error \<Longrightarrow>
   startsWith (content (fst (toolExecutionTask A env state index toolCall))) ''Error executing tool''"
  by (simp add: toolExecutionTask_def Let_def startsWith_Cons startsWith_Nil)

lemma task_message_returned:
  "fst (task_body A env toolCall state) = Inr finalResult \<Longrightarrow>
   startsWith (content (fst (toolExecutionTask A env state index toolCall))) ''Error executing tool''
     = startsWith (String finalResult) ''Error executing tool''"
  by (simp add: toolExecutionTask_def Let_def)

lemma failed_tasks_counted:
  "\<forall>indexed \<in> set xs. \<not> reads_as_failure A env state indexed \<Longrightarrow>
   length (filter (\<lambda>msg. startsWith (content msg) ''Error executing tool'')
     (map (\<lambda>indexed. fst (toolExecutionTask A (env (fst indexed)) state (fst indexed) (snd indexed)))
        xs))
     = length (filter (task_failed A env state) xs)"
proof (induction xs)
  case Nil
  then show ?case by simp
next
  case (Cons x xs)
  have here: "startsWith (content (fst (toolExecutionTask A (env (fst x)) state (fst x) (snd x))))
        ''Error executing tool'' = task_failed A env state x"
  proof (cases "fst (task_body A (env (fst x)) (snd x) state)")
    case (Inl error)
    then show ?thesis
      using task_message_failed [OF Inl] by (simp add: task_failed_def)
  next
    case (Inr finalResult)
    have "\<not> reads_as_failure A env state x"
      using Cons.prems by simp
    then show ?thesis
      using task_message_returned [OF Inr] Inr by (simp add: task_failed_def reads_as_failure_def)
  qed
  have "\<forall>indexed \<in> set xs. \<not> reads_as_failure A env state indexed"
    using Cons.prems by simp
  from Cons.IH [OF this] here show ?case
    by simp
qed

lemma half: "(n div 2 < k) = (n < 2 * (k::nat))"
  by auto

lemma fraction: "0 < n \<Longrightarrow> (1 / 2 < rat_of_nat k / rat_of_nat n) = (n < 2 * k)"
proof -
  assume n: "0 < n"
  then have "(1 / 2 < rat_of_nat k / rat_of_nat n) = (rat_of_nat n < rat_of_nat (2 * k))"
    by (simp add: field_simps)
  also have "\<dots> = (n < 2 * k)"
    by (simp only: of_nat_less_iff)
  finally show ?thesis .
qed

text \<open>
  C2. In every batch, each tool call whose name the registry does not hold gets exactly one
  message, the call number \<open>i\<close> among the unknown ones the message number \<open>i\<close> of the result,
  with the content \<^verbatim>\<open>Unknown tool: \<close> followed by the name (the source writes it with a
  capital U). The batch returns one message per call. Tasks, and with them every interceptor,
  breakpoint and tool call, exist for the known calls only, and what the engine itself leaves in
  the trace are log lines.
\<close>

theorem C2_unknown_tool_calls:
  "messages state \<noteq> [] \<and> tool_calls_of (last (messages state)) = toolCalls \<longrightarrow>
     (\<exists>run. executeTools A env state = Inr run
        \<and> length (tool_messages run) = length toolCalls
        \<and> take (length (unknown_calls A toolCalls)) (tool_messages run)
            = map (unknown_tool_message A) (enumerate 0 (unknown_calls A toolCalls))
        \<and> (\<forall>i < length (unknown_calls A toolCalls).
              content (tool_messages run ! i)
                = ''Unknown tool: '' @ tc_name (unknown_calls A toolCalls ! i))
        \<and> map fst (task_traces run) = known_calls A toolCalls
        \<and> (\<forall>toolCall \<in> set (map fst (task_traces run)).
              agent_toolMap A (tc_name toolCall) \<noteq> None)
        \<and> (\<forall>ev \<in> set (engine_trace run). \<exists>level text. ev = Log level text))"
proof (intro impI)
  assume a: "messages state \<noteq> [] \<and> tool_calls_of (last (messages state)) = toolCalls"
  then have a1: "messages state \<noteq> []" and a2: "tool_calls_of (last (messages state)) = toolCalls"
    by simp_all
  let ?unknown = "unknown_calls A toolCalls"
  let ?known = "known_calls A toolCalls"
  have nth: "content (unknown_messages A toolCalls ! i)
      = ''Unknown tool: '' @ tc_name (?unknown ! i)" if "i < length ?unknown" for i
    using that by (simp add: unknown_messages_def unknown_tool_message_def nth_enumerate_eq)
  have known: "\<forall>toolCall \<in> set ?known. agent_toolMap A (tc_name toolCall) \<noteq> None"
    by (simp add: known_calls_def)
  have total: "length ?unknown + length ?known = length toolCalls"
    by (rule unknown_known_length)
  have logs: "\<forall>ev \<in> set (invalid_warning A toolCalls). \<exists>level text. ev = Log level text"
    using invalid_warning_logs by blast
  show "\<exists>run. executeTools A env state = Inr run
        \<and> length (tool_messages run) = length toolCalls
        \<and> take (length ?unknown) (tool_messages run)
            = map (unknown_tool_message A) (enumerate 0 ?unknown)
        \<and> (\<forall>i < length ?unknown.
              content (tool_messages run ! i) = ''Unknown tool: '' @ tc_name (?unknown ! i))
        \<and> map fst (task_traces run) = ?known
        \<and> (\<forall>toolCall \<in> set (map fst (task_traces run)).
              agent_toolMap A (tc_name toolCall) \<noteq> None)
        \<and> (\<forall>ev \<in> set (engine_trace run). \<exists>level text. ev = Log level text)"
  proof (cases "?known = []")
    case True
    let ?run = "\<lparr>tool_messages = unknown_messages A toolCalls, task_traces = [],
           engine_trace = invalid_warning A toolCalls\<rparr> :: 'a tools_run"
    show ?thesis
    proof (rule exI [of _ ?run], intro conjI)
      show "executeTools A env state = Inr ?run"
        by (rule executeTools_none_known [OF a1 a2 True])
      show "length (tool_messages ?run) = length toolCalls"
        using True total by simp
      show "take (length ?unknown) (tool_messages ?run)
          = map (unknown_tool_message A) (enumerate 0 ?unknown)"
        by (simp add: unknown_messages_def)
      show "\<forall>i < length ?unknown.
          content (tool_messages ?run ! i) = ''Unknown tool: '' @ tc_name (?unknown ! i)"
        using nth by simp
      show "map fst (task_traces ?run) = ?known"
        using True by simp
      show "\<forall>toolCall \<in> set (map fst (task_traces ?run)).
          agent_toolMap A (tc_name toolCall) \<noteq> None"
        by simp
      show "\<forall>ev \<in> set (engine_trace ?run). \<exists>level text. ev = Log level text"
        using logs by simp
    qed
  next
    case False
    let ?traces = "map (\<lambda>indexed. snd (toolExecutionTask A (env (fst indexed)) state
                                       (fst indexed) (snd indexed)))
                  (enumerate 0 ?known)"
    let ?systemic = "(if length toolCalls div 2 < counted_errors A env state toolCalls
                then [Log Warn (TooManyToolErrors (counted_errors A env state toolCalls)
                        (length toolCalls))]
                else []) :: 'a event list"
    let ?run = "\<lparr>tool_messages = unknown_messages A toolCalls @ task_messages A env state toolCalls,
           task_traces = zip ?known ?traces,
           engine_trace = invalid_warning A toolCalls @ ?systemic\<rparr> :: 'a tools_run"
    have fsts: "map fst (zip ?known ?traces) = ?known"
      by (simp add: map_fst_zip)
    have systemic: "\<forall>ev \<in> set ?systemic. \<exists>level text. ev = Log level text"
      by simp
    show ?thesis
    proof (rule exI [of _ ?run], intro conjI)
      show "executeTools A env state = Inr ?run"
        by (rule executeTools_some_known [OF a1 a2 False])
      show "length (tool_messages ?run) = length toolCalls"
        using total by simp
      show "take (length ?unknown) (tool_messages ?run)
          = map (unknown_tool_message A) (enumerate 0 ?unknown)"
        by (simp add: unknown_messages_def)
      show "\<forall>i < length ?unknown.
          content (tool_messages ?run ! i) = ''Unknown tool: '' @ tc_name (?unknown ! i)"
        using nth by (simp add: nth_append)
      show "map fst (task_traces ?run) = ?known"
        using fsts by simp
      show "\<forall>toolCall \<in> set (map fst (task_traces ?run)).
          agent_toolMap A (tc_name toolCall) \<noteq> None"
        using known fsts by simp
      show "\<forall>ev \<in> set (engine_trace ?run). \<exists>level text. ev = Log level text"
        using logs systemic by (simp add: ball_Un)
    qed
  qed
qed



text \<open>
  The batch that calls the unregistered \<open>ghost\<close>: one message, \<^verbatim>\<open>Unknown tool: ghost\<close>, and
  no task.
\<close>

theorem C2_unknown_tool_calls_witness:
  "messages ghost_state \<noteq> []
   \<and> tool_calls_of (last (messages ghost_state)) = [ghost_call]
   \<and> (\<exists>run. executeTools plain_agent all_idle ghost_state = Inr run
         \<and> length (tool_messages run) = 1
         \<and> content (tool_messages run ! 0) = ''Unknown tool: ghost''
         \<and> task_traces run = [])"
proof -
  have hyp: "messages ghost_state \<noteq> [] \<and> tool_calls_of (last (messages ghost_state)) = [ghost_call]"
    by (simp add: ghost_state_def)
  have unknown: "unknown_calls plain_agent [ghost_call] = [ghost_call]"
    and known: "known_calls plain_agent [ghost_call] = []"
    by (simp_all add: unknown_calls_def known_calls_def plain_agent_def ghost_call_def)
  from C2_unknown_tool_calls [of ghost_state "[ghost_call]" plain_agent all_idle] hyp
  obtain run where run: "executeTools plain_agent all_idle ghost_state = Inr run"
    "length (tool_messages run) = length [ghost_call]"
    "\<forall>i < length (unknown_calls plain_agent [ghost_call]).
        content (tool_messages run ! i)
          = ''Unknown tool: '' @ tc_name (unknown_calls plain_agent [ghost_call] ! i)"
    "map fst (task_traces run) = known_calls plain_agent [ghost_call]"
    by blast
  have "content (tool_messages run ! 0) = ''Unknown tool: '' @ tc_name ([ghost_call] ! 0)"
    using run(3) unfolding unknown by simp
  then have "content (tool_messages run ! 0) = ''Unknown tool: ghost''"
    by (simp add: ghost_call_def)
  moreover from run(4) have "task_traces run = []"
    by (simp add: known)
  ultimately show ?thesis
    using hyp run(1,2) by simp
qed

lemma counted_is_error_results:
  "\<forall>indexed \<in> set (enumerate 0 (known_calls A toolCalls)). \<not> reads_as_failure A env state indexed \<Longrightarrow>
   counted_errors A env state toolCalls = error_results A env state toolCalls"
  using failed_tasks_counted [of "enumerate 0 (known_calls A toolCalls)" A env state]
  by (simp add: counted_errors_def error_results_def task_messages_def unknown_messages_counted)

lemma invalid_warning_not_systemic:
  "ev \<in> set (invalid_warning A toolCalls) \<Longrightarrow> \<not> is_systemic_warning ev"
  by (auto simp: invalid_warning_def split: if_splits)

text \<open>
  C7 (as amended). Take a batch of \<open>n\<close> tool calls of which at least one names a registered tool
  and in which no task returns normally a text that begins like the engine's error message, and
  let \<open>k\<close> be the number of its error results: the calls to unknown tools plus the tasks that
  failed. The engine returns one message per call, and it logs the systemic-problem warning
  exactly when \<open>k / n\<close> exceeds one half, which is exactly when the integer test
  \<open>k > n div 2\<close> of the source holds. A batch in which no call names a registered tool returns its
  messages before that test and logs no such warning.
\<close>

theorem C7_systemic_warning:
  "(messages state \<noteq> [] \<and> tool_calls_of (last (messages state)) = toolCalls
      \<and> known_calls A toolCalls \<noteq> []
      \<and> (\<forall>indexed \<in> set (enumerate 0 (known_calls A toolCalls)).
            \<not> reads_as_failure A env state indexed) \<longrightarrow>
     (\<exists>run. executeTools A env state = Inr run
        \<and> length (tool_messages run) = length toolCalls
        \<and> ((\<exists>ev \<in> set (engine_trace run). is_systemic_warning ev)
            = (1 / 2 < rat_of_nat (error_results A env state toolCalls)
                        / rat_of_nat (length toolCalls)))
        \<and> ((Log Warn (TooManyToolErrors (error_results A env state toolCalls) (length toolCalls))
              \<in> set (engine_trace run))
            = (length toolCalls div 2 < error_results A env state toolCalls))
        \<and> ((length toolCalls div 2 < error_results A env state toolCalls)
            = (1 / 2 < rat_of_nat (error_results A env state toolCalls)
                        / rat_of_nat (length toolCalls)))))
   \<and> (messages state \<noteq> [] \<and> tool_calls_of (last (messages state)) = toolCalls
      \<and> known_calls A toolCalls = [] \<longrightarrow>
     (\<exists>run. executeTools A env state = Inr run
        \<and> length (tool_messages run) = length toolCalls
        \<and> \<not> (\<exists>ev \<in> set (engine_trace run). is_systemic_warning ev)))"
proof (intro conjI impI)
  assume a: "messages state \<noteq> [] \<and> tool_calls_of (last (messages state)) = toolCalls
      \<and> known_calls A toolCalls \<noteq> []
      \<and> (\<forall>indexed \<in> set (enumerate 0 (known_calls A toolCalls)).
            \<not> reads_as_failure A env state indexed)"
  then have a1: "messages state \<noteq> []" and a2: "tool_calls_of (last (messages state)) = toolCalls"
    and a3: "known_calls A toolCalls \<noteq> []"
    and a4: "\<forall>indexed \<in> set (enumerate 0 (known_calls A toolCalls)).
            \<not> reads_as_failure A env state indexed"
    by simp_all
  let ?k = "error_results A env state toolCalls"
  let ?n = "length toolCalls"
  let ?systemic = "(if ?n div 2 < ?k then [Log Warn (TooManyToolErrors ?k ?n)] else []) :: 'a event list"
  let ?run = "\<lparr>tool_messages = unknown_messages A toolCalls @ task_messages A env state toolCalls,
         task_traces =
           zip (known_calls A toolCalls)
             (map (\<lambda>indexed. snd (toolExecutionTask A (env (fst indexed)) state
                                     (fst indexed) (snd indexed)))
                (enumerate 0 (known_calls A toolCalls))),
         engine_trace = invalid_warning A toolCalls @ ?systemic\<rparr> :: 'a tools_run"
  have run: "executeTools A env state = Inr ?run"
    using executeTools_some_known [OF a1 a2 a3, of env] counted_is_error_results [OF a4]
    by simp
  have pos: "0 < ?n"
    using a3 by (auto simp: known_calls_def)
  have frac: "(?n div 2 < ?k) = (1 / 2 < rat_of_nat ?k / rat_of_nat ?n)"
    using fraction [OF pos, of ?k] by (simp add: half)
  have any: "(\<exists>ev \<in> set (engine_trace ?run). is_systemic_warning ev) = (?n div 2 < ?k)"
    using invalid_warning_not_systemic [of _ A toolCalls] by auto
  have this_one: "(Log Warn (TooManyToolErrors ?k ?n) \<in> set (engine_trace ?run)) = (?n div 2 < ?k)"
    using invalid_warning_not_systemic [of "Log Warn (TooManyToolErrors ?k ?n)" A toolCalls]
    by auto
  show "\<exists>run. executeTools A env state = Inr run
        \<and> length (tool_messages run) = length toolCalls
        \<and> ((\<exists>ev \<in> set (engine_trace run). is_systemic_warning ev)
            = (1 / 2 < rat_of_nat ?k / rat_of_nat ?n))
        \<and> ((Log Warn (TooManyToolErrors ?k ?n) \<in> set (engine_trace run)) = (?n div 2 < ?k))
        \<and> ((?n div 2 < ?k) = (1 / 2 < rat_of_nat ?k / rat_of_nat ?n))"
  proof (rule exI [of _ ?run], intro conjI)
    show "executeTools A env state = Inr ?run"
      by (rule run)
    show "length (tool_messages ?run) = length toolCalls"
      using unknown_known_length [of A toolCalls] by simp
    show "(\<exists>ev \<in> set (engine_trace ?run). is_systemic_warning ev)
        = (1 / 2 < rat_of_nat ?k / rat_of_nat ?n)"
      using any frac by (simp only:)
    show "(Log Warn (TooManyToolErrors ?k ?n) \<in> set (engine_trace ?run)) = (?n div 2 < ?k)"
      by (rule this_one)
    show "(?n div 2 < ?k) = (1 / 2 < rat_of_nat ?k / rat_of_nat ?n)"
      by (rule frac)
  qed
next
  assume b: "messages state \<noteq> [] \<and> tool_calls_of (last (messages state)) = toolCalls
      \<and> known_calls A toolCalls = []"
  then have b1: "messages state \<noteq> []" and b2: "tool_calls_of (last (messages state)) = toolCalls"
    and b3: "known_calls A toolCalls = []"
    by simp_all
  let ?run = "\<lparr>tool_messages = unknown_messages A toolCalls, task_traces = [],
         engine_trace = invalid_warning A toolCalls\<rparr> :: 'a tools_run"
  show "\<exists>run. executeTools A env state = Inr run
        \<and> length (tool_messages run) = length toolCalls
        \<and> \<not> (\<exists>ev \<in> set (engine_trace run). is_systemic_warning ev)"
  proof (rule exI [of _ ?run], intro conjI)
    show "executeTools A env state = Inr ?run"
      by (rule executeTools_none_known [OF b1 b2 b3])
    show "length (tool_messages ?run) = length toolCalls"
      using unknown_known_length [of A toolCalls] b3 by simp
    show "\<not> (\<exists>ev \<in> set (engine_trace ?run). is_systemic_warning ev)"
      using invalid_warning_not_systemic [of _ A toolCalls] by auto
  qed
qed


lemma hookless_task:
  assumes "\<not> ic_enabled (agent_interceptors A)" and "\<not> bp_enabled (agent_breakpoints A)"
    and "agent_toolMap A (tc_name toolCall) = Some tool"
  shows "task_body A env toolCall state
    = (invoke tool (tc_args toolCall), [Invoke (tc_name toolCall) (tc_args toolCall)])"
  using assms
  by (cases "invoke tool (tc_args toolCall)")
     (simp_all add: task_body_def resolved_result_def before_stages_def resolve_result_def
        after_stages_def and_then_def try_catch_def called_def guarded_def skipped_def
        interceptBeforeToolCall_def interceptSpecificToolCall_def interceptSpecificToolResult_def
        interceptAfterToolCall_def breakBeforeToolCall_def breakBeforeSpecificToolCall_def
        breakAfterSpecificToolCall_def breakAfterToolCall_def)

lemma failing_task:
  "task_body failing_agent env calculator_call state = (Inl boom, [Invoke ''calculator'' ''2 + 2''])"
  using hookless_task [of failing_agent calculator_call
      "\<lparr>tool_name = Some ''calculator'', invoke = (\<lambda>args. Inl boom)\<rparr>" env state]
  by (simp add: failing_agent_def plain_agent_def calculator_call_def)

lemma mimicking_task:
  "task_body mimicking_agent env calculator_call state
     = (Inr (Str ''Error executing tool is what the manual says''),
        [Invoke ''calculator'' ''2 + 2''])"
  using hookless_task [of mimicking_agent calculator_call
      "\<lparr>tool_name = Some ''calculator'',
        invoke = (\<lambda>args. Inr (Str ''Error executing tool is what the manual says''))\<rparr>" env state]
  by (simp add: mimicking_agent_def plain_agent_def calculator_call_def)

text \<open>
  The \<open>ghost\<close> call next to a \<open>calculator\<close> call that throws: two error results out of two, and
  the warning is logged. The \<open>ghost\<close> call alone: no warning.
\<close>

theorem C7_systemic_warning_witness:
  "messages mixed_state \<noteq> []
   \<and> tool_calls_of (last (messages mixed_state)) = [ghost_call, calculator_call]
   \<and> known_calls failing_agent [ghost_call, calculator_call] = [calculator_call]
   \<and> \<not> reads_as_failure failing_agent all_idle mixed_state (0, calculator_call)
   \<and> error_results failing_agent all_idle mixed_state [ghost_call, calculator_call] = 2
   \<and> (\<exists>run. executeTools failing_agent all_idle mixed_state = Inr run
         \<and> Log Warn (TooManyToolErrors 2 2) \<in> set (engine_trace run))
   \<and> known_calls plain_agent [ghost_call] = []
   \<and> (\<exists>run. executeTools plain_agent all_idle ghost_state = Inr run
         \<and> \<not> (\<exists>ev \<in> set (engine_trace run). is_systemic_warning ev))"
proof -
  let ?calls = "[ghost_call, calculator_call]"
  have known: "known_calls failing_agent ?calls = [calculator_call]"
    and unknown: "unknown_calls failing_agent ?calls = [ghost_call]"
    by (simp_all add: known_calls_def unknown_calls_def failing_agent_def plain_agent_def
        ghost_call_def calculator_call_def)
  have honest: "\<not> reads_as_failure failing_agent all_idle mixed_state (0, calculator_call)"
    by (simp add: reads_as_failure_def failing_task)
  have k: "error_results failing_agent all_idle mixed_state ?calls = 2"
    unfolding error_results_def known unknown
    by (simp add: enumerate_eq_zip task_failed_def failing_task)
  have hyp: "messages mixed_state \<noteq> []
      \<and> tool_calls_of (last (messages mixed_state)) = ?calls
      \<and> known_calls failing_agent ?calls \<noteq> []
      \<and> (\<forall>indexed \<in> set (enumerate 0 (known_calls failing_agent ?calls)).
            \<not> reads_as_failure failing_agent all_idle mixed_state indexed)"
    using honest unfolding known by (simp add: mixed_state_def enumerate_eq_zip)
  from C7_systemic_warning [of mixed_state ?calls failing_agent all_idle] hyp
  obtain run where run: "executeTools failing_agent all_idle mixed_state = Inr run"
    "(Log Warn (TooManyToolErrors (error_results failing_agent all_idle mixed_state ?calls)
          (length ?calls)) \<in> set (engine_trace run))
      = (length ?calls div 2 < error_results failing_agent all_idle mixed_state ?calls)"
    by blast
  have two: "length ?calls = 2"
    by simp
  from run(2) have warned: "Log Warn (TooManyToolErrors 2 2) \<in> set (engine_trace run)"
    unfolding k two by simp
  have none: "known_calls plain_agent [ghost_call] = []"
    by (simp add: known_calls_def plain_agent_def ghost_call_def)
  have hyp2: "messages ghost_state \<noteq> []
      \<and> tool_calls_of (last (messages ghost_state)) = [ghost_call]
      \<and> known_calls plain_agent [ghost_call] = []"
    using none by (simp add: ghost_state_def)
  from C7_systemic_warning [of ghost_state "[ghost_call]" plain_agent all_idle] hyp2
  obtain run2 where run2: "executeTools plain_agent all_idle ghost_state = Inr run2"
    "\<not> (\<exists>ev \<in> set (engine_trace run2). is_systemic_warning ev)"
    by blast
  have first: "\<exists>run. executeTools failing_agent all_idle mixed_state = Inr run
         \<and> Log Warn (TooManyToolErrors 2 2) \<in> set (engine_trace run)"
    using run(1) warned by blast
  have second: "\<exists>run. executeTools plain_agent all_idle ghost_state = Inr run
         \<and> \<not> (\<exists>ev \<in> set (engine_trace run). is_systemic_warning ev)"
    using run2 by blast
  show ?thesis
    using hyp known honest k first none second by (simp only: simp_thms)
qed

text \<open>
  C7 as the spec states it fails on the batch that calls only the unregistered \<open>ghost\<close>: one
  call, one error result, a failed fraction of 1, and the source's test \<open>1 > 1 div 2\<close> would hold,
  but the engine has returned before it and the only warning in its trace is the one about
  unknown tools.
\<close>

theorem C7_all_unknown_batch_logs_no_systemic_warning:
  "executeTools plain_agent all_idle ghost_state
     = Inr \<lparr>tool_messages = [\<lparr>content = ''Unknown tool: ghost'', tool_call_id = ''g1''\<rparr>],
            task_traces = [],
            engine_trace = [Log Warn (InvalidToolCalls 1 [''ghost''])]\<rparr>
   \<and> error_results plain_agent all_idle ghost_state [ghost_call] = 1
   \<and> length [ghost_call] div 2 < error_results plain_agent all_idle ghost_state [ghost_call]
   \<and> (1 / 2 :: rat) < rat_of_nat (error_results plain_agent all_idle ghost_state [ghost_call])
                          / rat_of_nat (length [ghost_call])"
proof -
  have none: "known_calls plain_agent [ghost_call] = []"
    and unknown: "unknown_calls plain_agent [ghost_call] = [ghost_call]"
    by (simp_all add: known_calls_def unknown_calls_def plain_agent_def ghost_call_def)
  have "messages ghost_state \<noteq> []" "tool_calls_of (last (messages ghost_state)) = [ghost_call]"
    by (simp_all add: ghost_state_def)
  note run = executeTools_none_known [OF this none, of all_idle]
  have msgs: "unknown_messages plain_agent [ghost_call]
      = [\<lparr>content = ''Unknown tool: ghost'', tool_call_id = ''g1''\<rparr>]"
    unfolding unknown_messages_def unknown
    by (simp add: enumerate_eq_zip unknown_tool_message_def id_or_def ghost_call_def)
  have warn: "invalid_warning plain_agent [ghost_call] = [Log Warn (InvalidToolCalls 1 [''ghost''])]"
    unfolding invalid_warning_def unknown
    by (simp add: ghost_call_def)
  have "executeTools plain_agent all_idle ghost_state
     = Inr \<lparr>tool_messages = [\<lparr>content = ''Unknown tool: ghost'', tool_call_id = ''g1''\<rparr>],
            task_traces = [],
            engine_trace = [Log Warn (InvalidToolCalls 1 [''ghost''])]\<rparr>"
    unfolding run msgs warn by (rule refl)
  moreover have "error_results plain_agent all_idle ghost_state [ghost_call] = 1"
    unfolding error_results_def none unknown by simp
  ultimately show ?thesis
    by simp
qed

text \<open>
  The engine tells a failed task by the beginning of its message. A \<open>calculator\<close> that returns
  normally a text with that beginning is therefore counted as an error: a batch of one call
  with no error result logs the warning.
\<close>

lemma successful_result_counted_as_error:
  "executeTools mimicking_agent all_idle asking_state
     = Inr \<lparr>tool_messages =
              [\<lparr>content = ''Error executing tool is what the manual says'', tool_call_id = ''c1''\<rparr>],
            task_traces = [(calculator_call, [Invoke ''calculator'' ''2 + 2''])],
            engine_trace = [Log Warn (TooManyToolErrors 1 1)]\<rparr>
   \<and> error_results mimicking_agent all_idle asking_state [calculator_call] = 0"
proof -
  have known: "known_calls mimicking_agent [calculator_call] = [calculator_call]"
    and unknown: "unknown_calls mimicking_agent [calculator_call] = []"
    by (simp_all add: known_calls_def unknown_calls_def mimicking_agent_def plain_agent_def
        calculator_call_def)
  have ne: "known_calls mimicking_agent [calculator_call] \<noteq> []"
    by (simp add: known)
  have task: "toolExecutionTask mimicking_agent env asking_state 0 calculator_call
      = (\<lparr>content = ''Error executing tool is what the manual says'', tool_call_id = ''c1''\<rparr>,
         [Invoke ''calculator'' ''2 + 2''])" for env
    by (simp add: toolExecutionTask_def mimicking_task id_or_def Let_def)
       (simp add: calculator_call_def)
  have counted: "counted_errors mimicking_agent all_idle asking_state [calculator_call] = 1"
    unfolding counted_errors_def unknown_messages_def task_messages_def known unknown
    by (simp add: enumerate_eq_zip task startsWith_Cons startsWith_Nil)
  have "messages asking_state \<noteq> []"
    "tool_calls_of (last (messages asking_state)) = [calculator_call]"
    by (simp_all add: asking_state_def)
  note run = executeTools_some_known [OF this ne, of all_idle]
  have msgs: "unknown_messages mimicking_agent [calculator_call] = []"
    and warn: "invalid_warning mimicking_agent [calculator_call] = []"
    unfolding unknown_messages_def invalid_warning_def unknown by simp_all
  have tasks: "task_messages mimicking_agent all_idle asking_state [calculator_call]
      = [\<lparr>content = ''Error executing tool is what the manual says'', tool_call_id = ''c1''\<rparr>]"
    unfolding task_messages_def known by (simp add: enumerate_eq_zip task)
  have traces: "zip (known_calls mimicking_agent [calculator_call])
      (map (\<lambda>indexed. snd (toolExecutionTask mimicking_agent (all_idle (fst indexed)) asking_state
                              (fst indexed) (snd indexed)))
         (enumerate 0 (known_calls mimicking_agent [calculator_call])))
      = [(calculator_call, [Invoke ''calculator'' ''2 + 2''])]"
    unfolding known by (simp add: enumerate_eq_zip task)
  have "executeTools mimicking_agent all_idle asking_state
     = Inr \<lparr>tool_messages =
              [\<lparr>content = ''Error executing tool is what the manual says'', tool_call_id = ''c1''\<rparr>],
            task_traces = [(calculator_call, [Invoke ''calculator'' ''2 + 2''])],
            engine_trace = [Log Warn (TooManyToolErrors 1 1)]\<rparr>"
    unfolding run msgs warn tasks traces counted by simp
  moreover have "error_results mimicking_agent all_idle asking_state [calculator_call] = 0"
    unfolding error_results_def known unknown
    by (simp add: enumerate_eq_zip task_failed_def mimicking_task)
  ultimately show ?thesis
    by simp
qed

section \<open>Properties of the pipeline over the store\<close>

subsection \<open>Sequencing\<close>

lemma then_do_Inr:
  "outcome_of first h = Inr v \<Longrightarrow>
   outcome_of (then_do first rest) h = outcome_of (rest v) (store_after first h)
   \<and> events_of (then_do first rest) h = events_of first h @ events_of (rest v) (store_after first h)
   \<and> store_after (then_do first rest) h = store_after (rest v) (store_after first h)"
  by (simp add: then_do_def outcome_of_def events_of_def store_after_def)



lemma returning_run [simp]:
  "outcome_of (returning v) h = Inr v" "events_of (returning v) h = []" "store_after (returning v) h = h"
  by (simp_all add: returning_def outcome_of_def events_of_def store_after_def)

lemma passing_run:
  "outcome_of (passing r call) h = fst (fst (call h))"
  "events_of (passing r call) h = map (Pair r) (snd (fst (call h)))"
  "store_after (passing r call) h = snd (call h)"
  by (simp_all add: passing_def outcome_of_def events_of_def store_after_def)


lemma returns_then_do:
  assumes "returns first" and "\<And>v. returns (rest v)"
  shows "returns (then_do first rest)"
  unfolding returns_def
proof
  fix h :: "'a store"
  obtain v where v: "outcome_of first h = Inr v"
    using assms(1) by (auto simp: returns_def)
  obtain w where "outcome_of (rest v) (store_after first h) = Inr w"
    using assms(2) [of v] by (auto simp: returns_def)
  then show "\<exists>w. outcome_of (then_do first rest) h = Inr w"
    using v by (simp add: then_do_Inr)
qed




lemma returns_returning: "returns (returning v)"
  by (simp add: returns_def)


subsection \<open>The manager functions over the store\<close>

text \<open>The interceptor functions never throw, pass the reference they were given to their hook,
  and leave an object alone that their hooks leave alone.\<close>

lemma caught_returns:
  "\<exists>v. fst (acquireLock key (try_catch (called ev result) (\<lambda>error. (Inr fallback, trace error)))) = Inr v"
  by (cases result) (simp_all add: acquireLock_def executeWithLock_def try_catch_def called_def)


lemma ref_intercept_returns:
  "returns (passing x (ref_interceptBeforeToolCall gen ic r state))"
  "returns (passing x (ref_interceptSpecificToolCall gen ic r state))"
  "returns (passing x (ref_interceptSpecificToolResult gen ic result r state))"
  "returns (passing x (ref_interceptAfterToolCall gen ic result r state))"
  using caught_returns
  by (auto simp: returns_def passing_run ref_interceptBeforeToolCall_def
      ref_interceptSpecificToolCall_def ref_interceptSpecificToolResult_def
      ref_interceptAfterToolCall_def split: option.splits)









lemma ref_enqueue_run:
  "guarded st (fst (ref_enqueueBreakpoint maxC key ev run m h))
     = fst (enqueueBreakpoint maxC key (ev, fst run) m)"
  "snd (ref_enqueueBreakpoint maxC key ev run m h) = (if admits maxC key m then snd run else h)"
  by (simp_all add: ref_enqueueBreakpoint_def guarded_enqueue)

lemma ref_break_returns:
  "returns (passing x (ref_guarded st (ref_breakBeforeToolCall maxC gen bp m r state)))"
  "returns (passing x (ref_guarded st (ref_breakBeforeSpecificToolCall maxC gen bp m r state)))"
  "returns (passing x (ref_guarded st (ref_breakAfterSpecificToolCall maxC gen bp m result r state)))"
  "returns (passing x (ref_guarded st (ref_breakAfterToolCall maxC gen bp m result r state)))"
  by (auto simp: returns_def passing_run ref_guarded_def ref_breakBeforeToolCall_def
      ref_breakBeforeSpecificToolCall_def ref_breakAfterSpecificToolCall_def
      ref_breakAfterToolCall_def ref_enqueue_run guarded_skipped enqueue_returns
      split: option.splits)









subsection \<open>The body of a task over the store\<close>


lemma specific_stage_returns:
  "returns (case g of ShortCircuitRef result \<Rightarrow> returning g
            | NormalRef modifiedInput \<Rightarrow>
                passing modifiedInput (ref_interceptSpecificToolCall gen ic modifiedInput state))"
  by (cases g) (simp_all add: returns_returning ref_intercept_returns)


lemma before_returns: "returns (ref_before_stages A env r state)"
  unfolding ref_before_stages_def
  by (intro returns_then_do ref_intercept_returns ref_break_returns specific_stage_returns
      returns_returning)




lemma after_returns: "returns (ref_after_stages A env r state result)"
  unfolding ref_after_stages_def
  by (intro returns_then_do ref_intercept_returns ref_break_returns returns_returning)












subsection \<open>The two agents\<close>














section \<open>The pipeline by value as a pipeline over the store\<close>

text \<open>
  For an agent whose hooks and tools work by value, the body of a task over the store has the
  outcome and, reference by reference, the trace of the body of a task by value, run on what
  the issued object holds; and it leaves the issued object as it was. What the sections on the
  tool execution engine prove of \<open>task_body\<close> is thereby proved of the source for hooks and
  tools that assign to no call object.
\<close>

lemma map_of_by_value:
  "map_of (map (\<lambda>entry. (fst entry, f (snd entry))) entries) name
     = map_option f (map_of entries name)"
  by (induction entries) auto

lemma by_value_ic_fields:
  "ref_ic_enabled (by_value_interceptors ic) = ic_enabled ic"
  "ref_global_beforeToolCall (by_value_interceptors ic)
     = map_option by_value_before (global_beforeToolCall ic)"
  "ref_global_afterToolCall (by_value_interceptors ic)
     = map_option by_value_after (global_afterToolCall ic)"
  "map_of (ref_ic_toolSpecific (by_value_interceptors ic)) name
     = map_option by_value_tool_interceptors (map_of (ic_toolSpecific ic) name)"
  "ref_ic_toolSpecific (by_value_interceptors ic) = [] \<longleftrightarrow> ic_toolSpecific ic = []"
  "ref_ic_beforeToolCall (by_value_tool_interceptors ti)
     = map_option by_value_before (ic_beforeToolCall ti)"
  "ref_ic_afterToolCall (by_value_tool_interceptors ti)
     = map_option by_value_after (ic_afterToolCall ti)"
  by (simp_all add: by_value_interceptors_def map_of_by_value)
     (simp_all add: by_value_tool_interceptors_def)

lemma by_value_bp_fields:
  "ref_bp_enabled (by_value_breakpoints bp) = bp_enabled bp"
  "ref_bp_global_beforeToolCall (by_value_breakpoints bp)
     = map_option by_value_observer (bp_global_beforeToolCall bp)"
  "ref_bp_global_afterToolCall (by_value_breakpoints bp)
     = map_option by_value_after (bp_global_afterToolCall bp)"
  "map_of (ref_bp_toolSpecific (by_value_breakpoints bp)) name
     = map_option by_value_tool_breakpoints (map_of (bp_toolSpecific bp) name)"
  "ref_bp_toolSpecific (by_value_breakpoints bp) = [] \<longleftrightarrow> bp_toolSpecific bp = []"
  "ref_bp_beforeToolCall (by_value_tool_breakpoints tb)
     = map_option by_value_observer (bp_beforeToolCall tb)"
  "ref_bp_afterToolCall (by_value_tool_breakpoints tb)
     = map_option by_value_after (bp_afterToolCall tb)"
  by (simp_all add: by_value_breakpoints_def map_of_by_value)
     (simp_all add: by_value_tool_breakpoints_def)

lemma by_value_intercept_before:
  fixes ic :: "'a InterceptorConfig" and h :: "'a store" and gen x state
  defines "R \<equiv> ref_interceptBeforeToolCall gen (by_value_interceptors ic) x state h"
    and "P \<equiv> interceptBeforeToolCall gen ic (h x) state"
  shows "\<exists>result. fst (fst R) = Inr result \<and> fst P = Inr (value_of (snd R) result)
    \<and> snd (fst R) = snd P \<and> (\<forall>y \<le> x. snd R y = h y)
    \<and> (\<forall>y. result = NormalRef y \<longrightarrow> x \<le> y)"
  unfolding R_def P_def
  by (auto simp: ref_interceptBeforeToolCall_def interceptBeforeToolCall_def
      by_value_ic_fields by_value_before_def acquireLock_def executeWithLock_def
      try_catch_def called_def
      split: option.splits sum.splits InterceptorResult.splits)

lemma by_value_intercept_specific:
  fixes ic :: "'a InterceptorConfig" and h :: "'a store" and gen x state
  defines "R \<equiv> ref_interceptSpecificToolCall gen (by_value_interceptors ic) x state h"
    and "P \<equiv> interceptSpecificToolCall gen ic (h x) state"
  shows "\<exists>result. fst (fst R) = Inr result \<and> fst P = Inr (value_of (snd R) result)
    \<and> snd (fst R) = snd P \<and> (\<forall>y \<le> x. snd R y = h y)
    \<and> (\<forall>y. result = NormalRef y \<longrightarrow> x \<le> y)"
  unfolding R_def P_def
  by (auto simp: ref_interceptSpecificToolCall_def interceptSpecificToolCall_def
      by_value_ic_fields by_value_before_def acquireLock_def executeWithLock_def
      try_catch_def called_def
      split: option.splits sum.splits InterceptorResult.splits)

lemma by_value_intercept_after:
  "ref_interceptSpecificToolResult gen (by_value_interceptors ic) result r state h
     = (interceptSpecificToolResult gen ic result (h r) state, h)"
  "ref_interceptAfterToolCall gen (by_value_interceptors ic) result r state h
     = (interceptAfterToolCall gen ic result (h r) state, h)"
  by (auto simp: ref_interceptSpecificToolResult_def interceptSpecificToolResult_def
      ref_interceptAfterToolCall_def interceptAfterToolCall_def
      by_value_ic_fields by_value_after_def split: option.splits)

lemma by_value_break:
  "ref_breakBeforeToolCall maxC gen (by_value_breakpoints bp) m r state h
     = (breakBeforeToolCall maxC gen bp m (h r) state, h)"
  "ref_breakBeforeSpecificToolCall maxC gen (by_value_breakpoints bp) m r state h
     = (breakBeforeSpecificToolCall maxC gen bp m (h r) state, h)"
  "ref_breakAfterSpecificToolCall maxC gen (by_value_breakpoints bp) m result r state h
     = (breakAfterSpecificToolCall maxC gen bp m result (h r) state, h)"
  "ref_breakAfterToolCall maxC gen (by_value_breakpoints bp) m result r state h
     = (breakAfterToolCall maxC gen bp m result (h r) state, h)"
  by (auto simp: ref_breakBeforeToolCall_def breakBeforeToolCall_def
      ref_breakBeforeSpecificToolCall_def breakBeforeSpecificToolCall_def
      ref_breakAfterSpecificToolCall_def breakAfterSpecificToolCall_def
      ref_breakAfterToolCall_def breakAfterToolCall_def ref_enqueueBreakpoint_def
      by_value_bp_fields by_value_observer_def by_value_after_def split: option.splits)

lemma by_value_resolve:
  "outcome_of (ref_resolve_result (by_value A) r result) h
     = fst (resolve_result A (h r) (value_of h result))"
  "map snd (events_of (ref_resolve_result (by_value A) r result) h)
     = snd (resolve_result A (h r) (value_of h result))"
  "store_after (ref_resolve_result (by_value A) r result) h = h"
  by (auto simp: ref_resolve_result_def resolve_result_def by_value_def by_value_tool_def
      outcome_of_def events_of_def store_after_def returning_def called_def
      split: ref_InterceptorResult.splits option.splits)


lemma then_do_run:
  "outcome_of (then_do first rest) h =
     (case outcome_of first h of
        Inl error \<Rightarrow> Inl error
      | Inr v \<Rightarrow> outcome_of (rest v) (store_after first h))"
  "events_of (then_do first rest) h =
     (case outcome_of first h of
        Inl error \<Rightarrow> events_of first h
      | Inr v \<Rightarrow> events_of first h @ events_of (rest v) (store_after first h))"
  "store_after (then_do first rest) h =
     (case outcome_of first h of
        Inl error \<Rightarrow> store_after first h
      | Inr v \<Rightarrow> store_after (rest v) (store_after first h))"
  by (simp_all add: then_do_def outcome_of_def events_of_def store_after_def split: sum.splits)

lemma map_snd_Pair: "map snd (map (Pair r) xs) = xs" "map (snd \<circ> Pair r) xs = xs"
  by (induction xs) simp_all

lemma by_value_agent_fields:
  "ref_generateId (by_value A) = agent_generateId A"
  "ref_interceptors (by_value A) = by_value_interceptors (agent_interceptors A)"
  "ref_breakpoints (by_value A) = by_value_breakpoints (agent_breakpoints A)"
  "ref_maxConcurrentBreakpoints (by_value A) = agent_maxConcurrentBreakpoints A"
  by (simp_all add: by_value_def)

lemma by_value_break_run:
  "outcome_of (passing r (ref_guarded st
      (ref_breakBeforeToolCall maxC gen (by_value_breakpoints bp) m r state))) h = Inr ()"
  "events_of (passing r (ref_guarded st
      (ref_breakBeforeToolCall maxC gen (by_value_breakpoints bp) m r state))) h
     = map (Pair r) (snd (guarded st (breakBeforeToolCall maxC gen bp m (h r) state)))"
  "store_after (passing r (ref_guarded st
      (ref_breakBeforeToolCall maxC gen (by_value_breakpoints bp) m r state))) h = h"
  "outcome_of (passing r (ref_guarded st
      (ref_breakBeforeSpecificToolCall maxC gen (by_value_breakpoints bp) m r state))) h = Inr ()"
  "events_of (passing r (ref_guarded st
      (ref_breakBeforeSpecificToolCall maxC gen (by_value_breakpoints bp) m r state))) h
     = map (Pair r) (snd (guarded st (breakBeforeSpecificToolCall maxC gen bp m (h r) state)))"
  "store_after (passing r (ref_guarded st
      (ref_breakBeforeSpecificToolCall maxC gen (by_value_breakpoints bp) m r state))) h = h"
  "outcome_of (passing r (ref_guarded st
      (ref_breakAfterSpecificToolCall maxC gen (by_value_breakpoints bp) m result r state))) h
     = Inr ()"
  "events_of (passing r (ref_guarded st
      (ref_breakAfterSpecificToolCall maxC gen (by_value_breakpoints bp) m result r state))) h
     = map (Pair r)
         (snd (guarded st (breakAfterSpecificToolCall maxC gen bp m result (h r) state)))"
  "store_after (passing r (ref_guarded st
      (ref_breakAfterSpecificToolCall maxC gen (by_value_breakpoints bp) m result r state))) h
     = h"
  "outcome_of (passing r (ref_guarded st
      (ref_breakAfterToolCall maxC gen (by_value_breakpoints bp) m result r state))) h = Inr ()"
  "events_of (passing r (ref_guarded st
      (ref_breakAfterToolCall maxC gen (by_value_breakpoints bp) m result r state))) h
     = map (Pair r) (snd (guarded st (breakAfterToolCall maxC gen bp m result (h r) state)))"
  "store_after (passing r (ref_guarded st
      (ref_breakAfterToolCall maxC gen (by_value_breakpoints bp) m result r state))) h = h"
  by (simp_all add: passing_run ref_guarded_def by_value_break break_returns)

lemma by_value_after_run:
  "outcome_of (passing r
      (ref_interceptSpecificToolResult gen (by_value_interceptors ic) result r state)) h
     = fst (interceptSpecificToolResult gen ic result (h r) state)"
  "events_of (passing r
      (ref_interceptSpecificToolResult gen (by_value_interceptors ic) result r state)) h
     = map (Pair r) (snd (interceptSpecificToolResult gen ic result (h r) state))"
  "store_after (passing r
      (ref_interceptSpecificToolResult gen (by_value_interceptors ic) result r state)) h = h"
  "outcome_of (passing r
      (ref_interceptAfterToolCall gen (by_value_interceptors ic) result r state)) h
     = fst (interceptAfterToolCall gen ic result (h r) state)"
  "events_of (passing r
      (ref_interceptAfterToolCall gen (by_value_interceptors ic) result r state)) h
     = map (Pair r) (snd (interceptAfterToolCall gen ic result (h r) state))"
  "store_after (passing r
      (ref_interceptAfterToolCall gen (by_value_interceptors ic) result r state)) h = h"
  by (simp_all add: passing_run by_value_intercept_after)

lemma by_value_after_stages:
  "outcome_of (ref_after_stages (by_value A) env r state result) h
     = fst (after_stages A env (h r) state result)"
  "map snd (events_of (ref_after_stages (by_value A) env r state result) h)
     = snd (after_stages A env (h r) state result)"
  "store_after (ref_after_stages (by_value A) env r state result) h = h"
  unfolding ref_after_stages_def after_stages_def
  by (simp_all add: then_do_run by_value_agent_fields by_value_break_run by_value_after_run
      and_then_def break_returns map_snd_Pair split: sum.splits)


lemma by_value_before_stages:
  fixes A :: "'a agent" and h :: "'a store"
  shows "\<exists>result.
      outcome_of (ref_before_stages (by_value A) env r state) h = Inr result
      \<and> fst (before_stages A env (h r) state)
          = Inr (value_of (store_after (ref_before_stages (by_value A) env r state) h) result)
      \<and> map snd (events_of (ref_before_stages (by_value A) env r state) h)
          = snd (before_stages A env (h r) state)
      \<and> store_after (ref_before_stages (by_value A) env r state) h r = h r"
proof -
  let ?gen = "agent_generateId A" and ?ic = "agent_interceptors A"
  let ?R1 = "ref_interceptBeforeToolCall ?gen (by_value_interceptors ?ic) r state h"
  let ?P1 = "interceptBeforeToolCall ?gen ?ic (h r) state"
  define h1 where "h1 = snd ?R1"
  obtain g where g: "fst (fst ?R1) = Inr g" "fst ?P1 = Inr (value_of h1 g)"
    "snd (fst ?R1) = snd ?P1" "\<forall>y \<le> r. h1 y = h y" "\<forall>y. g = NormalRef y \<longrightarrow> r \<le> y"
    using by_value_intercept_before [of ?gen ?ic r state h] unfolding h1_def by blast
  have r1: "h1 r = h r" using g(4) by simp
  have run1:
    "outcome_of (passing r (ref_interceptBeforeToolCall ?gen (by_value_interceptors ?ic) r state)) h
       = Inr g"
    "events_of (passing r (ref_interceptBeforeToolCall ?gen (by_value_interceptors ?ic) r state)) h
       = map (Pair r) (snd ?P1)"
    "store_after (passing r (ref_interceptBeforeToolCall ?gen (by_value_interceptors ?ic) r state)) h
       = h1"
    using g(1,3) by (simp_all add: passing_run h1_def)
  show ?thesis
  proof (cases g)
    case (ShortCircuitRef out)
    then have p1: "fst ?P1 = Inr (ShortCircuitResult out)"
      using g(2) by simp
    show ?thesis
      unfolding ref_before_stages_def before_stages_short [OF p1]
      by (simp add: then_do_run by_value_agent_fields run1 by_value_break_run ShortCircuitRef
          r1 map_snd_Pair)
  next
    case (NormalRef x)
    then have x: "r \<le> x" using g(5) by simp
    have p1: "fst ?P1 = Inr (NormalResult (h1 x))"
      using g(2) NormalRef by simp
    let ?R3 = "ref_interceptSpecificToolCall ?gen (by_value_interceptors ?ic) x state h1"
    let ?P3 = "interceptSpecificToolCall ?gen ?ic (h1 x) state"
    define h3 where "h3 = snd ?R3"
    obtain final where final: "fst (fst ?R3) = Inr final" "fst ?P3 = Inr (value_of h3 final)"
      "snd (fst ?R3) = snd ?P3" "\<forall>y \<le> x. h3 y = h1 y"
      using by_value_intercept_specific [of ?gen ?ic x state h1] unfolding h3_def by blast
    have r3: "h3 r = h r" using final(4) x r1 by simp
    have run3:
      "outcome_of (passing x
          (ref_interceptSpecificToolCall ?gen (by_value_interceptors ?ic) x state)) h1 = Inr final"
      "events_of (passing x
          (ref_interceptSpecificToolCall ?gen (by_value_interceptors ?ic) x state)) h1
         = map (Pair x) (snd ?P3)"
      "store_after (passing x
          (ref_interceptSpecificToolCall ?gen (by_value_interceptors ?ic) x state)) h1 = h3"
      using final(1,3) by (simp_all add: passing_run h3_def)
    show ?thesis
      unfolding ref_before_stages_def before_stages_normal [OF p1]
      by (simp add: then_do_run by_value_agent_fields run1 run3 by_value_break_run NormalRef
          r1 r3 final(2) map_snd_Pair)
  qed
qed

lemma by_value_task_body:
  fixes A :: "'a agent" and h :: "'a store"
  shows "outcome_of (ref_task_body (by_value A) env r state) h = fst (task_body A env (h r) state)
    \<and> map snd (events_of (ref_task_body (by_value A) env r state) h)
        = snd (task_body A env (h r) state)
    \<and> store_after (ref_task_body (by_value A) env r state) h r = h r"
proof -
  let ?RB = "ref_before_stages (by_value A) env r state"
  obtain final where b: "outcome_of ?RB h = Inr final"
    "fst (before_stages A env (h r) state) = Inr (value_of (store_after ?RB h) final)"
    "map snd (events_of ?RB h) = snd (before_stages A env (h r) state)"
    "store_after ?RB h r = h r"
    using by_value_before_stages [of A env r state h] by blast
  show ?thesis
    unfolding ref_task_body_def ref_resolved_result_def task_body_def resolved_result_def
    by (simp add: then_do_run b by_value_resolve by_value_after_stages and_then_def
        split: sum.splits)
qed

end
